theory Spec2Isabelle
  imports Main "HOL-Library.Word" "HOL-Library.Sublist" "HOL-Library.Multiset" "HOL-Library.AList"
begin

chapter \<open>Pulse: journal and social-post storage as markdown files\<close>

text \<open>
  A shallow embedding of the storage engine of the repository: the journal store
  (\<^verbatim>\<open>internal/storage/journal_md.go\<close>), the social store
  (\<^verbatim>\<open>internal/storage/social_md.go\<close>) and the record types
  (\<^verbatim>\<open>internal/models\<close>).  Go strings are byte strings (\<open>string\<close>), Go maps are
  partial functions, a \<^verbatim>\<open>*uuid.UUID\<close> is an \<open>option\<close>, every error return is a
  value of the type \<open>error\<close>, and the file system is an explicit tree that the
  operations read and return updated.
\<close>

section \<open>The Go standard library: strings\<close>

abbreviation NL :: char where "NL \<equiv> CHR 0x0A"

definition HasPrefix :: "string \<Rightarrow> string \<Rightarrow> bool" where
  "HasPrefix s p = prefix p s"

definition HasSuffix :: "string \<Rightarrow> string \<Rightarrow> bool" where
  "HasSuffix s p = suffix p s"

definition TrimPrefix :: "string \<Rightarrow> string \<Rightarrow> string" where
  "TrimPrefix s p = (if HasPrefix s p then drop (length p) s else s)"

text \<open>\<^verbatim>\<open>strings.Split(s, sep)\<close> for a separator of one byte: the pieces between the
  separators, empty pieces included; never the empty list.\<close>

fun Split :: "char \<Rightarrow> string \<Rightarrow> string list" where
  "Split c [] = [[]]"
| "Split c (x # xs) =
     (if x = c then [] # Split c xs
      else (case Split c xs of [] \<Rightarrow> [[x]] | piece # pieces \<Rightarrow> (x # piece) # pieces))"

text \<open>\<^verbatim>\<open>strings.Join(elems, sep)\<close>.\<close>

fun JoinStrings :: "string list \<Rightarrow> string \<Rightarrow> string" where
  "JoinStrings [] sep = []"
| "JoinStrings [x] sep = x"
| "JoinStrings (x # y # ys) sep = x @ sep @ JoinStrings (y # ys) sep"

text \<open>
  The white space of \<^verbatim>\<open>unicode.IsSpace\<close>, as the UTF-8 byte sequences of its code
  points: the six ASCII characters tab, line feed, vertical tab, form feed, carriage
  return and space, then U+0085, U+00A0, U+1680, U+2000 to U+200A, U+2028, U+2029,
  U+202F, U+205F and U+3000.  Go decodes a string rune by rune; a white-space rune
  stands at the front (at the end) of a string exactly when one of these sequences is
  a prefix (a suffix) of it.
\<close>

definition space_runes :: "string list" where
  "space_runes =
     [[CHR 0x09], [CHR 0x0A], [CHR 0x0B], [CHR 0x0C], [CHR 0x0D], [CHR 0x20],
      [CHR 0xC2, CHR 0x85], [CHR 0xC2, CHR 0xA0],
      [CHR 0xE1, CHR 0x9A, CHR 0x80],
      [CHR 0xE2, CHR 0x80, CHR 0x80], [CHR 0xE2, CHR 0x80, CHR 0x81],
      [CHR 0xE2, CHR 0x80, CHR 0x82], [CHR 0xE2, CHR 0x80, CHR 0x83],
      [CHR 0xE2, CHR 0x80, CHR 0x84], [CHR 0xE2, CHR 0x80, CHR 0x85],
      [CHR 0xE2, CHR 0x80, CHR 0x86], [CHR 0xE2, CHR 0x80, CHR 0x87],
      [CHR 0xE2, CHR 0x80, CHR 0x88], [CHR 0xE2, CHR 0x80, CHR 0x89],
      [CHR 0xE2, CHR 0x80, CHR 0x8A],
      [CHR 0xE2, CHR 0x80, CHR 0xA8], [CHR 0xE2, CHR 0x80, CHR 0xA9],
      [CHR 0xE2, CHR 0x80, CHR 0xAF], [CHR 0xE2, CHR 0x81, CHR 0x9F],
      [CHR 0xE3, CHR 0x80, CHR 0x80]]"

text \<open>The length in bytes of the white-space rune at the front of a string (at its
  end); 0 when the first (last) rune is not white space.\<close>

definition space_front :: "string \<Rightarrow> nat" where
  "space_front s = (case find (\<lambda>e. prefix e s) space_runes of None \<Rightarrow> 0 | Some e \<Rightarrow> length e)"

definition space_back :: "string \<Rightarrow> nat" where
  "space_back s = (case find (\<lambda>e. suffix e s) space_runes of None \<Rightarrow> 0 | Some e \<Rightarrow> length e)"

lemma space_runes_nonempty: "e \<in> set space_runes \<Longrightarrow> e \<noteq> []"
  by (auto simp: space_runes_def)

lemma space_front_le: "space_front s \<le> length s"
  by (auto simp: space_front_def find_Some_iff prefix_def split: option.splits)

lemma space_front_pos: "space_front s \<noteq> 0 \<Longrightarrow> s \<noteq> []"
  using space_front_le [of s] by auto

lemma space_back_le: "space_back s \<le> length s"
  by (auto simp: space_back_def find_Some_iff suffix_def split: option.splits)

function TrimLeft :: "string \<Rightarrow> string" where
  "TrimLeft s = (if space_front s = 0 then s else TrimLeft (drop (space_front s) s))"
  by pat_completeness auto
termination
proof (relation "measure length")
  show "wf (measure length)" by simp
next
  fix s :: string
  assume "space_front s \<noteq> 0"
  then show "(drop (space_front s) s, s) \<in> measure length"
    using space_front_pos [of s] by simp
qed

function TrimRight :: "string \<Rightarrow> string" where
  "TrimRight s =
     (if space_back s = 0 then s else TrimRight (take (length s - space_back s) s))"
  by pat_completeness auto
termination
proof (relation "measure length")
  show "wf (measure length)" by simp
next
  fix s :: string
  assume "space_back s \<noteq> 0"
  then show "(take (length s - space_back s) s, s) \<in> measure length"
    using space_back_le [of s] by (cases s) auto
qed

declare TrimLeft.simps [simp del] TrimRight.simps [simp del]

text \<open>\<^verbatim>\<open>strings.TrimSpace\<close>: all leading and trailing white space removed.\<close>

definition TrimSpace :: "string \<Rightarrow> string" where
  "TrimSpace s = TrimRight (TrimLeft s)"

text \<open>\<^verbatim>\<open>strings.Fields\<close>: the maximal runs of bytes between white space; \<open>cur\<close> is the
  field being read.\<close>

function Fields_from :: "string \<Rightarrow> string \<Rightarrow> string list" where
  "Fields_from cur s =
     (if s = [] then (if cur = [] then [] else [cur])
      else if space_front s = 0 then Fields_from (cur @ [hd s]) (tl s)
      else (if cur = [] then [] else [cur]) @ Fields_from [] (drop (space_front s) s))"
  by pat_completeness auto
termination
  by (relation "measure (\<lambda>(cur, s). length s)") auto

declare Fields_from.simps [simp del]

definition Fields :: "string \<Rightarrow> string list" where
  "Fields s = Fields_from [] s"

text \<open>
  The case of ASCII letters.  \<open>ToUpper1\<close> is \<^verbatim>\<open>strings.ToUpper\<close> of a string of one
  byte, which is what \<^verbatim>\<open>part[:1]\<close> is: a byte from 0x80 on is no valid UTF-8 alone and
  comes out as U+FFFD.  \<^verbatim>\<open>strings.ToLower\<close> stands with the parameters below, because
  beyond ASCII it goes by the case tables of Unicode.
\<close>

definition lower_byte :: "char \<Rightarrow> char" where
  "lower_byte c =
     (let n = of_char c :: nat in if 65 \<le> n \<and> n \<le> 90 then char_of (n + 32) else c)"

definition upper_byte :: "char \<Rightarrow> char" where
  "upper_byte c =
     (let n = of_char c :: nat in if 97 \<le> n \<and> n \<le> 122 then char_of (n - 32) else c)"

definition ToUpper1 :: "char \<Rightarrow> string" where
  "ToUpper1 c =
     (if (of_char c :: nat) < 128 then [upper_byte c] else [CHR 0xEF, CHR 0xBF, CHR 0xBD])"

section \<open>The Go standard library: path/filepath and os\<close>

text \<open>
  \<^verbatim>\<open>filepath.Clean\<close> on a Unix path, by its documented rules: runs of separators
  count as one, \<open>.\<close> elements go, an inner \<open>..\<close> goes with the element before it, a
  \<open>..\<close> that begins a rooted path goes, and the empty result is \<open>.\<close>.  \<open>clean_step\<close>
  reads one element; \<open>out\<close> holds the elements kept so far, the last one first.
\<close>

definition clean_step :: "bool \<Rightarrow> string list \<Rightarrow> string \<Rightarrow> string list" where
  "clean_step rooted out seg =
     (if seg = [] \<or> seg = ''.'' then out
      else if seg = ''..'' then
        (case out of
           [] \<Rightarrow> (if rooted then [] else [''..''])
         | s # rest \<Rightarrow> (if s = ''..'' then ''..'' # out else rest))
      else seg # out)"

definition IsAbs :: "string \<Rightarrow> bool" where
  "IsAbs path = HasPrefix path ''/''"

definition clean_elems :: "string \<Rightarrow> string list" where
  "clean_elems path = rev (foldl (clean_step (IsAbs path)) [] (Split (CHR ''/'') path))"

definition Clean :: "string \<Rightarrow> string" where
  "Clean path =
     (if IsAbs path then CHR ''/'' # JoinStrings (clean_elems path) ''/''
      else if clean_elems path = [] then ''.''
      else JoinStrings (clean_elems path) ''/'')"

text \<open>\<^verbatim>\<open>filepath.Join\<close>: the elements from the first non-empty one on, joined by the
  separator and cleaned; the empty string when all are empty.\<close>

fun Join :: "string list \<Rightarrow> string" where
  "Join [] = []"
| "Join (e # es) = (if e = [] then Join es else Clean (JoinStrings (e # es) ''/''))"

text \<open>\<^verbatim>\<open>filepath.Abs\<close>: an absolute path is cleaned; a relative one is joined to the
  working directory, and the call fails when \<^verbatim>\<open>os.Getwd\<close> does (\<open>wd = None\<close>).\<close>

definition Abs :: "string option \<Rightarrow> string \<Rightarrow> string option" where
  "Abs wd path =
     (if IsAbs path then Some (Clean path)
      else (case wd of None \<Rightarrow> None | Some w \<Rightarrow> Some (Join [w, path])))"

text \<open>
  The file system is a tree.  A directory lists its entries by name, in the order
  \<^verbatim>\<open>os.ReadDir\<close> and \<^verbatim>\<open>filepath.Walk\<close> visit them; \<open>LockedFile\<close> is a file that
  cannot be read and \<open>LockedDir\<close> a directory that can be neither listed nor
  searched.  There are no symbolic links.
\<close>

datatype node = File string | LockedFile | Dir "(string \<times> node) list" | LockedDir

datatype oserr = ENOENT | ENOTDIR | EACCES | EISDIR

fun lookup :: "node \<Rightarrow> string list \<Rightarrow> oserr + node" where
  "lookup n [] = Inr n"
| "lookup (Dir es) (s # ss) =
     (case map_of es s of None \<Rightarrow> Inl ENOENT | Some c \<Rightarrow> lookup c ss)"
| "lookup (File d) (s # ss) = Inl ENOTDIR"
| "lookup LockedFile (s # ss) = Inl ENOTDIR"
| "lookup LockedDir (s # ss) = Inl EACCES"

text \<open>\<open>Time\<close> is a \<^verbatim>\<open>time.Time\<close>: the instant in nanoseconds since January 1 of
  year 1, 00:00:00 UTC (Go's zero time), and the offset east of UTC, in seconds, that
  its zone has at that instant.\<close>

record Time =
  instant :: int
  zone :: int

text \<open>
  What a call finds outside the program: the file system, the working directory
  (\<open>None\<close> when \<^verbatim>\<open>os.Getwd\<close> fails), the time \<^verbatim>\<open>time.Now()\<close>, and the calendar of the
  local time zone.  \<open>AddDate e t n\<close> is \<^verbatim>\<open>t.AddDate(0, 0, n)\<close> for a local time \<open>t\<close>: the
  same wall clock \<open>n\<close> days on in the calendar.  With the rules of the zone (daylight
  saving) and the range of the machine's integers this is not always the instant
  \<open>n\<close> times 24 hours later, so it is a part of the environment; nothing is assumed
  of it but what a theorem says.
\<close>

record env =
  fs :: node
  cwd :: "string option"
  now :: Time
  AddDate :: "Time \<Rightarrow> int \<Rightarrow> Time"

definition path_elems :: "string \<Rightarrow> string list" where
  "path_elems p = filter (\<lambda>s. s \<noteq> []) (Split (CHR ''/'') p)"

fun IsDir :: "node \<Rightarrow> bool" where
  "IsDir (Dir es) = True"
| "IsDir LockedDir = True"
| "IsDir (File d) = False"
| "IsDir LockedFile = False"

text \<open>
  How the system resolves a path: element by element, from the root of the tree for
  an absolute path and through the working directory for a relative one.  \<open>pos\<close> is
  the position reached, as the names from the root.  An empty element stays there
  and needs a directory to stand on; \<open>.\<close> stays, \<open>..\<close> goes to the parent (the root is
  its own parent) and a name goes to the entry of that name, and these three need a
  directory that can be searched.  So every element of the path must exist, those
  before a \<open>..\<close> too, where \<^verbatim>\<open>filepath.Clean\<close> only reads the text.  The empty path
  names no file.
\<close>

fun search :: "node \<Rightarrow> oserr option" where
  "search (Dir es) = None"
| "search LockedDir = Some EACCES"
| "search (File d) = Some ENOTDIR"
| "search LockedFile = Some ENOTDIR"

fun resolve :: "node \<Rightarrow> string list \<Rightarrow> string list \<Rightarrow> oserr + string list" where
  "resolve root pos [] = Inr pos"
| "resolve root pos (c # cs) =
     (case lookup root pos of
        Inl err \<Rightarrow> Inl err
      | Inr n \<Rightarrow>
          if c = [] then (if IsDir n then resolve root pos cs else Inl ENOTDIR)
          else (case search n of
                  Some err \<Rightarrow> Inl err
                | None \<Rightarrow>
                    if c = ''.'' then resolve root pos cs
                    else if c = ''..'' then resolve root (butlast pos) cs
                    else (case lookup root (pos @ [c]) of
                            Inl err \<Rightarrow> Inl err
                          | Inr m \<Rightarrow> resolve root (pos @ [c]) cs)))"

definition os_Stat :: "env \<Rightarrow> string \<Rightarrow> oserr + node" where
  "os_Stat e path =
     (if path = [] then Inl ENOENT
      else (case (if IsAbs path then Some [] else map_option (Split (CHR ''/'')) (cwd e)) of
              None \<Rightarrow> Inl ENOENT
            | Some base \<Rightarrow>
                (case resolve (fs e) [] (base @ Split (CHR ''/'') path) of
                   Inl err \<Rightarrow> Inl err
                 | Inr pos \<Rightarrow> lookup (fs e) pos)))"

text \<open>Listing and reading an entry that is at hand.\<close>

fun list_node :: "node \<Rightarrow> oserr + (string \<times> node) list" where
  "list_node (Dir es) = Inr es"
| "list_node LockedDir = Inl EACCES"
| "list_node (File d) = Inl ENOTDIR"
| "list_node LockedFile = Inl ENOTDIR"

fun read_node :: "node \<Rightarrow> oserr + string" where
  "read_node (File d) = Inr d"
| "read_node LockedFile = Inl EACCES"
| "read_node (Dir es) = Inl EISDIR"
| "read_node LockedDir = Inl EISDIR"

definition os_ReadDir :: "env \<Rightarrow> string \<Rightarrow> oserr + (string \<times> node) list" where
  "os_ReadDir e path =
     (case os_Stat e path of Inl err \<Rightarrow> Inl err | Inr n \<Rightarrow> list_node n)"

definition os_ReadFile :: "env \<Rightarrow> string \<Rightarrow> oserr + string" where
  "os_ReadFile e path =
     (case os_Stat e path of Inl err \<Rightarrow> Inl err | Inr n \<Rightarrow> read_node n)"

text \<open>
  Writing a file.  \<open>put\<close> follows the path from a directory down, makes the
  directories that are missing (\<open>fresh\<close>), and sets the file's content; an existing
  file is replaced, and a new entry is listed last.  \<open>AtomicWrite\<close> is
  \<^verbatim>\<open>mdstore.AtomicWrite\<close>: the parent directories are created, and the file appears
  with its whole content or, on an error, not at all.
\<close>

fun fresh :: "string list \<Rightarrow> string \<Rightarrow> node" where
  "fresh [] data = File data"
| "fresh (s # ss) data = Dir [(s, fresh ss data)]"

fun put :: "node \<Rightarrow> string list \<Rightarrow> string \<Rightarrow> oserr + node" where
  "put (File d) [] data = Inr (File data)"
| "put LockedFile [] data = Inr (File data)"
| "put (Dir es) [] data = Inl EISDIR"
| "put LockedDir [] data = Inl EISDIR"
| "put (Dir es) (s # ss) data =
     (case map_of es s of
        None \<Rightarrow> Inr (Dir (AList.update s (fresh ss data) es))
      | Some c \<Rightarrow>
          (case put c ss data of
             Inl err \<Rightarrow> Inl err
           | Inr c' \<Rightarrow> Inr (Dir (AList.update s c' es))))"
| "put (File d) (s # ss) data = Inl ENOTDIR"
| "put LockedFile (s # ss) data = Inl ENOTDIR"
| "put LockedDir (s # ss) data = Inl EACCES"

definition AtomicWrite :: "env \<Rightarrow> string \<Rightarrow> string \<Rightarrow> oserr + env" where
  "AtomicWrite e path data =
     (case Abs (cwd e) path of
        None \<Rightarrow> Inl ENOENT
      | Some p \<Rightarrow>
          (case put (fs e) (path_elems p) data of
             Inl err \<Rightarrow> Inl err
           | Inr n \<Rightarrow> Inr (e\<lparr>fs := n\<rparr>)))"

section \<open>Identifiers and time\<close>

text \<open>
  A \<^verbatim>\<open>uuid.UUID\<close> is 16 bytes, here a word of 128 bits with the first byte most
  significant.  \<open>uuid_String\<close> is \<^verbatim>\<open>UUID.String()\<close>: the 32 hexadecimal digits in
  lower case, in groups of 8, 4, 4, 4 and 12 with \<open>-\<close> between them.
\<close>

type_synonym UUID = "128 word"

definition hex_digit :: "nat \<Rightarrow> char" where
  "hex_digit n = ''0123456789abcdef'' ! (n mod 16)"

definition uuid_hex :: "UUID \<Rightarrow> string" where
  "uuid_hex u = map (\<lambda>i. hex_digit (unat u div 16 ^ (31 - i))) [0..<32]"

definition uuid_String :: "UUID \<Rightarrow> string" where
  "uuid_String u =
     (let h = uuid_hex u in
      take 8 h @ ''-'' @ take 4 (drop 8 h) @ ''-'' @ take 4 (drop 12 h) @ ''-'' @
      take 4 (drop 16 h) @ ''-'' @ drop 20 h)"

text \<open>\<^verbatim>\<open>t.After(u)\<close>, \<^verbatim>\<open>t.Before(u)\<close> and \<^verbatim>\<open>t.IsZero()\<close> compare instants; the zero
  \<^verbatim>\<open>time.Time\<close> is instant 0 in UTC.\<close>

definition After :: "Time \<Rightarrow> Time \<Rightarrow> bool" where
  "After t u = (instant t > instant u)"

definition Before :: "Time \<Rightarrow> Time \<Rightarrow> bool" where
  "Before t u = (instant t < instant u)"

definition IsZero :: "Time \<Rightarrow> bool" where
  "IsZero t = (instant t = 0)"

definition zero_Time :: Time where
  "zero_Time = \<lparr>instant = 0, zone = 0\<rparr>"

text \<open>Decimal digits, and \<^verbatim>\<open>appendInt\<close> of package \<^verbatim>\<open>time\<close>: the sign, then the
  decimal form padded with zeros to the width.\<close>

definition digit :: "nat \<Rightarrow> char" where
  "digit n = ''0123456789'' ! (n mod 10)"

function dec :: "nat \<Rightarrow> string" where
  "dec n = (if n < 10 then [digit n] else dec (n div 10) @ [digit n])"
  by pat_completeness auto
termination
  by (relation "measure id") auto

declare dec.simps [simp del]

definition appendInt :: "int \<Rightarrow> nat \<Rightarrow> string" where
  "appendInt x width =
     (let d = dec (nat \<bar>x\<bar>) in
      (if x < 0 then ''-'' else []) @ replicate (width - length d) (CHR ''0'') @ d)"

text \<open>
  The calendar.  \<open>civil\<close> turns a number of days since January 1 of year 1 into year,
  month and day of the proleptic Gregorian calendar, \<open>days_from_civil\<close> is its
  inverse, and the fields of a \<open>Time\<close> are those of its instant moved by the offset of
  its zone (\<^verbatim>\<open>t.Date()\<close>, \<^verbatim>\<open>t.Clock()\<close>, \<^verbatim>\<open>t.YearDay()\<close>).
\<close>

definition ns_per_day :: int where
  "ns_per_day = 86400 * 1000000000"

definition civil :: "int \<Rightarrow> int \<times> int \<times> int" where
  "civil days =
     (let z = days + 306;
          era = z div 146097;
          doe = z mod 146097;
          yoe = (doe - doe div 1460 + doe div 36524 - doe div 146096) div 365;
          doy = doe - (365 * yoe + yoe div 4 - yoe div 100);
          mp = (5 * doy + 2) div 153;
          d = doy - (153 * mp + 2) div 5 + 1;
          m = (if mp < 10 then mp + 3 else mp - 9);
          y = yoe + era * 400 + (if m \<le> 2 then 1 else 0)
      in (y, m, d))"

definition days_from_civil :: "int \<Rightarrow> int \<Rightarrow> int \<Rightarrow> int" where
  "days_from_civil y m d =
     (let y' = (if m \<le> 2 then y - 1 else y);
          era = y' div 400;
          yoe = y' mod 400;
          doy = (153 * (if m > 2 then m - 3 else m + 9) + 2) div 5 + d - 1;
          doe = yoe * 365 + yoe div 4 - yoe div 100 + doy
      in era * 146097 + doe - 306)"

definition local_ns :: "Time \<Rightarrow> int" where
  "local_ns t = instant t + zone t * 1000000000"

definition Year :: "Time \<Rightarrow> int" where
  "Year t = fst (civil (local_ns t div ns_per_day))"

definition Month :: "Time \<Rightarrow> int" where
  "Month t = fst (snd (civil (local_ns t div ns_per_day)))"

definition Day :: "Time \<Rightarrow> int" where
  "Day t = snd (snd (civil (local_ns t div ns_per_day)))"

definition YearDay :: "Time \<Rightarrow> int" where
  "YearDay t = local_ns t div ns_per_day - days_from_civil (Year t) 1 1 + 1"

definition Hour :: "Time \<Rightarrow> int" where
  "Hour t = (local_ns t mod ns_per_day) div 3600000000000"

definition Minute :: "Time \<Rightarrow> int" where
  "Minute t = (local_ns t mod 3600000000000) div 60000000000"

definition Second :: "Time \<Rightarrow> int" where
  "Second t = (local_ns t mod 60000000000) div 1000000000"

definition Nanosecond :: "Time \<Rightarrow> int" where
  "Nanosecond t = local_ns t mod 1000000000"

text \<open>
  \<^verbatim>\<open>t.Format(layout)\<close>, as package \<^verbatim>\<open>time\<close> reads a layout: \<open>nextStdChunk\<close> finds the
  first reference element, the text before it is copied, the element is replaced by
  the field it names, and the rest is read the same way.  \<open>std_at\<close> is the element
  that starts at the front of a layout, with its length.  The elements modelled are
  those that start with a digit (\<open>2006 06 01 1 02 2 002 15 03 3 04 4 05 5\<close>); this is
  exact for a layout of digits and \<open>-\<close> without \<open>-07\<close>, as both layouts of the stores
  are.  A fraction of a second is an element only after a point or a comma
  (\<open>.000\<close>, \<open>,999\<close>), so in such a layout there is none.
\<close>

datatype std =
    stdLongYear | stdYear | stdZeroMonth | stdNumMonth | stdZeroDay | stdDay
  | stdZeroYearDay | stdHour | stdZeroHour12 | stdHour12 | stdZeroMinute | stdMinute
  | stdZeroSecond | stdSecond

definition std_at :: "string \<Rightarrow> (std \<times> nat) option" where
  "std_at layout =
     (if HasPrefix layout ''01'' then Some (stdZeroMonth, 2)
      else if HasPrefix layout ''02'' then Some (stdZeroDay, 2)
      else if HasPrefix layout ''03'' then Some (stdZeroHour12, 2)
      else if HasPrefix layout ''04'' then Some (stdZeroMinute, 2)
      else if HasPrefix layout ''05'' then Some (stdZeroSecond, 2)
      else if HasPrefix layout ''06'' then Some (stdYear, 2)
      else if HasPrefix layout ''002'' then Some (stdZeroYearDay, 3)
      else if HasPrefix layout ''15'' then Some (stdHour, 2)
      else if HasPrefix layout ''1'' then Some (stdNumMonth, 1)
      else if HasPrefix layout ''2006'' then Some (stdLongYear, 4)
      else if HasPrefix layout ''2'' then Some (stdDay, 1)
      else if HasPrefix layout ''3'' then Some (stdHour12, 1)
      else if HasPrefix layout ''4'' then Some (stdMinute, 1)
      else if HasPrefix layout ''5'' then Some (stdSecond, 1)
      else None)"

fun nextStdChunk :: "string \<Rightarrow> string \<times> std option \<times> string" where
  "nextStdChunk [] = ([], None, [])"
| "nextStdChunk (c # rest) =
     (case std_at (c # rest) of
        Some (code, n) \<Rightarrow> ([], Some code, drop n (c # rest))
      | None \<Rightarrow> (case nextStdChunk rest of (p, code, suf) \<Rightarrow> (c # p, code, suf)))"

definition hour12 :: "Time \<Rightarrow> int" where
  "hour12 t = (if Hour t mod 12 = 0 then 12 else Hour t mod 12)"

fun format_std :: "Time \<Rightarrow> std \<Rightarrow> string" where
  "format_std t stdLongYear = appendInt (Year t) 4"
| "format_std t stdYear = appendInt (Year t mod 100) 2"
| "format_std t stdZeroMonth = appendInt (Month t) 2"
| "format_std t stdNumMonth = appendInt (Month t) 0"
| "format_std t stdZeroDay = appendInt (Day t) 2"
| "format_std t stdDay = appendInt (Day t) 0"
| "format_std t stdZeroYearDay = appendInt (YearDay t) 3"
| "format_std t stdHour = appendInt (Hour t) 2"
| "format_std t stdZeroHour12 = appendInt (hour12 t) 2"
| "format_std t stdHour12 = appendInt (hour12 t) 0"
| "format_std t stdZeroMinute = appendInt (Minute t) 2"
| "format_std t stdMinute = appendInt (Minute t) 0"
| "format_std t stdZeroSecond = appendInt (Second t) 2"
| "format_std t stdSecond = appendInt (Second t) 0"

lemma std_at_pos: "std_at layout = Some (code, n) \<Longrightarrow> 0 < n"
  by (auto simp: std_at_def split: if_splits)

lemma nextStdChunk_shorter:
  "nextStdChunk layout = (p, Some code, suf) \<Longrightarrow> length suf < length layout"
proof (induction layout arbitrary: p)
  case Nil
  then show ?case by simp
next
  case (Cons c rest)
  show ?case
  proof (cases "std_at (c # rest)")
    case None
    with Cons.prems obtain p' where "nextStdChunk rest = (p', Some code, suf)"
      by (auto split: prod.splits)
    from Cons.IH [OF this] show ?thesis by simp
  next
    case (Some a)
    obtain code' n where a: "a = (code', n)" by (cases a)
    with Some Cons.prems have "suf = drop n (c # rest)" by simp
    moreover from Some a have "0 < n" by (auto dest: std_at_pos)
    ultimately show ?thesis by (cases n) auto
  qed
qed

function Format :: "Time \<Rightarrow> string \<Rightarrow> string" where
  "Format t layout =
     (case nextStdChunk layout of
        (p, None, suf) \<Rightarrow> p
      | (p, Some code, suf) \<Rightarrow> p @ format_std t code @ Format t suf)"
  by pat_completeness auto
termination
  by (relation "measure (\<lambda>(t, layout). length layout)")
     (auto dest: nextStdChunk_shorter [OF sym])

declare Format.simps [simp del]

text \<open>
  \<^verbatim>\<open>time.Parse("2006-01-02", value)\<close>: four digits, \<open>-\<close>, two digits, \<open>-\<close>, two
  digits and nothing more, with the month from 1 to 12 and the day one of that
  month; the result is midnight UTC of that day.
\<close>

definition is_digit :: "char \<Rightarrow> bool" where
  "is_digit c = (48 \<le> (of_char c :: nat) \<and> (of_char c :: nat) \<le> 57)"

definition atoi :: "string \<Rightarrow> int" where
  "atoi ds = foldl (\<lambda>a c. 10 * a + (int (of_char c) - 48)) 0 ds"

definition isLeap :: "int \<Rightarrow> bool" where
  "isLeap y = (y mod 4 = 0 \<and> (y mod 100 \<noteq> 0 \<or> y mod 400 = 0))"

definition daysIn :: "int \<Rightarrow> int \<Rightarrow> int" where
  "daysIn m y =
     (if m = 2 then (if isLeap y then 29 else 28)
      else if m = 4 \<or> m = 6 \<or> m = 9 \<or> m = 11 then 30 else 31)"

definition Parse_date :: "string \<Rightarrow> Time option" where
  "Parse_date v =
     (if length v = 10 \<and> list_all is_digit (take 4 v) \<and> v ! 4 = CHR ''-'' \<and>
         list_all is_digit (take 2 (drop 5 v)) \<and> v ! 7 = CHR ''-'' \<and>
         list_all is_digit (drop 8 v)
      then
        (let y = atoi (take 4 v); m = atoi (take 2 (drop 5 v)); d = atoi (drop 8 v) in
         if m < 1 \<or> 12 < m then None
         else if d < 1 \<or> daysIn m y < d then None
         else Some \<lparr>instant = days_from_civil y m d * ns_per_day, zone = 0\<rparr>)
      else None)"

text \<open>\<^verbatim>\<open>t.Truncate(d)\<close> rounds the time since the zero time down to a multiple of
  \<open>d\<close>.\<close>

definition Truncate :: "Time \<Rightarrow> int \<Rightarrow> Time" where
  "Truncate t d = (if d \<le> 0 then t else t\<lparr>instant := instant t - instant t mod d\<rparr>)"

section \<open>The record types (internal/models)\<close>

record JournalEntry =
  je_ID :: UUID
  je_Sections :: "string \<rightharpoonup> string"
  je_CreatedAt :: Time
  je_FilePath :: string
  je_Type :: string

record SocialPost =
  sp_ID :: UUID
  sp_AuthorName :: string
  sp_Content :: string
  sp_Tags :: "string list"
  sp_CreatedAt :: Time
  sp_ParentPostID :: "UUID option"
  sp_Synced :: bool

definition ValidSections :: "string list" where
  "ValidSections =
     [''feelings'', ''project_notes'', ''user_context'', ''technical_insights'',
      ''world_knowledge'']"

text \<open>\<open>SectionTitle\<close>: the parts between underscores, each with its first byte in
  upper case, joined by spaces.\<close>

definition SectionTitle :: "string \<Rightarrow> string" where
  "SectionTitle name =
     JoinStrings
       (map (\<lambda>part. if length part > 0 then ToUpper1 (hd part) @ tl part else part)
          (Split (CHR ''_'') name))
       '' ''"

section \<open>What the stores take from outside the repository\<close>

text \<open>The frontmatter structs of the two stores.\<close>

record journalFrontmatter =
  jfm_ID :: string
  jfm_Date :: string
  jfm_Type :: string

record socialFrontmatter =
  sfm_ID :: string
  sfm_Author :: string
  sfm_Tags :: "string list"
  sfm_CreatedAt :: string
  sfm_ParentPostID :: string
  sfm_Synced :: bool

text \<open>
  The packages \<^verbatim>\<open>mdstore\<close>, \<^verbatim>\<open>yaml.v3\<close> and \<^verbatim>\<open>uuid\<close> are not part of the repository,
  and the order \<^verbatim>\<open>sort.Slice\<close> gives to equal keys is not specified.  The stores take
  them as parameters, one field each; a theorem that needs more of them than their
  types says so in a hypothesis.
  \<^item> \<open>ParseFrontmatter\<close> splits a file into its YAML block and its body; the block is
    empty when the file has none.
  \<^item> \<open>RenderJournal\<close> and \<open>RenderSocial\<close> are \<^verbatim>\<open>mdstore.RenderFrontmatter\<close> on the two
    structs (\<open>None\<close>: it returned an error); \<open>UnmarshalJournal\<close> and \<open>UnmarshalSocial\<close>
    are \<^verbatim>\<open>yaml.Unmarshal\<close> into them.
  \<^item> \<open>uuid_Parse\<close> is \<^verbatim>\<open>uuid.Parse\<close>; \<open>FormatTime\<close> and \<open>ParseTime\<close> are \<^verbatim>\<open>mdstore\<close>'s.
  \<^item> \<open>SortEntries\<close> and \<open>SortPosts\<close> are \<^verbatim>\<open>sort.Slice\<close> with the comparison
    \<^verbatim>\<open>x[i].CreatedAt.After(x[j].CreatedAt)\<close>.
  \<^item> \<open>ToLowerUnicode\<close> is \<^verbatim>\<open>strings.Map(unicode.ToLower, s)\<close>, which is what
    \<^verbatim>\<open>strings.ToLower\<close> returns for a text that is not all ASCII: it goes by the case
    tables of Unicode.
\<close>

record libs =
  ParseFrontmatter :: "string \<Rightarrow> string \<times> string"
  RenderJournal :: "journalFrontmatter \<Rightarrow> string \<Rightarrow> string option"
  RenderSocial :: "socialFrontmatter \<Rightarrow> string \<Rightarrow> string option"
  UnmarshalJournal :: "string \<Rightarrow> journalFrontmatter option"
  UnmarshalSocial :: "string \<Rightarrow> socialFrontmatter option"
  uuid_Parse :: "string \<Rightarrow> UUID option"
  FormatTime :: "Time \<Rightarrow> string"
  ParseTime :: "string \<Rightarrow> Time option"
  SortEntries :: "JournalEntry list \<Rightarrow> JournalEntry list"
  SortPosts :: "SocialPost list \<Rightarrow> SocialPost list"
  ToLowerUnicode :: "string \<Rightarrow> string"

text \<open>What \<^verbatim>\<open>sort.Slice\<close> promises for the comparison above: the same elements, and
  none created after one that stands before it.\<close>

definition newest_first :: "('a \<Rightarrow> Time) \<Rightarrow> 'a list \<Rightarrow> bool" where
  "newest_first created xs = sorted_wrt (\<lambda>a b. \<not> After (created b) (created a)) xs"

definition sorts_entries :: "libs \<Rightarrow> bool" where
  "sorts_entries L =
     (\<forall>xs. mset (SortEntries L xs) = mset xs \<and> newest_first je_CreatedAt (SortEntries L xs))"

definition sorts_posts :: "libs \<Rightarrow> bool" where
  "sorts_posts L =
     (\<forall>xs. mset (SortPosts L xs) = mset xs \<and> newest_first sp_CreatedAt (SortPosts L xs))"

text \<open>The errors of the stores, one for each \<^verbatim>\<open>fmt.Errorf\<close> and each error passed
  on.\<close>

datatype error =
    NoFrontmatter
  | FrontmatterParse
  | InvalidUUID
  | InvalidDate
  | InvalidPath
  | OutsideRoots
  | ReadFailed oserr
  | ListFailed oserr
  | RenderFailed
  | WriteFailed oserr
  | PostNotFound string

text \<open>\<^verbatim>\<open>strings.ToLower\<close>: a text of ASCII bytes only is mapped byte by byte, any other text
  by the case tables.  \<open>SectionKey\<close> of \<^verbatim>\<open>internal/models\<close> turns a heading into the
  name of a section.\<close>

definition ToLower :: "libs \<Rightarrow> string \<Rightarrow> string" where
  "ToLower L s =
     (if list_all (\<lambda>c. (of_char c :: nat) < 128) s then map lower_byte s
      else ToLowerUnicode L s)"

definition SectionKey :: "libs \<Rightarrow> string \<Rightarrow> string" where
  "SectionKey L heading = JoinStrings (Fields (ToLower L heading)) ''_''"

section \<open>The social store (internal/storage/social_md.go)\<close>

record SocialMDStore =
  dataDir :: string

record ListPostsOptions =
  Limit :: int
  Offset :: int
  AgentFilter :: string
  TagFilter :: string
  ThreadID :: string

definition parseSocialPost :: "libs \<Rightarrow> string \<Rightarrow> error + SocialPost" where
  "parseSocialPost L content =
     (case ParseFrontmatter L content of (yamlStr, body) \<Rightarrow>
        if yamlStr = [] then Inl NoFrontmatter
        else (case UnmarshalSocial L yamlStr of
          None \<Rightarrow> Inl FrontmatterParse
        | Some fm \<Rightarrow>
            (case uuid_Parse L (sfm_ID fm) of
               None \<Rightarrow> Inl InvalidUUID
             | Some i \<Rightarrow>
                 (case ParseTime L (sfm_CreatedAt fm) of
                    None \<Rightarrow> Inl InvalidDate
                  | Some createdAt \<Rightarrow>
                      Inr \<lparr>sp_ID = i,
                           sp_AuthorName = sfm_Author fm,
                           sp_Content = TrimSpace body,
                           sp_Tags = sfm_Tags fm,
                           sp_CreatedAt = createdAt,
                           sp_ParentPostID =
                             (if sfm_ParentPostID fm \<noteq> []
                              then uuid_Parse L (sfm_ParentPostID fm) else None),
                           sp_Synced = sfm_Synced fm\<rparr>))))"

fun containsTag :: "string list \<Rightarrow> string \<Rightarrow> bool" where
  "containsTag [] tag = False"
| "containsTag (t # ts) tag = (if t = tag then True else containsTag ts tag)"

text \<open>The filters of \<open>ListPosts\<close>, in the order of the source; \<open>False\<close> is its
  \<^verbatim>\<open>continue\<close>.\<close>

definition keep_post :: "ListPostsOptions \<Rightarrow> SocialPost \<Rightarrow> bool" where
  "keep_post opts post =
     (if AgentFilter opts \<noteq> [] \<and> sp_AuthorName post \<noteq> AgentFilter opts then False
      else if TagFilter opts \<noteq> [] \<and> \<not> containsTag (sp_Tags post) (TagFilter opts) then False
      else if ThreadID opts \<noteq> [] then
        (if (case sp_ParentPostID post of
               None \<Rightarrow> True
             | Some parent \<Rightarrow> uuid_String parent \<noteq> ThreadID opts)
         then (if uuid_String (sp_ID post) \<noteq> ThreadID opts then False else True)
         else True)
      else True)"

text \<open>The inner loop of \<open>ListPosts\<close> over the files of one date directory, and the
  outer loop over the date directories: the posts they append, in order.\<close>

fun posts_of_files :: "libs \<Rightarrow> ListPostsOptions \<Rightarrow> (string \<times> node) list \<Rightarrow> SocialPost list" where
  "posts_of_files L opts [] = []"
| "posts_of_files L opts ((name, n) # files) =
     (if IsDir n \<or> \<not> HasSuffix name ''.md'' then posts_of_files L opts files
      else (case read_node n of
        Inl err \<Rightarrow> posts_of_files L opts files
      | Inr data \<Rightarrow>
          (case parseSocialPost L data of
             Inl err \<Rightarrow> posts_of_files L opts files
           | Inr post \<Rightarrow>
               if keep_post opts post then post # posts_of_files L opts files
               else posts_of_files L opts files)))"

fun posts_of_dirs :: "libs \<Rightarrow> ListPostsOptions \<Rightarrow> (string \<times> node) list \<Rightarrow> SocialPost list" where
  "posts_of_dirs L opts [] = []"
| "posts_of_dirs L opts ((name, n) # dateDirs) =
     (if \<not> IsDir n then posts_of_dirs L opts dateDirs
      else (case list_node n of
        Inl err \<Rightarrow> posts_of_dirs L opts dateDirs
      | Inr files \<Rightarrow> posts_of_files L opts files @ posts_of_dirs L opts dateDirs))"

text \<open>The pagination at the end of \<open>ListPosts\<close>.\<close>

definition paginate :: "ListPostsOptions \<Rightarrow> SocialPost list \<Rightarrow> SocialPost list" where
  "paginate opts allPosts =
     (if Offset opts > 0 \<and> Offset opts \<ge> int (length allPosts) then []
      else
        (let rest = (if Offset opts > 0 then drop (nat (Offset opts)) allPosts else allPosts);
             limit = (if Limit opts \<le> 0 then 10 else Limit opts);
             limit = (if limit > int (length rest) then int (length rest) else limit)
         in take (nat limit) rest))"

definition ListPosts ::
  "libs \<Rightarrow> env \<Rightarrow> SocialMDStore \<Rightarrow> ListPostsOptions \<Rightarrow> error + SocialPost list" where
  "ListPosts L e s opts =
     (let postsDir = Join [dataDir s, ''posts''] in
      case os_Stat e postsDir of
        Inl ENOENT \<Rightarrow> Inr []
      | _ \<Rightarrow>
        (case os_ReadDir e postsDir of
           Inl err \<Rightarrow> Inl (ListFailed err)
         | Inr dateDirs \<Rightarrow> Inr (paginate opts (SortPosts L (posts_of_dirs L opts dateDirs)))))"

text \<open>\<open>CreatePost\<close> returns the file system after the write; on an error nothing has
  changed.\<close>

definition CreatePost :: "libs \<Rightarrow> env \<Rightarrow> SocialMDStore \<Rightarrow> SocialPost \<Rightarrow> error + env" where
  "CreatePost L e s post =
     (let postsDir = Join [dataDir s, ''posts''];
          dateDir = Format (sp_CreatedAt post) ''2006-01-02'';
          timeStr = Format (sp_CreatedAt post) ''15-04-05-000000'';
          shortID = take 8 (uuid_String (sp_ID post));
          filename = timeStr @ ''-'' @ shortID @ ''.md'';
          dir = Join [postsDir, dateDir];
          path = Join [dir, filename];
          fm = \<lparr>sfm_ID = uuid_String (sp_ID post),
                sfm_Author = sp_AuthorName post,
                sfm_Tags = sp_Tags post,
                sfm_CreatedAt = FormatTime L (sp_CreatedAt post),
                sfm_ParentPostID =
                  (case sp_ParentPostID post of None \<Rightarrow> [] | Some parent \<Rightarrow> uuid_String parent),
                sfm_Synced = sp_Synced post\<rparr>
      in case RenderSocial L fm (sp_Content post @ [NL]) of
           None \<Rightarrow> Inl RenderFailed
         | Some content \<Rightarrow>
             (case AtomicWrite e path content of
                Inl err \<Rightarrow> Inl (WriteFailed err)
              | Inr e' \<Rightarrow> Inr e'))"

text \<open>
  \<^verbatim>\<open>filepath.Walk\<close>: the paths in the order the walk hands them to its function, a
  directory before its entries and the entries in the order of the listing.  A
  directory that cannot be listed is handed over with the error and not entered.
\<close>

function walk :: "string \<Rightarrow> node \<Rightarrow> (string \<times> node) list"
  and walk_names :: "string \<Rightarrow> (string \<times> node) list \<Rightarrow> (string \<times> node) list" where
  "walk path (File d) = [(path, File d)]"
| "walk path LockedFile = [(path, LockedFile)]"
| "walk path LockedDir = [(path, LockedDir)]"
| "walk path (Dir es) = (path, Dir es) # walk_names path es"
| "walk_names path [] = []"
| "walk_names path ((name, n) # es) = walk (Join [path, name]) n @ walk_names path es"
  by pat_completeness auto
termination
  by (relation "measure (\<lambda>x. case x of
                  Inl (path, n) \<Rightarrow> size n
                | Inr (path, es) \<Rightarrow> size_list (size_prod (\<lambda>x. 0) size) es)")
     auto




section \<open>The journal store (internal/storage/journal_md.go)\<close>

record JournalMDStore =
  projectPath :: string
  userPath :: string

text \<open>\<open>renderSections\<close>: the loop over \<open>ValidSections\<close>; a name that is not a key of
  the map, or that has the empty text, is passed over.\<close>

fun render_names :: "(string \<rightharpoonup> string) \<Rightarrow> string list \<Rightarrow> string" where
  "render_names sections [] = []"
| "render_names sections (name # names) =
     (case sections name of
        None \<Rightarrow> render_names sections names
      | Some content \<Rightarrow>
          if content = [] then render_names sections names
          else (NL # ''## '' @ SectionTitle name @ [NL] @ content @ [NL])
                 @ render_names sections names)"

definition renderSections :: "(string \<rightharpoonup> string) \<Rightarrow> string" where
  "renderSections sections = render_names sections ValidSections"

text \<open>\<open>parseSections\<close>: the loop over the lines, with the map built so far, the
  current section and its content as the state.\<close>

fun parse_lines ::
  "libs \<Rightarrow> string list \<Rightarrow> (string \<rightharpoonup> string) \<times> string \<times> string
     \<Rightarrow> (string \<rightharpoonup> string) \<times> string \<times> string"
  where
  "parse_lines L [] st = st"
| "parse_lines L (line # lines) (sections, currentSection, currentContent) =
     (if HasPrefix line ''## '' then
        parse_lines L lines
          (if currentSection \<noteq> []
           then sections(currentSection \<mapsto> TrimSpace currentContent) else sections,
           SectionKey L (TrimPrefix line ''## ''),
           [])
      else if currentSection \<noteq> [] then
        parse_lines L lines (sections, currentSection, currentContent @ line @ [NL])
      else parse_lines L lines (sections, currentSection, currentContent))"

definition parseSections :: "libs \<Rightarrow> string \<Rightarrow> (string \<rightharpoonup> string)" where
  "parseSections L body =
     (case parse_lines L (Split NL body) (Map.empty, [], []) of
        (sections, currentSection, currentContent) \<Rightarrow>
          if currentSection \<noteq> []
          then sections(currentSection \<mapsto> TrimSpace currentContent) else sections)"

definition parseJournalEntry :: "libs \<Rightarrow> string \<Rightarrow> string \<Rightarrow> error + JournalEntry" where
  "parseJournalEntry L path content =
     (case ParseFrontmatter L content of (yamlStr, body) \<Rightarrow>
        if yamlStr = [] then Inl NoFrontmatter
        else (case UnmarshalJournal L yamlStr of
          None \<Rightarrow> Inl FrontmatterParse
        | Some fm \<Rightarrow>
            (case uuid_Parse L (jfm_ID fm) of
               None \<Rightarrow> Inl InvalidUUID
             | Some i \<Rightarrow>
                 (case ParseTime L (jfm_Date fm) of
                    None \<Rightarrow> Inl InvalidDate
                  | Some createdAt \<Rightarrow>
                      Inr \<lparr>je_ID = i,
                           je_Sections = parseSections L body,
                           je_CreatedAt = createdAt,
                           je_FilePath = path,
                           je_Type = jfm_Type fm\<rparr>))))"

text \<open>\<open>WriteEntry\<close> returns the file system after the write and the entry with its
  \<open>FilePath\<close> set; on an error nothing has changed.\<close>

definition WriteEntry ::
  "libs \<Rightarrow> env \<Rightarrow> JournalMDStore \<Rightarrow> JournalEntry \<Rightarrow> error + env \<times> JournalEntry" where
  "WriteEntry L e s entry =
     (let root = (if je_Type entry = ''project'' then projectPath s else userPath s);
          dateDir = Format (je_CreatedAt entry) ''2006-01-02'';
          timeStr = Format (je_CreatedAt entry) ''15-04-05-000000'';
          shortID = take 8 (uuid_String (je_ID entry));
          filename = timeStr @ ''-'' @ shortID @ ''.md'';
          dir = Join [root, dateDir];
          path = Join [dir, filename];
          fm = \<lparr>jfm_ID = uuid_String (je_ID entry),
                jfm_Date = FormatTime L (je_CreatedAt entry),
                jfm_Type = je_Type entry\<rparr>;
          body = renderSections (je_Sections entry)
      in case RenderJournal L fm body of
           None \<Rightarrow> Inl RenderFailed
         | Some content \<Rightarrow>
             (case AtomicWrite e path content of
                Inl err \<Rightarrow> Inl (WriteFailed err)
              | Inr e' \<Rightarrow> Inr (e', entry\<lparr>je_FilePath := path\<rparr>)))"

definition ReadEntry :: "libs \<Rightarrow> env \<Rightarrow> JournalMDStore \<Rightarrow> string \<Rightarrow> error + JournalEntry" where
  "ReadEntry L e s path =
     (case Abs (cwd e) path of
        None \<Rightarrow> Inl InvalidPath
      | Some absPath \<Rightarrow>
          (let absProject = (case Abs (cwd e) (projectPath s) of None \<Rightarrow> [] | Some p \<Rightarrow> p);
               absUser = (case Abs (cwd e) (userPath s) of None \<Rightarrow> [] | Some p \<Rightarrow> p)
           in if \<not> HasPrefix absPath (absProject @ ''/'') \<and>
                 \<not> HasPrefix absPath (absUser @ ''/'')
              then Inl OutsideRoots
              else (case os_ReadFile e absPath of
                Inl err \<Rightarrow> Inl (ReadFailed err)
              | Inr data \<Rightarrow> parseJournalEntry L absPath data)))"

text \<open>\<open>listEntriesInRoot\<close>: the check of a date directory against the cutoff, the
  inner loop over the files of a date directory and the outer loop over the date
  directories.\<close>

definition pruned :: "Time \<Rightarrow> string \<Rightarrow> bool" where
  "pruned cutoff name =
     (if \<not> IsZero cutoff then
        (case Parse_date name of
           None \<Rightarrow> True
         | Some dirDate \<Rightarrow> Before dirDate (Truncate cutoff ns_per_day))
      else False)"

fun entries_of_files :: "libs \<Rightarrow> string \<Rightarrow> (string \<times> node) list \<Rightarrow> JournalEntry list" where
  "entries_of_files L dirPath [] = []"
| "entries_of_files L dirPath ((name, n) # files) =
     (if IsDir n \<or> \<not> HasSuffix name ''.md'' then entries_of_files L dirPath files
      else (case read_node n of
        Inl err \<Rightarrow> entries_of_files L dirPath files
      | Inr data \<Rightarrow>
          (case parseJournalEntry L (Join [dirPath, name]) data of
             Inl err \<Rightarrow> entries_of_files L dirPath files
           | Inr entry \<Rightarrow> entry # entries_of_files L dirPath files)))"

fun entries_of_dirs ::
  "libs \<Rightarrow> string \<Rightarrow> Time \<Rightarrow> (string \<times> node) list \<Rightarrow> JournalEntry list" where
  "entries_of_dirs L root cutoff [] = []"
| "entries_of_dirs L root cutoff ((name, n) # dateDirs) =
     (if \<not> IsDir n then entries_of_dirs L root cutoff dateDirs
      else if pruned cutoff name then entries_of_dirs L root cutoff dateDirs
      else (case list_node n of
        Inl err \<Rightarrow> entries_of_dirs L root cutoff dateDirs
      | Inr files \<Rightarrow>
          entries_of_files L (Join [root, name]) files
            @ entries_of_dirs L root cutoff dateDirs))"

definition listEntriesInRoot ::
  "libs \<Rightarrow> env \<Rightarrow> string \<Rightarrow> Time \<Rightarrow> oserr + JournalEntry list" where
  "listEntriesInRoot L e root cutoff =
     (case os_Stat e root of
        Inl ENOENT \<Rightarrow> Inr []
      | _ \<Rightarrow>
        (case os_ReadDir e root of
           Inl err \<Rightarrow> Inl err
         | Inr dateDirs \<Rightarrow> Inr (entries_of_dirs L root cutoff dateDirs)))"

text \<open>\<open>ListEntries\<close>: the roots the type selects, the loop over them, the sort and
  the limit.\<close>

definition select_roots :: "JournalMDStore \<Rightarrow> string \<Rightarrow> (string \<times> string) list" where
  "select_roots s entryType =
     (if entryType = ''both'' \<or> entryType = ''user'' \<or> entryType = []
      then [(userPath s, ''user'')] else [])
     @ (if entryType = ''both'' \<or> entryType = ''project'' \<or> entryType = []
        then [(projectPath s, ''project'')] else [])"

fun entries_of_roots ::
  "libs \<Rightarrow> env \<Rightarrow> Time \<Rightarrow> (string \<times> string) list \<Rightarrow> error + JournalEntry list" where
  "entries_of_roots L e cutoff [] = Inr []"
| "entries_of_roots L e cutoff ((path, fileType) # roots) =
     (case listEntriesInRoot L e path cutoff of
        Inl err \<Rightarrow> Inl (ListFailed err)
      | Inr rootEntries \<Rightarrow>
          (case entries_of_roots L e cutoff roots of
             Inl err \<Rightarrow> Inl err
           | Inr rest \<Rightarrow> Inr (rootEntries @ rest)))"

definition ListEntries ::
  "libs \<Rightarrow> env \<Rightarrow> JournalMDStore \<Rightarrow> string \<Rightarrow> int \<Rightarrow> int \<Rightarrow> error + JournalEntry list" where
  "ListEntries L e s entryType limit days =
     (let cutoff = (if days > 0 then AddDate e (now e) (- days) else zero_Time) in
      case entries_of_roots L e cutoff (select_roots s entryType) of
        Inl err \<Rightarrow> Inl err
      | Inr entries \<Rightarrow>
          (let entries = SortEntries L entries in
           Inr (if limit > 0 \<and> int (length entries) > limit
                then take (nat limit) entries else entries)))"

section \<open>The words of the claims\<close>

text \<open>The options that filter nothing, and what the thread filter is said to keep:
  the post with the identifier itself and the posts that name it as their parent.\<close>

definition no_filter :: ListPostsOptions where
  "no_filter = \<lparr>Limit = 0, Offset = 0, AgentFilter = [], TagFilter = [], ThreadID = []\<rparr>"

definition in_thread :: "string \<Rightarrow> SocialPost \<Rightarrow> bool" where
  "in_thread threadID post =
     (uuid_String (sp_ID post) = threadID \<or>
      (case sp_ParentPostID post of None \<Rightarrow> False | Some parent \<Rightarrow> uuid_String parent = threadID))"

text \<open>The date directories of a root (none when the root cannot be listed), and all
  the entries that decode below a root: one for each file with a name on \<open>.md\<close> in a
  directory of the root whose content \<open>parseJournalEntry\<close> accepts.\<close>

definition root_dirs :: "env \<Rightarrow> string \<Rightarrow> (string \<times> node) list" where
  "root_dirs e root = (case os_ReadDir e root of Inl err \<Rightarrow> [] | Inr ds \<Rightarrow> ds)"

definition decodable_entries :: "libs \<Rightarrow> string \<Rightarrow> (string \<times> node) list \<Rightarrow> JournalEntry list" where
  "decodable_entries L root ds =
     [entry. (name, Dir files) \<leftarrow> ds, (f, File data) \<leftarrow> files, HasSuffix f ''.md'',
             Inr entry \<leftarrow> [parseJournalEntry L (Join [Join [root, name], f]) data]]"

text \<open>The day of an instant, counted in UTC from January 1 of year 1.\<close>

definition utc_day :: "Time \<Rightarrow> int" where
  "utc_day t = instant t div ns_per_day"

text \<open>The entries of one directory of a root.\<close>

definition bucket_entries :: "libs \<Rightarrow> string \<Rightarrow> string \<times> node \<Rightarrow> JournalEntry list" where
  "bucket_entries L root b =
     (case list_node (snd b) of
        Inl err \<Rightarrow> []
      | Inr files \<Rightarrow> entries_of_files L (Join [root, fst b]) files)"

text \<open>
  The elements of the absolute resolution of a path (\<open>..\<close> and \<open>.\<close> resolved), and a
  path that lies strictly inside a root: the elements of the root are the first
  elements of the path, and the path has more.
\<close>

definition resolution :: "env \<Rightarrow> string \<Rightarrow> string list option" where
  "resolution e p = map_option path_elems (Abs (cwd e) p)"

definition strictly_inside :: "env \<Rightarrow> string \<Rightarrow> string \<Rightarrow> bool" where
  "strictly_inside e root p =
     (case (resolution e root, resolution e p) of
        (Some r, Some q) \<Rightarrow> strict_prefix r q
      | _ \<Rightarrow> False)"

text \<open>An element of a path: not empty, and without a separator.\<close>

definition elem_ok :: "string \<Rightarrow> bool" where
  "elem_ok s = (s \<noteq> [] \<and> CHR ''/'' \<notin> set s)"

text \<open>The rooted path of a list of elements, and the elements with a separator before
  each.\<close>

definition rooted :: "string list \<Rightarrow> string" where
  "rooted es = CHR ''/'' # JoinStrings es ''/''"

definition slashed :: "string list \<Rightarrow> string" where
  "slashed es = concat (map (\<lambda>s. CHR ''/'' # s) es)"

text \<open>
  An element that \<^verbatim>\<open>filepath.Clean\<close> keeps where it stands, and the elements of
  \<^verbatim>\<open>filepath.Abs\<close> of a path under the working directory \<open>w\<close>.
\<close>

definition proper :: "string \<Rightarrow> bool" where
  "proper s = (s \<noteq> [] \<and> s \<noteq> ''.'' \<and> s \<noteq> ''..'' \<and> CHR ''/'' \<notin> set s)"

definition abs_elems :: "string \<Rightarrow> string \<Rightarrow> string list" where
  "abs_elems w p =
     rev (foldl (clean_step True) []
           (if IsAbs p then Split (CHR ''/'') p else Split (CHR ''/'') w @ Split (CHR ''/'') p))"

text \<open>
  A section text that the markdown body keeps as it is: not empty, without white
  space at its ends, and with no line that begins a section.  \<open>finish\<close> is the end
  of \<open>parseSections\<close>, which saves the section being read.
\<close>

definition plain :: "string \<Rightarrow> bool" where
  "plain v = (v \<noteq> [] \<and> TrimSpace v = v \<and>
              list_all (\<lambda>line. \<not> HasPrefix line ''## '') (Split NL v))"

definition finish :: "(string \<rightharpoonup> string) \<times> string \<times> string \<Rightarrow> (string \<rightharpoonup> string)" where
  "finish st =
     (case st of (sections, currentSection, currentContent) \<Rightarrow>
        if currentSection \<noteq> []
        then sections(currentSection \<mapsto> TrimSpace currentContent) else sections)"

text \<open>
  Reading an entry back from where \<open>WriteEntry\<close> has put it.  \<open>frontmatter_of\<close> is the
  first part of \<open>parseJournalEntry\<close>: the frontmatter struct and the body of a file.
  \<open>codec_agrees\<close> says of the packages outside the repository what the round trip of an
  entry needs from them: the file rendered from the entry's frontmatter and body splits
  into the two again, and the identifier and the time are read back as they were
  written.
\<close>

definition write_then_read ::
  "libs \<Rightarrow> env \<Rightarrow> JournalMDStore \<Rightarrow> JournalEntry \<Rightarrow> error + JournalEntry" where
  "write_then_read L e s entry =
     (case WriteEntry L e s entry of
        Inl err \<Rightarrow> Inl err
      | Inr (e', entry') \<Rightarrow> ReadEntry L e' s (je_FilePath entry'))"

definition frontmatter_of :: "libs \<Rightarrow> string \<Rightarrow> (journalFrontmatter \<times> string) option" where
  "frontmatter_of L content =
     (case ParseFrontmatter L content of (yamlStr, body) \<Rightarrow>
        if yamlStr = [] then None
        else map_option (\<lambda>fm. (fm, body)) (UnmarshalJournal L yamlStr))"

definition codec_agrees :: "libs \<Rightarrow> JournalEntry \<Rightarrow> bool" where
  "codec_agrees L entry =
     (let fm = \<lparr>jfm_ID = uuid_String (je_ID entry),
                jfm_Date = FormatTime L (je_CreatedAt entry),
                jfm_Type = je_Type entry\<rparr>;
          body = renderSections (je_Sections entry)
      in (case RenderJournal L fm body of
            None \<Rightarrow> True
          | Some content \<Rightarrow> frontmatter_of L content = Some (fm, body))
         \<and> uuid_Parse L (jfm_ID fm) = Some (je_ID entry)
         \<and> ParseTime L (jfm_Date fm) = Some (je_CreatedAt entry))"






definition thread_opts :: "string \<Rightarrow> ListPostsOptions" where
  "thread_opts threadID = no_filter\<lparr>ThreadID := threadID\<rparr>"

section \<open>A concrete instance of the parameters\<close>

text \<open>
  To run the stores on concrete inputs the parameters need values.  This instance
  writes a file as a first line \<open>---\<close>, one line \<open>key: value\<close> for each field, a line
  \<open>---\<close> and the body; it reads an identifier in its canonical form of 36
  characters, writes a time as its two numbers, sorts by insertion with the newest
  first, so that records of one instant keep their order, as \<^verbatim>\<open>sort.Slice\<close> does with
  the short lists of the samples, and leaves the case of a text beyond ASCII as it is.
\<close>

definition ref_ParseFrontmatter :: "string \<Rightarrow> string \<times> string" where
  "ref_ParseFrontmatter content =
     (let ls = Split NL content in
      if hd ls = ''---'' \<and> ''---'' \<in> set (tl ls)
      then (concat (map (\<lambda>l. l @ [NL]) (takeWhile (\<lambda>l. l \<noteq> ''---'') (tl ls))),
            JoinStrings (tl (dropWhile (\<lambda>l. l \<noteq> ''---'') (tl ls))) [NL])
      else ([], content))"

definition yaml_field :: "string \<Rightarrow> string list \<Rightarrow> string" where
  "yaml_field key ls =
     (case find (\<lambda>l. HasPrefix l (key @ '': '')) ls of
        None \<Rightarrow> []
      | Some l \<Rightarrow> drop (length key + 2) l)"

definition yaml_lines :: "string \<Rightarrow> string list option" where
  "yaml_lines y =
     (let ls = Split NL y in
      if list_all (\<lambda>l. l = [] \<or> CHR '':'' \<in> set l) ls then Some ls else None)"

definition ref_UnmarshalJournal :: "string \<Rightarrow> journalFrontmatter option" where
  "ref_UnmarshalJournal y =
     map_option
       (\<lambda>ls. \<lparr>jfm_ID = yaml_field ''id'' ls, jfm_Date = yaml_field ''date'' ls,
              jfm_Type = yaml_field ''type'' ls\<rparr>)
       (yaml_lines y)"

definition ref_UnmarshalSocial :: "string \<Rightarrow> socialFrontmatter option" where
  "ref_UnmarshalSocial y =
     map_option
       (\<lambda>ls. \<lparr>sfm_ID = yaml_field ''id'' ls,
              sfm_Author = yaml_field ''author'' ls,
              sfm_Tags =
                (if yaml_field ''tags'' ls = [] then []
                 else Split (CHR '','') (yaml_field ''tags'' ls)),
              sfm_CreatedAt = yaml_field ''created_at'' ls,
              sfm_ParentPostID = yaml_field ''parent_post_id'' ls,
              sfm_Synced = (yaml_field ''synced'' ls = ''true'')\<rparr>)
       (yaml_lines y)"

definition ref_RenderJournal :: "journalFrontmatter \<Rightarrow> string \<Rightarrow> string option" where
  "ref_RenderJournal fm body =
     Some (''---'' @ [NL] @ ''id: '' @ jfm_ID fm @ [NL] @ ''date: '' @ jfm_Date fm @ [NL]
           @ ''type: '' @ jfm_Type fm @ [NL] @ ''---'' @ [NL] @ body)"

definition ref_RenderSocial :: "socialFrontmatter \<Rightarrow> string \<Rightarrow> string option" where
  "ref_RenderSocial fm body =
     Some (''---'' @ [NL] @ ''id: '' @ sfm_ID fm @ [NL] @ ''author: '' @ sfm_Author fm @ [NL]
           @ (if sfm_Tags fm = [] then []
              else ''tags: '' @ JoinStrings (sfm_Tags fm) '','' @ [NL])
           @ ''created_at: '' @ sfm_CreatedAt fm @ [NL]
           @ (if sfm_ParentPostID fm = [] then []
              else ''parent_post_id: '' @ sfm_ParentPostID fm @ [NL])
           @ ''synced: '' @ (if sfm_Synced fm then ''true'' else ''false'') @ [NL]
           @ ''---'' @ [NL] @ body)"

definition hex_value :: "char \<Rightarrow> nat option" where
  "hex_value c =
     (let n = of_char c :: nat in
      if 48 \<le> n \<and> n \<le> 57 then Some (n - 48)
      else if 97 \<le> n \<and> n \<le> 102 then Some (n - 87)
      else if 65 \<le> n \<and> n \<le> 70 then Some (n - 55)
      else None)"

definition ref_uuid_Parse :: "string \<Rightarrow> UUID option" where
  "ref_uuid_Parse s =
     (if length s = 36 \<and> s ! 8 = CHR ''-'' \<and> s ! 13 = CHR ''-'' \<and> s ! 18 = CHR ''-'' \<and>
         s ! 23 = CHR ''-''
      then
        (let ds = map hex_value
                    (take 8 s @ take 4 (drop 9 s) @ take 4 (drop 14 s) @ take 4 (drop 19 s)
                     @ drop 24 s)
         in if None \<in> set ds then None
            else Some (word_of_nat (foldl (\<lambda>a d. 16 * a + the d) 0 ds)))
      else None)"

definition read_int :: "string \<Rightarrow> int option" where
  "read_int s =
     (if s \<noteq> [] \<and> list_all is_digit s then Some (atoi s)
      else if length s > 1 \<and> hd s = CHR ''-'' \<and> list_all is_digit (tl s)
      then Some (- atoi (tl s))
      else None)"

definition ref_FormatTime :: "Time \<Rightarrow> string" where
  "ref_FormatTime t = appendInt (instant t) 0 @ '' '' @ appendInt (zone t) 0"

definition ref_ParseTime :: "string \<Rightarrow> Time option" where
  "ref_ParseTime s =
     (case map read_int (Split (CHR '' '') s) of
        [Some i, Some z] \<Rightarrow> Some \<lparr>instant = i, zone = z\<rparr>
      | _ \<Rightarrow> None)"

definition ref_SortEntries :: "JournalEntry list \<Rightarrow> JournalEntry list" where
  "ref_SortEntries xs = sort_key (\<lambda>x. - instant (je_CreatedAt x)) xs"

definition ref_SortPosts :: "SocialPost list \<Rightarrow> SocialPost list" where
  "ref_SortPosts xs = sort_key (\<lambda>x. - instant (sp_CreatedAt x)) xs"

definition ref_ToLowerUnicode :: "string \<Rightarrow> string" where
  "ref_ToLowerUnicode s = s"

definition ref_libs :: libs where
  "ref_libs =
     \<lparr>ParseFrontmatter = ref_ParseFrontmatter,
      RenderJournal = ref_RenderJournal,
      RenderSocial = ref_RenderSocial,
      UnmarshalJournal = ref_UnmarshalJournal,
      UnmarshalSocial = ref_UnmarshalSocial,
      uuid_Parse = ref_uuid_Parse,
      FormatTime = ref_FormatTime,
      ParseTime = ref_ParseTime,
      SortEntries = ref_SortEntries,
      SortPosts = ref_SortPosts,
      ToLowerUnicode = ref_ToLowerUnicode\<rparr>"

section \<open>Sample inputs\<close>

text \<open>A journal with two roots and a social store below \<open>/w\<close>, written in the
  format of the instance above, at noon of January 3, 2024 (UTC).\<close>

definition unlines :: "string list \<Rightarrow> string" where
  "unlines ls = concat (map (\<lambda>l. l @ [NL]) ls)"

definition time_a :: Time where
  "time_a = \<lparr>instant = 63839761445123456789, zone = 0\<rparr>"

definition time_old :: Time where
  "time_old = \<lparr>instant = 63839095200000000000, zone = 0\<rparr>"

definition time_now :: Time where
  "time_now = \<lparr>instant = 63839880000000000000, zone = 0\<rparr>"

definition id_a :: UUID where
  "id_a = 0xa1b2c3d4000000000000000000000001"

definition id_b :: UUID where
  "id_b = 0xa1b2c3d4000000000000000000000002"

definition id_c :: UUID where
  "id_c = 0xa1b2c3d4000000000000000000000003"

definition id_d :: UUID where
  "id_d = 0xa1b2c3d4000000000000000000000004"

definition journal_file :: "string \<Rightarrow> string \<Rightarrow> string \<Rightarrow> string \<Rightarrow> string" where
  "journal_file i date type text =
     unlines [''---'', ''id: '' @ i, ''date: '' @ date, ''type: '' @ type, ''---'', [],
              ''## Feelings'', text]"

definition post_file :: "string \<Rightarrow> string \<Rightarrow> string \<Rightarrow> string \<Rightarrow> string" where
  "post_file i date parent text =
     unlines ([''---'', ''id: '' @ i, ''author: gecko'', ''created_at: '' @ date]
              @ (if parent = [] then [] else [''parent_post_id: '' @ parent])
              @ [''synced: false'', ''---'', text])"

definition sample_store :: JournalMDStore where
  "sample_store = \<lparr>projectPath = ''/w/proj'', userPath = ''/w/user''\<rparr>"

definition sample_social :: SocialMDStore where
  "sample_social = \<lparr>dataDir = ''/w/social''\<rparr>"


definition jfile_old :: string where
  "jfile_old = journal_file ''a1b2c3d4-0000-0000-0000-000000000002''
                 ''63839095200000000000 0'' ''user'' ''old''"

definition jfile_a :: string where
  "jfile_a = journal_file ''a1b2c3d4-0000-0000-0000-000000000001''
               ''63839761445123456789 0'' ''user'' ''fine''"

definition jfile_n :: string where
  "jfile_n = journal_file ''a1b2c3d4-0000-0000-0000-000000000003''
               ''63839761445123456789 0'' ''user'' ''note''"

definition jfile_p :: string where
  "jfile_p = journal_file ''a1b2c3d4-0000-0000-0000-000000000004''
               ''63839761445123456789 0'' ''project'' ''build''"

definition entry_old :: JournalEntry where
  "entry_old = \<lparr>je_ID = id_b, je_Sections = [''feelings'' \<mapsto> ''old''],
                 je_CreatedAt = time_old,
                 je_FilePath = ''/w/user/2023-12-25/10-00-00-000000-a1b2c3d4.md'',
                 je_Type = ''user''\<rparr>"

definition entry_a :: JournalEntry where
  "entry_a = \<lparr>je_ID = id_a, je_Sections = [''feelings'' \<mapsto> ''fine''],
               je_CreatedAt = time_a,
               je_FilePath = ''/w/user/2024-01-02/03-04-05-000000-a1b2c3d4.md'',
               je_Type = ''user''\<rparr>"

definition entry_n :: JournalEntry where
  "entry_n = \<lparr>je_ID = id_c, je_Sections = [''feelings'' \<mapsto> ''note''],
               je_CreatedAt = time_a,
               je_FilePath = ''/w/user/notes/n.md'',
               je_Type = ''user''\<rparr>"

definition entry_p :: JournalEntry where
  "entry_p = \<lparr>je_ID = id_d, je_Sections = [''feelings'' \<mapsto> ''build''],
               je_CreatedAt = time_a,
               je_FilePath = ''/w/proj/2024-01-02/03-04-05-000000-a1b2c3d4.md'',
               je_Type = ''project''\<rparr>"

definition user_dirs :: "(string \<times> node) list" where
  "user_dirs =
     [(''2023-12-25'', Dir [(''10-00-00-000000-a1b2c3d4.md'', File jfile_old)]),
      (''2024-01-02'',
        Dir [(''03-04-05-000000-a1b2c3d4.md'', File jfile_a),
             (''broken.md'', File ''no frontmatter here'')]),
      (''notes'', Dir [(''n.md'', File jfile_n)])]"

definition project_dirs :: "(string \<times> node) list" where
  "project_dirs =
     [(''2024-01-02'', Dir [(''03-04-05-000000-a1b2c3d4.md'', File jfile_p)])]"

definition sample_user_root :: node where
  "sample_user_root = Dir user_dirs"

definition sample_project_root :: node where
  "sample_project_root = Dir project_dirs"

definition file_a :: string where
  "file_a = post_file ''a1b2c3d4-0000-0000-0000-000000000001'' ''63839095200000000000 0'' []
              ''root post''"

definition file_b :: string where
  "file_b = post_file ''a1b2c3d4-0000-0000-0000-000000000002'' ''63839761445123456789 0''
              ''a1b2c3d4-0000-0000-0000-000000000001'' ''a reply''"

definition file_c :: string where
  "file_c = post_file ''a1b2c3d4-0000-0000-0000-000000000003'' ''63839761445123456789 0'' []
              ''unrelated''"

definition file_d :: string where
  "file_d = post_file ''a1b2c3d4-0000-0000-0000-000000000004'' ''63839761445123456789 0''
              ''not-a-uuid'' ''odd parent''"

definition post_a :: SocialPost where
  "post_a = \<lparr>sp_ID = id_a, sp_AuthorName = ''gecko'', sp_Content = ''root post'',
              sp_Tags = [], sp_CreatedAt = time_old, sp_ParentPostID = None,
              sp_Synced = False\<rparr>"

definition post_b :: SocialPost where
  "post_b = \<lparr>sp_ID = id_b, sp_AuthorName = ''gecko'', sp_Content = ''a reply'',
              sp_Tags = [], sp_CreatedAt = time_a, sp_ParentPostID = Some id_a,
              sp_Synced = False\<rparr>"

definition post_c :: SocialPost where
  "post_c = \<lparr>sp_ID = id_c, sp_AuthorName = ''gecko'', sp_Content = ''unrelated'',
              sp_Tags = [], sp_CreatedAt = time_a, sp_ParentPostID = None,
              sp_Synced = False\<rparr>"

definition post_d :: SocialPost where
  "post_d = \<lparr>sp_ID = id_d, sp_AuthorName = ''gecko'', sp_Content = ''odd parent'',
              sp_Tags = [], sp_CreatedAt = time_a, sp_ParentPostID = None,
              sp_Synced = False\<rparr>"

definition sample_dirs :: "(string \<times> node) list" where
  "sample_dirs =
     [(''2024-01-02'',
        Dir [(''a.md'', File file_a), (''b.md'', File file_b), (''c.md'', File file_c),
             (''d.md'', File file_d), (''readme.txt'', File ''posts of January 2'')])]"

definition sample_posts :: node where
  "sample_posts = Dir sample_dirs"

text \<open>The calendar of the sample environments: their zone is UTC and the numbers are
  small, so \<^verbatim>\<open>t.AddDate(0, 0, days)\<close> is \<open>days\<close> times 24 hours later.\<close>

definition AddDays :: "Time \<Rightarrow> int \<Rightarrow> Time" where
  "AddDays t days = t\<lparr>instant := instant t + days * ns_per_day\<rparr>"

definition sample_env :: env where
  "sample_env =
     \<lparr>fs = Dir [(''w'', Dir [(''user'', sample_user_root),
                             (''proj'', sample_project_root),
                             (''social'', Dir [(''posts'', sample_posts)])])],
      cwd = Some ''/w'',
      now = time_now,
      AddDate = AddDays\<rparr>"

definition entry_w :: JournalEntry where
  "entry_w = \<lparr>je_ID = id_a, je_Sections = [''feelings'' \<mapsto> ''fine''],
               je_CreatedAt = time_a, je_FilePath = [], je_Type = ''user''\<rparr>"

definition post_w :: SocialPost where
  "post_w = \<lparr>sp_ID = id_a, sp_AuthorName = ''gecko'', sp_Content = ''root post'',
              sp_Tags = [], sp_CreatedAt = time_a, sp_ParentPostID = None,
              sp_Synced = False\<rparr>"

definition empty_env :: env where
  "empty_env = \<lparr>fs = Dir [], cwd = Some ''/w'', now = time_now, AddDate = AddDays\<rparr>"

text \<open>The sample without a working directory, a store whose roots are the root of
  the file system, and a store with relative roots.\<close>

definition env_nowd :: env where
  "env_nowd = sample_env\<lparr>cwd := None\<rparr>"

definition root_store :: JournalMDStore where
  "root_store = \<lparr>projectPath = ''/'', userPath = ''/''\<rparr>"

definition rel_store :: JournalMDStore where
  "rel_store = \<lparr>projectPath = ''journal'', userPath = ''notes''\<rparr>"

definition path_a :: string where
  "path_a = ''/w/user/2024-01-02/03-04-05-000000-a1b2c3d4.md''"

text \<open>Entries whose text begins with a space, or has a line that reads as a heading,
  and the file system after \<open>entry_w\<close> has been written to the empty one.\<close>

definition entry_sp :: JournalEntry where
  "entry_sp = entry_w\<lparr>je_Sections := [''feelings'' \<mapsto> '' fine'']\<rparr>"

definition entry_hd :: JournalEntry where
  "entry_hd = entry_w\<lparr>je_Sections := [''feelings'' \<mapsto> ''a'' @ [NL] @ ''## b'' @ [NL] @ ''c'']\<rparr>"

definition written_env :: env where
  "written_env =
     empty_env\<lparr>fs := fresh [''w'', ''user'', ''2024-01-02'', ''03-04-05-000000-a1b2c3d4.md'']
                        jfile_a\<rparr>"


chapter \<open>Properties\<close>

section \<open>The instance keeps the promises of the library\<close>

lemma newest_first_sort:
  "newest_first created (sort_key (\<lambda>x. - instant (created x)) xs)"
proof -
  have "sorted (map (\<lambda>x. - instant (created x)) (sort_key (\<lambda>x. - instant (created x)) xs))"
    by simp
  then have "sorted_wrt (\<lambda>a b. - instant (created a) \<le> - instant (created b))
               (sort_key (\<lambda>x. - instant (created x)) xs)"
    by (simp add: sorted_wrt_map)
  then show ?thesis
    by (simp add: newest_first_def After_def not_less)
qed

lemma sorts_entries_ref: "sorts_entries ref_libs"
  by (simp add: sorts_entries_def ref_libs_def ref_SortEntries_def newest_first_sort)

lemma sorts_posts_ref: "sorts_posts ref_libs"
  by (simp add: sorts_posts_def ref_libs_def ref_SortPosts_def newest_first_sort)

lemma sorts_entries_Nil: "sorts_entries L \<Longrightarrow> SortEntries L [] = []"
  by (metis mset_zero_iff sorts_entries_def mset.simps(1))

section \<open>The sample inputs, evaluated\<close>

lemmas instance_defs =
  ref_libs_def ref_ParseFrontmatter_def ref_UnmarshalSocial_def ref_UnmarshalJournal_def
  yaml_lines_def yaml_field_def HasPrefix_def ref_uuid_Parse_def hex_value_def
  ref_ParseTime_def read_int_def is_digit_def atoi_def unlines_def

lemma uuid_String_samples:
  "uuid_String id_a = ''a1b2c3d4-0000-0000-0000-000000000001''"
  "uuid_String id_b = ''a1b2c3d4-0000-0000-0000-000000000002''"
  "uuid_String id_c = ''a1b2c3d4-0000-0000-0000-000000000003''"
  "uuid_String id_d = ''a1b2c3d4-0000-0000-0000-000000000004''"
  by (simp_all add: uuid_String_def uuid_hex_def hex_digit_def upt_conv_Cons
      id_a_def id_b_def id_c_def id_d_def)

lemma TrimSpace_samples:
  "TrimSpace (''root post'' @ [NL]) = ''root post''"
  "TrimSpace (''a reply'' @ [NL]) = ''a reply''"
  "TrimSpace (''unrelated'' @ [NL]) = ''unrelated''"
  "TrimSpace (''odd parent'' @ [NL]) = ''odd parent''"
  by code_simp+

lemma parse_file_a: "parseSocialPost ref_libs file_a = Inr post_a"
  using TrimSpace_samples
  by (simp add: parseSocialPost_def instance_defs file_a_def post_file_def post_a_def
      id_a_def time_old_def)

lemma parse_file_b: "parseSocialPost ref_libs file_b = Inr post_b"
  using TrimSpace_samples
  by (simp add: parseSocialPost_def instance_defs file_b_def post_file_def post_b_def
      id_a_def id_b_def time_a_def)

lemma parse_file_c: "parseSocialPost ref_libs file_c = Inr post_c"
  using TrimSpace_samples
  by (simp add: parseSocialPost_def instance_defs file_c_def post_file_def post_c_def
      id_c_def time_a_def)

lemma parse_file_d: "parseSocialPost ref_libs file_d = Inr post_d"
  using TrimSpace_samples
  by (simp add: parseSocialPost_def instance_defs file_d_def post_file_def post_d_def
      id_d_def time_a_def)

lemma sample_all_posts:
  "posts_of_dirs ref_libs no_filter sample_dirs = [post_a, post_b, post_c, post_d]"
  by (simp add: sample_dirs_def parse_file_a parse_file_b parse_file_c parse_file_d
      HasSuffix_def suffix_to_prefix keep_post_def no_filter_def)

lemma sample_posts_dir:
  "os_ReadDir sample_env (Join [dataDir sample_social, ''posts'']) = Inr sample_dirs"
  by (simp add: os_ReadDir_def os_Stat_def sample_env_def sample_social_def sample_posts_def
      Abs_def IsAbs_def HasPrefix_def Clean_def clean_elems_def clean_step_def path_elems_def)

lemma sample_thread:
  "filter (in_thread (uuid_String id_a)) [post_a, post_b, post_c, post_d] = [post_a, post_b]"
  by (simp add: in_thread_def post_a_def post_b_def post_c_def post_d_def uuid_String_samples)

section \<open>Social posts: decoding and filters\<close>

lemma keep_post_no_filter: "keep_post no_filter p"
  by (simp add: keep_post_def no_filter_def)

lemma keep_post_thread:
  assumes "ThreadID opts \<noteq> []"
  shows "keep_post opts p \<longleftrightarrow>
           (AgentFilter opts = [] \<or> sp_AuthorName p = AgentFilter opts)
         \<and> (TagFilter opts = [] \<or> containsTag (sp_Tags p) (TagFilter opts))
         \<and> in_thread (ThreadID opts) p"
  using assms by (auto simp: keep_post_def in_thread_def split: option.splits)

lemma containsTag_set: "containsTag ts tag \<longleftrightarrow> tag \<in> set ts"
  by (induction ts) auto

lemma posts_of_files_filter:
  "posts_of_files L opts files = filter (keep_post opts) (posts_of_files L no_filter files)"
  by (induction files) (auto simp: keep_post_no_filter split: sum.splits)

lemma posts_of_dirs_filter:
  "posts_of_dirs L opts ds = filter (keep_post opts) (posts_of_dirs L no_filter ds)"
proof (induction ds)
  case Nil
  then show ?case by simp
next
  case (Cons d ds)
  obtain name n where d: "d = (name, n)" by (cases d)
  show ?case
    using Cons.IH posts_of_files_filter [of L opts]
    by (auto simp: d split: sum.splits)
qed

lemma os_ReadDir_exists:
  "os_ReadDir e path = Inr ds \<Longrightarrow> \<exists>n. os_Stat e path = Inr n"
  by (auto simp: os_ReadDir_def split: sum.splits)

lemma ListPosts_listed:
  assumes "os_ReadDir e (Join [dataDir s, ''posts'']) = Inr ds"
  shows "ListPosts L e s opts = Inr (paginate opts (SortPosts L (posts_of_dirs L opts ds)))"
proof -
  from assms obtain n where "os_Stat e (Join [dataDir s, ''posts'']) = Inr n"
    by (auto dest: os_ReadDir_exists)
  with assms show ?thesis by (simp add: ListPosts_def)
qed

lemma paginate_all:
  assumes "Offset opts \<le> 0"
    and "int (length xs) \<le> (if Limit opts \<le> 0 then 10 else Limit opts)"
  shows "paginate opts xs = xs"
  using assms by (auto simp: paginate_def Let_def)

lemma sorts_posts_length: "sorts_posts L \<Longrightarrow> length (SortPosts L xs) = length xs"
  by (metis sorts_posts_def size_mset)

text \<open>
  Claim C10.  When the frontmatter of a post file has a \<open>parent_post_id\<close> that is not
  empty and that \<^verbatim>\<open>uuid.Parse\<close> rejects, \<open>parseSocialPost\<close> does what it does for a file
  without a parent: it fails only when the post's own identifier or its date is
  invalid, and otherwise returns the post with no parent.  Such a post has no parent
  for the thread filter either: it is in a thread exactly when its own identifier
  names the thread.
\<close>

theorem bad_parent_discarded:
  assumes "ParseFrontmatter L content = (yamlStr, body)" and "yamlStr \<noteq> []"
    and "UnmarshalSocial L yamlStr = Some fm"
    and "sfm_ParentPostID fm \<noteq> []" and "uuid_Parse L (sfm_ParentPostID fm) = None"
  shows "parseSocialPost L content =
           (case uuid_Parse L (sfm_ID fm) of
              None \<Rightarrow> Inl InvalidUUID
            | Some i \<Rightarrow>
                (case ParseTime L (sfm_CreatedAt fm) of
                   None \<Rightarrow> Inl InvalidDate
                 | Some createdAt \<Rightarrow>
                     Inr \<lparr>sp_ID = i, sp_AuthorName = sfm_Author fm,
                          sp_Content = TrimSpace body, sp_Tags = sfm_Tags fm,
                          sp_CreatedAt = createdAt, sp_ParentPostID = None,
                          sp_Synced = sfm_Synced fm\<rparr>))
         \<and> (\<forall>post threadID. parseSocialPost L content = Inr post \<longrightarrow>
               sp_ParentPostID post = None \<and>
               (in_thread threadID post \<longleftrightarrow> uuid_String (sp_ID post) = threadID))"
  using assms
  by (auto simp: parseSocialPost_def in_thread_def split: option.splits)

theorem bad_parent_discarded_witness:
  "sfm_ParentPostID (the (UnmarshalSocial ref_libs (fst (ParseFrontmatter ref_libs file_d))))
     = ''not-a-uuid''
   \<and> uuid_Parse ref_libs ''not-a-uuid'' = None
   \<and> parseSocialPost ref_libs file_d = Inr post_d
   \<and> sp_ParentPostID post_d = None
   \<and> in_thread (uuid_String id_d) post_d"
proof -
  let ?y = "fst (ParseFrontmatter ref_libs file_d)"
  let ?b = "snd (ParseFrontmatter ref_libs file_d)"
  let ?fm = "the (UnmarshalSocial ref_libs ?y)"
  have fm: "UnmarshalSocial ref_libs ?y =
      Some \<lparr>sfm_ID = ''a1b2c3d4-0000-0000-0000-000000000004'', sfm_Author = ''gecko'',
            sfm_Tags = [], sfm_CreatedAt = ''63839761445123456789 0'',
            sfm_ParentPostID = ''not-a-uuid'', sfm_Synced = False\<rparr>"
    by (simp add: instance_defs file_d_def post_file_def)
  have h1: "ParseFrontmatter ref_libs file_d = (?y, ?b)" by simp
  have h2: "?y \<noteq> []" by (simp add: instance_defs file_d_def post_file_def)
  have h3: "UnmarshalSocial ref_libs ?y = Some ?fm" using fm by simp
  have h4: "sfm_ParentPostID ?fm \<noteq> []" using fm by simp
  have h5: "uuid_Parse ref_libs (sfm_ParentPostID ?fm) = None"
    using fm by (simp add: ref_libs_def ref_uuid_Parse_def)
  show ?thesis
    using bad_parent_discarded [OF h1 h2 h3 h4 h5] fm parse_file_d h5
    by (simp add: post_d_def)
qed

text \<open>
  Claim C8.  With a thread identifier that is not empty, \<open>ListPosts\<close> keeps a decoded
  post exactly when it passes the author filter and the tag filter and its parent's
  identifier or its own identifier is the thread identifier.  So the posts a listing
  keeps are the decoded posts that pass, and with the thread filter alone they are
  the root and the posts that name it as their parent; \<open>ListPosts\<close> returns them all
  (in some order) when they are no more than the default limit of 10.
\<close>

theorem thread_filter:
  assumes "ThreadID opts \<noteq> []"
  shows "(keep_post opts p \<longleftrightarrow>
            (AgentFilter opts = [] \<or> sp_AuthorName p = AgentFilter opts)
          \<and> (TagFilter opts = [] \<or> TagFilter opts \<in> set (sp_Tags p))
          \<and> in_thread (ThreadID opts) p)
       \<and> posts_of_dirs L opts ds = filter (keep_post opts) (posts_of_dirs L no_filter ds)
       \<and> posts_of_dirs L (thread_opts (ThreadID opts)) ds
           = filter (in_thread (ThreadID opts)) (posts_of_dirs L no_filter ds)
       \<and> (sorts_posts L \<and> os_ReadDir e (Join [dataDir s, ''posts'']) = Inr ds \<and>
          length (filter (in_thread (ThreadID opts)) (posts_of_dirs L no_filter ds)) \<le> 10
          \<longrightarrow> (\<exists>ps. ListPosts L e s (thread_opts (ThreadID opts)) = Inr ps \<and>
                    mset ps = mset (filter (in_thread (ThreadID opts))
                                      (posts_of_dirs L no_filter ds))))"
proof -
  let ?tid = "ThreadID opts"
  let ?all = "posts_of_dirs L no_filter ds"
  have t: "ThreadID (thread_opts ?tid) \<noteq> []" "AgentFilter (thread_opts ?tid) = []"
    "TagFilter (thread_opts ?tid) = []" "ThreadID (thread_opts ?tid) = ?tid"
    "Offset (thread_opts ?tid) = 0" "Limit (thread_opts ?tid) = 0"
    using assms by (simp_all add: thread_opts_def no_filter_def)
  have a: "keep_post opts p \<longleftrightarrow>
            (AgentFilter opts = [] \<or> sp_AuthorName p = AgentFilter opts)
          \<and> (TagFilter opts = [] \<or> TagFilter opts \<in> set (sp_Tags p))
          \<and> in_thread ?tid p"
    using keep_post_thread [OF assms, of p] by (simp add: containsTag_set)
  have b: "posts_of_dirs L opts ds = filter (keep_post opts) ?all"
    by (rule posts_of_dirs_filter)
  have "keep_post (thread_opts ?tid) = in_thread ?tid"
    using keep_post_thread [OF t(1)] t by (simp add: fun_eq_iff)
  then have c: "posts_of_dirs L (thread_opts ?tid) ds = filter (in_thread ?tid) ?all"
    using posts_of_dirs_filter [of L "thread_opts ?tid" ds] by simp
  have d: "\<exists>ps. ListPosts L e s (thread_opts ?tid) = Inr ps \<and>
                mset ps = mset (filter (in_thread ?tid) ?all)"
    if srt: "sorts_posts L" and dir: "os_ReadDir e (Join [dataDir s, ''posts'']) = Inr ds"
      and few: "length (filter (in_thread ?tid) ?all) \<le> 10"
  proof -
    let ?sorted = "SortPosts L (filter (in_thread ?tid) ?all)"
    have "paginate (thread_opts ?tid) ?sorted = ?sorted"
      using few t by (intro paginate_all) (simp_all add: sorts_posts_length [OF srt])
    then have "ListPosts L e s (thread_opts ?tid) = Inr ?sorted"
      using ListPosts_listed [OF dir, of L "thread_opts ?tid"] c by simp
    moreover have "mset ?sorted = mset (filter (in_thread ?tid) ?all)"
      using srt by (simp add: sorts_posts_def)
    ultimately show ?thesis by blast
  qed
  from a b c d show ?thesis by blast
qed

theorem thread_filter_witness:
  "ThreadID (thread_opts (uuid_String id_a)) \<noteq> []
   \<and> posts_of_dirs ref_libs (thread_opts (uuid_String id_a)) sample_dirs = [post_a, post_b]
   \<and> (\<exists>ps. ListPosts ref_libs sample_env sample_social (thread_opts (uuid_String id_a)) = Inr ps
            \<and> mset ps = {#post_a, post_b#})"
proof -
  let ?tid = "uuid_String id_a"
  have h: "ThreadID (thread_opts ?tid) \<noteq> []"
    by (simp add: thread_opts_def uuid_String_samples)
  have tid: "ThreadID (thread_opts ?tid) = ?tid"
    by (simp add: thread_opts_def)
  note T = thread_filter [OF h, of post_a ref_libs sample_dirs sample_env sample_social,
      unfolded tid sample_all_posts sample_thread]
  have c: "posts_of_dirs ref_libs (thread_opts ?tid) sample_dirs = [post_a, post_b]"
    by (rule T [THEN conjunct2, THEN conjunct2, THEN conjunct1])
  have "sorts_posts ref_libs \<and>
        os_ReadDir sample_env (Join [dataDir sample_social, ''posts'']) = Inr sample_dirs \<and>
        length [post_a, post_b] \<le> 10"
    using sorts_posts_ref sample_posts_dir by simp
  then have "\<exists>ps. ListPosts ref_libs sample_env sample_social (thread_opts ?tid) = Inr ps \<and>
                  mset ps = mset [post_a, post_b]"
    by (rule T [THEN conjunct2, THEN conjunct2, THEN conjunct2, THEN mp])
  then show ?thesis using h c by simp
qed

section \<open>Journal: listing\<close>

lemma entries_of_files_decodable:
  "entries_of_files L dirPath files =
     [entry. (f, File data) \<leftarrow> files, HasSuffix f ''.md'',
             Inr entry \<leftarrow> [parseJournalEntry L (Join [dirPath, f]) data]]"
proof (induction files)
  case Nil
  then show ?case by simp
next
  case (Cons x files)
  obtain f n where x: "x = (f, n)" by (cases x)
  show ?case using Cons.IH by (cases n) (auto simp: x simp del: Join.simps split: sum.splits)
qed

lemma entries_of_dirs_all:
  "entries_of_dirs L root zero_Time ds = decodable_entries L root ds"
proof (induction ds)
  case Nil
  then show ?case by (simp add: decodable_entries_def)
next
  case (Cons x ds)
  obtain name n where x: "x = (name, n)" by (cases x)
  have z: "\<not> pruned zero_Time name" by (simp add: pruned_def IsZero_def zero_Time_def)
  show ?case
    using Cons.IH z
    by (cases n) (simp_all add: x decodable_entries_def entries_of_files_decodable del: Join.simps)
qed

lemma listEntriesInRoot_missing:
  "os_Stat e root = Inl ENOENT \<Longrightarrow> listEntriesInRoot L e root cutoff = Inr []"
  by (simp add: listEntriesInRoot_def)

lemma listEntriesInRoot_listed:
  "os_ReadDir e root = Inr ds \<Longrightarrow>
     listEntriesInRoot L e root cutoff = Inr (entries_of_dirs L root cutoff ds)"
  by (auto simp: listEntriesInRoot_def os_ReadDir_def split: sum.splits oserr.splits)

lemma root_dirs_missing: "os_Stat e root = Inl ENOENT \<Longrightarrow> root_dirs e root = []"
  by (simp add: root_dirs_def os_ReadDir_def)

lemma listEntriesInRoot_all:
  assumes "os_Stat e root = Inl ENOENT \<or> (\<exists>ds. os_ReadDir e root = Inr ds)"
  shows "listEntriesInRoot L e root zero_Time = Inr (decodable_entries L root (root_dirs e root))"
  using assms
proof
  assume "os_Stat e root = Inl ENOENT"
  then show ?thesis
    by (simp add: listEntriesInRoot_missing root_dirs_missing decodable_entries_def)
next
  assume "\<exists>ds. os_ReadDir e root = Inr ds"
  then obtain ds where ds: "os_ReadDir e root = Inr ds" ..
  then show ?thesis
    by (simp add: listEntriesInRoot_listed entries_of_dirs_all root_dirs_def)
qed

lemma newest_first_take: "newest_first c xs \<Longrightarrow> newest_first c (take n xs)"
  unfolding newest_first_def by (rule sorted_wrt_take)



lemma entries_of_dirs_buckets:
  "entries_of_dirs L root cutoff ds =
     concat (map (bucket_entries L root) (filter (\<lambda>b. \<not> pruned cutoff (fst b)) ds))"
proof (induction ds)
  case Nil
  then show ?case by simp
next
  case (Cons x ds)
  obtain name n where x: "x = (name, n)" by (cases x)
  show ?case
    using Cons.IH
    by (cases n) (simp_all add: x bucket_entries_def del: Join.simps)
qed

lemma Parse_date_midnight:
  "Parse_date name = Some d \<Longrightarrow> instant d mod ns_per_day = 0"
  by (auto simp: Parse_date_def Let_def split: if_splits)

lemma before_truncated_day:
  assumes "instant d mod ns_per_day = 0"
  shows "Before d (Truncate c ns_per_day) \<longleftrightarrow> utc_day d < utc_day c"
proof -
  have pos: "0 < ns_per_day" by (simp add: ns_per_day_def)
  have d: "instant d = utc_day d * ns_per_day"
    using assms div_mult_mod_eq [of "instant d" ns_per_day] by (simp add: utc_day_def)
  have c: "instant c - instant c mod ns_per_day = utc_day c * ns_per_day"
    by (simp add: utc_day_def minus_mod_eq_div_mult)
  have "Before d (Truncate c ns_per_day) \<longleftrightarrow>
          utc_day d * ns_per_day < utc_day c * ns_per_day"
    using pos c d by (simp add: Before_def Truncate_def)
  also have "\<dots> \<longleftrightarrow> utc_day d < utc_day c"
    using pos by simp
  finally show ?thesis .
qed

lemma pruned_iff:
  assumes "\<not> IsZero cutoff"
  shows "pruned cutoff name \<longleftrightarrow>
           (case Parse_date name of None \<Rightarrow> True | Some d \<Rightarrow> utc_day d < utc_day cutoff)"
  using assms
  by (auto simp: pruned_def before_truncated_day Parse_date_midnight split: option.splits)


lemma sorts_entries_set: "sorts_entries L \<Longrightarrow> set (SortEntries L xs) = set xs"
  by (metis sorts_entries_def set_mset_mset)

lemma journal_TrimSpace_samples:
  "TrimSpace (''old'' @ [NL, NL]) = ''old''"
  "TrimSpace (''fine'' @ [NL, NL]) = ''fine''"
  "TrimSpace (''note'' @ [NL, NL]) = ''note''"
  "TrimSpace (''build'' @ [NL, NL]) = ''build''"
  by code_simp+

lemma SectionKey_Feelings: "SectionKey L ''Feelings'' = ''feelings''"
  by code_simp

lemmas journal_eval =
  parseJournalEntry_def instance_defs journal_file_def parseSections_def TrimPrefix_def
  SectionKey_Feelings

lemma parse_jfile_old:
  "parseJournalEntry ref_libs path jfile_old = Inr (entry_old\<lparr>je_FilePath := path\<rparr>)"
  using journal_TrimSpace_samples
  by (simp add: journal_eval jfile_old_def entry_old_def id_b_def time_old_def)

lemma parse_jfile_a:
  "parseJournalEntry ref_libs path jfile_a = Inr (entry_a\<lparr>je_FilePath := path\<rparr>)"
  using journal_TrimSpace_samples
  by (simp add: journal_eval jfile_a_def entry_a_def id_a_def time_a_def)

lemma parse_jfile_n:
  "parseJournalEntry ref_libs path jfile_n = Inr (entry_n\<lparr>je_FilePath := path\<rparr>)"
  using journal_TrimSpace_samples
  by (simp add: journal_eval jfile_n_def entry_n_def id_c_def time_a_def)

lemma parse_jfile_p:
  "parseJournalEntry ref_libs path jfile_p = Inr (entry_p\<lparr>je_FilePath := path\<rparr>)"
  using journal_TrimSpace_samples
  by (simp add: journal_eval jfile_p_def entry_p_def id_d_def time_a_def)

lemma parse_broken:
  "parseJournalEntry ref_libs path ''no frontmatter here'' = Inl NoFrontmatter"
  by (simp add: journal_eval)

lemmas path_eval =
  Abs_def IsAbs_def HasPrefix_def Clean_def clean_elems_def clean_step_def path_elems_def

lemma sample_user_listing: "os_ReadDir sample_env (userPath sample_store) = Inr user_dirs"
  by (simp add: os_ReadDir_def os_Stat_def sample_env_def sample_store_def
      sample_user_root_def path_eval)

lemma sample_project_listing:
  "os_ReadDir sample_env (projectPath sample_store) = Inr project_dirs"
  by (simp add: os_ReadDir_def os_Stat_def sample_env_def sample_store_def
      sample_project_root_def path_eval)

text \<open>The system does not clean a path: the empty path names nothing, and a \<open>..\<close>
  after a name that does not exist does not undo it.\<close>

lemma sample_raw_paths:
  "os_Stat sample_env [] = Inl ENOENT"
  "os_Stat sample_env ''/w/nosuch/../user'' = Inl ENOENT"
  "os_ReadDir sample_env ''/w/user/../user'' = Inr user_dirs"
  "os_ReadDir sample_env ''user/'' = Inr user_dirs"
  by (simp_all add: os_ReadDir_def os_Stat_def sample_env_def sample_user_root_def
      sample_project_root_def path_eval)

lemma sample_raw_root:
  "ListEntries ref_libs sample_env \<lparr>projectPath = [], userPath = ''/w/nosuch/../user''\<rparr>
     ''both'' 0 0 = Inr []"
  by (simp add: ListEntries_def select_roots_def listEntriesInRoot_def sample_raw_paths
      ref_libs_def ref_SortEntries_def)

lemmas parse_samples = parse_jfile_old parse_jfile_a parse_jfile_n parse_jfile_p parse_broken

lemma sample_user_entries:
  "entries_of_dirs ref_libs (userPath sample_store) zero_Time user_dirs
     = [entry_old, entry_a, entry_n]"
  by (simp add: user_dirs_def sample_store_def parse_samples pruned_def IsZero_def
      zero_Time_def HasSuffix_def suffix_to_prefix path_eval entry_old_def entry_a_def
      entry_n_def)

lemma sample_project_entries:
  "entries_of_dirs ref_libs (projectPath sample_store) zero_Time project_dirs = [entry_p]"
  by (simp add: project_dirs_def sample_store_def parse_samples pruned_def IsZero_def
      zero_Time_def HasSuffix_def suffix_to_prefix path_eval entry_p_def)

lemma sample_sort:
  "SortEntries ref_libs [entry_old, entry_a, entry_n, entry_p]
     = [entry_a, entry_n, entry_p, entry_old]"
  by (simp add: ref_libs_def ref_SortEntries_def entry_old_def entry_a_def entry_n_def
      entry_p_def time_a_def time_old_def)

lemma sample_list_both:
  "ListEntries ref_libs sample_env sample_store ''both'' 0 0
     = Inr [entry_a, entry_n, entry_p, entry_old]"
  by (simp add: ListEntries_def select_roots_def
      listEntriesInRoot_listed [OF sample_user_listing]
      listEntriesInRoot_listed [OF sample_project_listing]
      sample_user_entries sample_project_entries sample_sort)

text \<open>Two entries of the sample were created at the same instant, so the listing
  is not strictly descending.\<close>

theorem strictly_descending_counterexample:
  "ListEntries ref_libs sample_env sample_store ''both'' 0 0
     = Inr [entry_a, entry_n, entry_p, entry_old]
   \<and> \<not> After (je_CreatedAt entry_a) (je_CreatedAt entry_n)"
  by (simp add: sample_list_both After_def entry_a_def entry_n_def)

text \<open>
  Claim C4, amended.  When each of the two roots is either missing or can be listed,
  \<open>ListEntries\<close> of \<open>both\<close> with no day limit returns the entries that decode below
  the user root and below the project root, all of them and each as often as it is
  there, with no entry created after one that stands before it (entries created at
  the same instant come in any order), cut down to the first \<open>limit\<close> of them when
  \<open>limit\<close> is positive.  A missing root has no directories and gives the empty
  list, not an error.
\<close>

theorem ListEntries_both:
  assumes "sorts_entries L"
    and "os_Stat e (userPath s) = Inl ENOENT \<or> (\<exists>ds. os_ReadDir e (userPath s) = Inr ds)"
    and "os_Stat e (projectPath s) = Inl ENOENT \<or> (\<exists>ds. os_ReadDir e (projectPath s) = Inr ds)"
  shows "(\<exists>es. ListEntries L e s ''both'' limit 0
                 = Inr (if limit > 0 then take (nat limit) es else es)
             \<and> mset es = mset (decodable_entries L (userPath s) (root_dirs e (userPath s)))
                         + mset (decodable_entries L (projectPath s)
                                   (root_dirs e (projectPath s)))
             \<and> newest_first je_CreatedAt es)
       \<and> (\<forall>root. os_Stat e root = Inl ENOENT \<longrightarrow>
             root_dirs e root = [] \<and> listEntriesInRoot L e root zero_Time = Inr [])"
proof -
  let ?us = "decodable_entries L (userPath s) (root_dirs e (userPath s))"
  let ?ps = "decodable_entries L (projectPath s) (root_dirs e (projectPath s))"
  let ?es = "SortEntries L (?us @ ?ps)"
  have u: "listEntriesInRoot L e (userPath s) zero_Time = Inr ?us"
    using assms(2) by (rule listEntriesInRoot_all)
  have p: "listEntriesInRoot L e (projectPath s) zero_Time = Inr ?ps"
    using assms(3) by (rule listEntriesInRoot_all)
  have l: "ListEntries L e s ''both'' limit 0
          = Inr (if limit > 0 then take (nat limit) ?es else ?es)"
    by (simp add: ListEntries_def select_roots_def u p Let_def)
  have m: "mset ?es = mset ?us + mset ?ps"
    using assms(1) by (simp add: sorts_entries_def)
  have n: "newest_first je_CreatedAt ?es"
    using assms(1) by (simp add: sorts_entries_def)
  have first:
    "\<exists>es. ListEntries L e s ''both'' limit 0
             = Inr (if limit > 0 then take (nat limit) es else es)
         \<and> mset es = mset ?us + mset ?ps \<and> newest_first je_CreatedAt es"
    using l m n by (intro exI [of _ ?es] conjI)
  have second: "\<forall>root. os_Stat e root = Inl ENOENT \<longrightarrow>
      root_dirs e root = [] \<and> listEntriesInRoot L e root zero_Time = Inr []"
    by (simp add: root_dirs_missing listEntriesInRoot_missing)
  from first second show ?thesis by blast
qed


theorem ListEntries_both_witness:
  "sorts_entries ref_libs
   \<and> (\<exists>ds. os_ReadDir sample_env (userPath sample_store) = Inr ds)
   \<and> (\<exists>ds. os_ReadDir sample_env (projectPath sample_store) = Inr ds)
   \<and> (\<exists>es. ListEntries ref_libs sample_env sample_store ''both'' 3 0 = Inr (take 3 es)
          \<and> mset es = mset [entry_old, entry_a, entry_n] + mset [entry_p]
          \<and> newest_first je_CreatedAt es)"
proof -
  have u: "os_Stat sample_env (userPath sample_store) = Inl ENOENT
             \<or> (\<exists>ds. os_ReadDir sample_env (userPath sample_store) = Inr ds)"
    using sample_user_listing by blast
  have p: "os_Stat sample_env (projectPath sample_store) = Inl ENOENT
             \<or> (\<exists>ds. os_ReadDir sample_env (projectPath sample_store) = Inr ds)"
    using sample_project_listing by blast
  have du: "decodable_entries ref_libs (userPath sample_store)
              (root_dirs sample_env (userPath sample_store)) = [entry_old, entry_a, entry_n]"
    by (simp add: root_dirs_def sample_user_listing entries_of_dirs_all [symmetric]
        sample_user_entries)
  have dp: "decodable_entries ref_libs (projectPath sample_store)
              (root_dirs sample_env (projectPath sample_store)) = [entry_p]"
    by (simp add: root_dirs_def sample_project_listing entries_of_dirs_all [symmetric]
        sample_project_entries)
  note T = ListEntries_both [OF sorts_entries_ref u p, of 3, unfolded du dp, THEN conjunct1]
  from T sorts_entries_ref sample_user_listing sample_project_listing show ?thesis
    by simp
qed

lemma ListEntries_no_root:
  assumes "sorts_entries L" and "select_roots s t = []"
  shows "ListEntries L e s t limit days = Inr []"
  using assms by (simp add: ListEntries_def sorts_entries_Nil)

lemma ListEntries_scan:
  "ListEntries L e s t limit days =
     (let cutoff = (if days > 0 then AddDate e (now e) (- days) else zero_Time) in
      case (if t = ''both'' \<or> t = ''user'' \<or> t = []
            then listEntriesInRoot L e (userPath s) cutoff else Inr []) of
        Inl err \<Rightarrow> Inl (ListFailed err)
      | Inr us \<Rightarrow>
          (case (if t = ''both'' \<or> t = ''project'' \<or> t = []
                 then listEntriesInRoot L e (projectPath s) cutoff else Inr []) of
             Inl err \<Rightarrow> Inl (ListFailed err)
           | Inr ps \<Rightarrow>
               (let es = SortEntries L (us @ ps) in
                Inr (if limit > 0 \<and> int (length es) > limit then take (nat limit) es else es))))"
  by (simp add: ListEntries_def select_roots_def Let_def split: sum.splits)

text \<open>
  Claim C9.  Whatever the type, \<open>ListEntries\<close> is this: the user root is scanned when
  the type is \<open>both\<close>, \<open>user\<close> or the empty string and gives nothing otherwise, then,
  unless that scan failed, the project root is scanned when the type is \<open>both\<close>,
  \<open>project\<close> or the empty string and gives nothing otherwise, and the entries of the
  two are sorted and cut to the limit.  So the empty string lists what \<open>both\<close> lists,
  any other type (\<open>remote\<close>, say) reads no root and gives the empty list and no error,
  and where the selected roots are missing or can be listed, the entries returned
  without limits are those that decode below the selected roots, and no others.
\<close>

theorem root_selection:
  "ListEntries L e s t limit days =
     (let cutoff = (if days > 0 then AddDate e (now e) (- days) else zero_Time) in
      case (if t = ''both'' \<or> t = ''user'' \<or> t = []
            then listEntriesInRoot L e (userPath s) cutoff else Inr []) of
        Inl err \<Rightarrow> Inl (ListFailed err)
      | Inr us \<Rightarrow>
          (case (if t = ''both'' \<or> t = ''project'' \<or> t = []
                 then listEntriesInRoot L e (projectPath s) cutoff else Inr []) of
             Inl err \<Rightarrow> Inl (ListFailed err)
           | Inr ps \<Rightarrow>
               (let es = SortEntries L (us @ ps) in
                Inr (if limit > 0 \<and> int (length es) > limit then take (nat limit) es else es))))
   \<and> ((userPath s, ''user'') \<in> set (select_roots s t) \<longleftrightarrow> t = ''both'' \<or> t = ''user'' \<or> t = [])
   \<and> ((projectPath s, ''project'') \<in> set (select_roots s t)
        \<longleftrightarrow> t = ''both'' \<or> t = ''project'' \<or> t = [])
   \<and> set (select_roots s t) \<subseteq> {(userPath s, ''user''), (projectPath s, ''project'')}
   \<and> ListEntries L e s [] limit days = ListEntries L e s ''both'' limit days
   \<and> (sorts_entries L \<and> t \<noteq> ''both'' \<and> t \<noteq> ''user'' \<and> t \<noteq> ''project'' \<and> t \<noteq> []
        \<longrightarrow> ListEntries L e s t limit days = Inr [])
   \<and> (sorts_entries L \<and>
       (t = ''both'' \<or> t = ''user'' \<or> t = [] \<longrightarrow>
          os_Stat e (userPath s) = Inl ENOENT \<or> (\<exists>ds. os_ReadDir e (userPath s) = Inr ds)) \<and>
       (t = ''both'' \<or> t = ''project'' \<or> t = [] \<longrightarrow>
          os_Stat e (projectPath s) = Inl ENOENT
          \<or> (\<exists>ds. os_ReadDir e (projectPath s) = Inr ds))
        \<longrightarrow> (\<exists>es. ListEntries L e s t 0 0 = Inr es \<and>
                mset es =
                  (if t = ''both'' \<or> t = ''user'' \<or> t = []
                   then mset (decodable_entries L (userPath s) (root_dirs e (userPath s)))
                   else {#})
                  + (if t = ''both'' \<or> t = ''project'' \<or> t = []
                     then mset (decodable_entries L (projectPath s)
                                  (root_dirs e (projectPath s)))
                     else {#})))"
proof -
  have scan: "ListEntries L e s t limit days =
     (let cutoff = (if days > 0 then AddDate e (now e) (- days) else zero_Time) in
      case (if t = ''both'' \<or> t = ''user'' \<or> t = []
            then listEntriesInRoot L e (userPath s) cutoff else Inr []) of
        Inl err \<Rightarrow> Inl (ListFailed err)
      | Inr us \<Rightarrow>
          (case (if t = ''both'' \<or> t = ''project'' \<or> t = []
                 then listEntriesInRoot L e (projectPath s) cutoff else Inr []) of
             Inl err \<Rightarrow> Inl (ListFailed err)
           | Inr ps \<Rightarrow>
               (let es = SortEntries L (us @ ps) in
                Inr (if limit > 0 \<and> int (length es) > limit then take (nat limit) es else es))))"
    by (rule ListEntries_scan)
  have a: "(userPath s, ''user'') \<in> set (select_roots s t)
             \<longleftrightarrow> t = ''both'' \<or> t = ''user'' \<or> t = []"
    by (auto simp: select_roots_def)
  have b: "(projectPath s, ''project'') \<in> set (select_roots s t)
             \<longleftrightarrow> t = ''both'' \<or> t = ''project'' \<or> t = []"
    by (auto simp: select_roots_def)
  have c: "set (select_roots s t) \<subseteq> {(userPath s, ''user''), (projectPath s, ''project'')}"
    by (auto simp: select_roots_def)
  have d: "ListEntries L e s [] limit days = ListEntries L e s ''both'' limit days"
    by (simp add: ListEntries_def select_roots_def)
  have e0: "ListEntries L e s t limit days = Inr []"
    if "sorts_entries L" "t \<noteq> ''both''" "t \<noteq> ''user''" "t \<noteq> ''project''" "t \<noteq> []"
  proof -
    from that have "select_roots s t = []" by (simp add: select_roots_def)
    with that(1) show ?thesis by (rule ListEntries_no_root)
  qed
  have e: "sorts_entries L \<and> t \<noteq> ''both'' \<and> t \<noteq> ''user'' \<and> t \<noteq> ''project'' \<and> t \<noteq> []
        \<longrightarrow> ListEntries L e s t limit days = Inr []"
    using e0 by simp
  have f0: "\<exists>es. ListEntries L e s t 0 0 = Inr es \<and>
                mset es =
                  (if t = ''both'' \<or> t = ''user'' \<or> t = []
                   then mset (decodable_entries L (userPath s) (root_dirs e (userPath s)))
                   else {#})
                  + (if t = ''both'' \<or> t = ''project'' \<or> t = []
                     then mset (decodable_entries L (projectPath s)
                                  (root_dirs e (projectPath s)))
                     else {#})"
    if srt: "sorts_entries L"
      and u: "t = ''both'' \<or> t = ''user'' \<or> t = [] \<longrightarrow>
          os_Stat e (userPath s) = Inl ENOENT \<or> (\<exists>ds. os_ReadDir e (userPath s) = Inr ds)"
      and p: "t = ''both'' \<or> t = ''project'' \<or> t = [] \<longrightarrow>
          os_Stat e (projectPath s) = Inl ENOENT
          \<or> (\<exists>ds. os_ReadDir e (projectPath s) = Inr ds)"
  proof -
    let ?us = "if t = ''both'' \<or> t = ''user'' \<or> t = []
               then decodable_entries L (userPath s) (root_dirs e (userPath s)) else []"
    let ?ps = "if t = ''both'' \<or> t = ''project'' \<or> t = []
               then decodable_entries L (projectPath s) (root_dirs e (projectPath s)) else []"
    have us: "listEntriesInRoot L e (userPath s) zero_Time
              = Inr (decodable_entries L (userPath s) (root_dirs e (userPath s)))"
      if "t = ''both'' \<or> t = ''user'' \<or> t = []"
      using u that by (simp add: listEntriesInRoot_all)
    have ps: "listEntriesInRoot L e (projectPath s) zero_Time
              = Inr (decodable_entries L (projectPath s) (root_dirs e (projectPath s)))"
      if "t = ''both'' \<or> t = ''project'' \<or> t = []"
      using p that by (simp add: listEntriesInRoot_all)
    have "ListEntries L e s t 0 0 = Inr (SortEntries L (?us @ ?ps))"
      by (simp add: ListEntries_scan us ps)
    moreover have "mset (SortEntries L (?us @ ?ps)) = mset ?us + mset ?ps"
      using srt by (simp add: sorts_entries_def)
    ultimately show ?thesis by (intro exI [of _ "SortEntries L (?us @ ?ps)"] conjI) auto
  qed
  have f: "sorts_entries L \<and>
       (t = ''both'' \<or> t = ''user'' \<or> t = [] \<longrightarrow>
          os_Stat e (userPath s) = Inl ENOENT \<or> (\<exists>ds. os_ReadDir e (userPath s) = Inr ds)) \<and>
       (t = ''both'' \<or> t = ''project'' \<or> t = [] \<longrightarrow>
          os_Stat e (projectPath s) = Inl ENOENT
          \<or> (\<exists>ds. os_ReadDir e (projectPath s) = Inr ds))
        \<longrightarrow> (\<exists>es. ListEntries L e s t 0 0 = Inr es \<and>
                mset es =
                  (if t = ''both'' \<or> t = ''user'' \<or> t = []
                   then mset (decodable_entries L (userPath s) (root_dirs e (userPath s)))
                   else {#})
                  + (if t = ''both'' \<or> t = ''project'' \<or> t = []
                     then mset (decodable_entries L (projectPath s)
                                  (root_dirs e (projectPath s)))
                     else {#}))"
  proof (intro impI, elim conjE)
    assume "sorts_entries L"
      and "t = ''both'' \<or> t = ''user'' \<or> t = [] \<longrightarrow>
          os_Stat e (userPath s) = Inl ENOENT \<or> (\<exists>ds. os_ReadDir e (userPath s) = Inr ds)"
      and "t = ''both'' \<or> t = ''project'' \<or> t = [] \<longrightarrow>
          os_Stat e (projectPath s) = Inl ENOENT
          \<or> (\<exists>ds. os_ReadDir e (projectPath s) = Inr ds)"
    then show "\<exists>es. ListEntries L e s t 0 0 = Inr es \<and>
                mset es =
                  (if t = ''both'' \<or> t = ''user'' \<or> t = []
                   then mset (decodable_entries L (userPath s) (root_dirs e (userPath s)))
                   else {#})
                  + (if t = ''both'' \<or> t = ''project'' \<or> t = []
                     then mset (decodable_entries L (projectPath s)
                                  (root_dirs e (projectPath s)))
                     else {#})"
      by (rule f0)
  qed
  from scan a b c d e f show ?thesis by (intro conjI)
qed

theorem root_selection_witness:
  "ListEntries ref_libs sample_env sample_store ''remote'' 3 0 = Inr []
   \<and> (userPath sample_store, ''user'') \<notin> set (select_roots sample_store ''remote'')
   \<and> (projectPath sample_store, ''project'') \<notin> set (select_roots sample_store ''remote'')
   \<and> ListEntries ref_libs sample_env sample_store [] 3 0
       = ListEntries ref_libs sample_env sample_store ''both'' 3 0
   \<and> (\<exists>es. ListEntries ref_libs sample_env sample_store ''user'' 0 0 = Inr es
          \<and> mset es = mset [entry_old, entry_a, entry_n])
   \<and> (\<exists>es. ListEntries ref_libs sample_env sample_store ''project'' 0 0 = Inr es
          \<and> mset es = mset [entry_p])"
proof -
  note T = root_selection [where L = ref_libs and e = sample_env and s = sample_store]
  note R = T [where t = "''remote''" and limit = 3 and days = 0, THEN conjunct2]
  have r: "ListEntries ref_libs sample_env sample_store ''remote'' 3 0 = Inr []"
    using R [THEN conjunct2, THEN conjunct2, THEN conjunct2, THEN conjunct2, THEN conjunct1]
      sorts_entries_ref
    by simp
  have ru: "(userPath sample_store, ''user'') \<notin> set (select_roots sample_store ''remote'')"
    using R [THEN conjunct1] by simp
  have rp: "(projectPath sample_store, ''project'')
              \<notin> set (select_roots sample_store ''remote'')"
    using R [THEN conjunct2, THEN conjunct1] by simp
  have b: "ListEntries ref_libs sample_env sample_store [] 3 0
           = ListEntries ref_libs sample_env sample_store ''both'' 3 0"
    by (rule R [THEN conjunct2, THEN conjunct2, THEN conjunct2, THEN conjunct1])
  have du: "decodable_entries ref_libs (userPath sample_store)
              (root_dirs sample_env (userPath sample_store)) = [entry_old, entry_a, entry_n]"
    by (simp add: root_dirs_def sample_user_listing entries_of_dirs_all [symmetric]
        sample_user_entries)
  have dp: "decodable_entries ref_libs (projectPath sample_store)
              (root_dirs sample_env (projectPath sample_store)) = [entry_p]"
    by (simp add: root_dirs_def sample_project_listing entries_of_dirs_all [symmetric]
        sample_project_entries)
  note M = T [THEN conjunct2, THEN conjunct2, THEN conjunct2, THEN conjunct2, THEN conjunct2,
      THEN conjunct2]
  have u: "\<exists>es. ListEntries ref_libs sample_env sample_store ''user'' 0 0 = Inr es
          \<and> mset es = mset [entry_old, entry_a, entry_n]"
    using M [of "''user''"] sorts_entries_ref sample_user_listing by (simp add: du)
  have p: "\<exists>es. ListEntries ref_libs sample_env sample_store ''project'' 0 0 = Inr es
          \<and> mset es = mset [entry_p]"
    using M [of "''project''"] sorts_entries_ref sample_project_listing by (simp add: dp)
  from r ru rp b u p show ?thesis by (intro conjI)
qed

lemma listEntriesInRoot_dirs:
  "listEntriesInRoot L e root cutoff = Inr ys \<Longrightarrow>
     ys = entries_of_dirs L root cutoff (root_dirs e root)"
  by (auto simp: listEntriesInRoot_def root_dirs_def os_ReadDir_def
      split: sum.splits oserr.splits)

lemma entries_of_roots_member:
  "entries_of_roots L e cutoff roots = Inr xs \<Longrightarrow> entry \<in> set xs \<Longrightarrow>
     \<exists>root \<in> fst ` set roots. entry \<in> set (entries_of_dirs L root cutoff (root_dirs e root))"
proof (induction roots arbitrary: xs)
  case Nil
  then show ?case by simp
next
  case (Cons r roots)
  obtain path ft where r: "r = (path, ft)" by (cases r)
  from Cons.prems(1) obtain ys rest where
    ys: "listEntriesInRoot L e path cutoff = Inr ys"
    and rest: "entries_of_roots L e cutoff roots = Inr rest" and xs: "xs = ys @ rest"
    by (auto simp: r split: sum.splits)
  from Cons.prems(2) xs consider "entry \<in> set ys" | "entry \<in> set rest" by auto
  then show ?case
  proof cases
    case 1
    with listEntriesInRoot_dirs [OF ys] show ?thesis by (auto simp: r)
  next
    case 2
    from Cons.IH [OF rest 2] show ?thesis by auto
  qed
qed

lemma ListEntries_member:
  assumes "sorts_entries L" and "ListEntries L e s t limit days = Inr es" and "entry \<in> set es"
  shows "\<exists>root \<in> fst ` set (select_roots s t).
           entry \<in> set (entries_of_dirs L root
                          (if days > 0 then AddDate e (now e) (- days) else zero_Time)
                          (root_dirs e root))"
proof -
  let ?cutoff = "if days > 0 then AddDate e (now e) (- days) else zero_Time"
  from assms(2) obtain xs where
    xs: "entries_of_roots L e ?cutoff (select_roots s t) = Inr xs"
    and es: "es = (if limit > 0 \<and> int (length (SortEntries L xs)) > limit
                   then take (nat limit) (SortEntries L xs) else SortEntries L xs)"
    by (auto simp: ListEntries_def Let_def split: sum.splits)
  have "set es \<subseteq> set (SortEntries L xs)"
    by (auto simp: es dest: in_set_takeD)
  with assms(1,3) have "entry \<in> set xs"
    by (auto simp: sorts_entries_set)
  from entries_of_roots_member [OF xs this] show ?thesis .
qed

lemma listEntriesInRoot_scanned:
  assumes "os_Stat e root = Inl ENOENT \<or> (\<exists>ds. os_ReadDir e root = Inr ds)"
  shows "listEntriesInRoot L e root cutoff
         = Inr (entries_of_dirs L root cutoff (root_dirs e root))"
  using assms
proof
  assume "os_Stat e root = Inl ENOENT"
  then show ?thesis by (simp add: listEntriesInRoot_missing root_dirs_missing)
next
  assume "\<exists>ds. os_ReadDir e root = Inr ds"
  then obtain ds where ds: "os_ReadDir e root = Inr ds" ..
  then show ?thesis by (simp add: listEntriesInRoot_listed root_dirs_def)
qed

lemma entries_of_roots_scanned:
  assumes "\<forall>root \<in> fst ` set roots.
             os_Stat e root = Inl ENOENT \<or> (\<exists>ds. os_ReadDir e root = Inr ds)"
  shows "entries_of_roots L e cutoff roots
         = Inr (concat (map (\<lambda>root. entries_of_dirs L root cutoff (root_dirs e root))
                         (map fst roots)))"
  using assms
proof (induction roots)
  case Nil
  then show ?case by simp
next
  case (Cons r roots)
  obtain path ft where r: "r = (path, ft)" by (cases r)
  from Cons.prems have
    "os_Stat e path = Inl ENOENT \<or> (\<exists>ds. os_ReadDir e path = Inr ds)"
    by (simp add: r)
  then have "listEntriesInRoot L e path cutoff
             = Inr (entries_of_dirs L path cutoff (root_dirs e path))"
    by (rule listEntriesInRoot_scanned)
  moreover from Cons have "entries_of_roots L e cutoff roots
         = Inr (concat (map (\<lambda>root. entries_of_dirs L root cutoff (root_dirs e root))
                         (map fst roots)))"
    by simp
  ultimately show ?case by (simp add: r)
qed

lemma ListEntries_scanned:
  assumes "sorts_entries L"
    and "\<forall>root \<in> fst ` set (select_roots s t).
           os_Stat e root = Inl ENOENT \<or> (\<exists>ds. os_ReadDir e root = Inr ds)"
  shows "\<exists>es. ListEntries L e s t limit days
                = Inr (if limit > 0 then take (nat limit) es else es)
             \<and> mset es = mset (concat (map (\<lambda>root. entries_of_dirs L root
                              (if days > 0 then AddDate e (now e) (- days) else zero_Time)
                              (root_dirs e root))
                          (map fst (select_roots s t))))
             \<and> newest_first je_CreatedAt es"
proof -
  let ?cutoff = "if days > 0 then AddDate e (now e) (- days) else zero_Time"
  let ?xs = "concat (map (\<lambda>root. entries_of_dirs L root ?cutoff (root_dirs e root))
                      (map fst (select_roots s t)))"
  let ?es = "SortEntries L ?xs"
  have "entries_of_roots L e ?cutoff (select_roots s t) = Inr ?xs"
    using assms(2) by (rule entries_of_roots_scanned)
  then have l: "ListEntries L e s t limit days
                = Inr (if limit > 0 then take (nat limit) ?es else ?es)"
    by (simp add: ListEntries_def Let_def)
  have m: "mset ?es = mset ?xs" "newest_first je_CreatedAt ?es"
    using assms(1) by (simp_all add: sorts_entries_def)
  from l m show ?thesis by (intro exI [of _ ?es] conjI)
qed

text \<open>
  Claim C7, amended.  For \<open>days > 0\<close>, and a cutoff \<^verbatim>\<open>time.Now().AddDate(0, 0, -days)\<close>
  that is not the zero time, a directory of a root is passed over exactly when its
  name is not a date or is a date before the day of the cutoff in UTC; where the
  cutoff is \<open>days\<close> times 24 hours before now, that day is today's in UTC less \<open>days\<close>.
  The decision reads the name only: a root gives the entries of the directories that
  survive, whatever the others hold; every entry \<open>ListEntries\<close> returns comes from a
  surviving directory of a selected root; and when the selected roots are missing or
  can be listed, \<open>ListEntries\<close> without a limit returns the entries of all surviving
  directories of the selected roots.
\<close>

theorem prune_by_name:
  assumes "days > 0" and "\<not> IsZero (AddDate e (now e) (- days))"
  shows "(pruned (AddDate e (now e) (- days)) name \<longleftrightarrow>
            (case Parse_date name of
               None \<Rightarrow> True
             | Some d \<Rightarrow> utc_day d < utc_day (AddDate e (now e) (- days))))
       \<and> (instant (AddDate e (now e) (- days)) = instant (now e) - days * ns_per_day \<longrightarrow>
            utc_day (AddDate e (now e) (- days)) = utc_day (now e) - days)
       \<and> entries_of_dirs L root (AddDate e (now e) (- days)) ds
           = concat (map (bucket_entries L root)
                       (filter (\<lambda>b. \<not> pruned (AddDate e (now e) (- days)) (fst b)) ds))
       \<and> (sorts_entries L \<longrightarrow>
            (\<forall>es. ListEntries L e s t limit days = Inr es \<longrightarrow>
               (\<forall>entry \<in> set es.
                  \<exists>root \<in> fst ` set (select_roots s t).
                  \<exists>b \<in> set (root_dirs e root).
                    \<not> pruned (AddDate e (now e) (- days)) (fst b)
                    \<and> entry \<in> set (bucket_entries L root b))))
       \<and> (sorts_entries L \<and>
          (\<forall>root \<in> fst ` set (select_roots s t).
             os_Stat e root = Inl ENOENT \<or> (\<exists>ds. os_ReadDir e root = Inr ds)) \<longrightarrow>
            (\<exists>es. ListEntries L e s t 0 days = Inr es \<and>
                  mset es = mset (concat (map (\<lambda>root.
                      concat (map (bucket_entries L root)
                        (filter (\<lambda>b. \<not> pruned (AddDate e (now e) (- days)) (fst b))
                           (root_dirs e root))))
                    (map fst (select_roots s t))))))"
proof -
  let ?cutoff = "AddDate e (now e) (- days)"
  have a: "pruned ?cutoff name \<longleftrightarrow>
            (case Parse_date name of
               None \<Rightarrow> True
             | Some d \<Rightarrow> utc_day d < utc_day ?cutoff)"
    using assms(2) by (rule pruned_iff)
  have a': "utc_day ?cutoff = utc_day (now e) - days"
    if "instant ?cutoff = instant (now e) - days * ns_per_day"
    using that by (simp add: utc_day_def ns_per_day_def)
  have b: "entries_of_dirs L root ?cutoff ds
           = concat (map (bucket_entries L root) (filter (\<lambda>b. \<not> pruned ?cutoff (fst b)) ds))"
    by (rule entries_of_dirs_buckets)
  have c: "\<exists>root \<in> fst ` set (select_roots s t).
             \<exists>b \<in> set (root_dirs e root).
               \<not> pruned ?cutoff (fst b) \<and> entry \<in> set (bucket_entries L root b)"
    if "sorts_entries L" "ListEntries L e s t limit days = Inr es" "entry \<in> set es"
    for es entry
  proof -
    from ListEntries_member [OF that] assms(1) obtain r where
      r: "r \<in> fst ` set (select_roots s t)"
      and m: "entry \<in> set (entries_of_dirs L r ?cutoff (root_dirs e r))"
      by auto
    from m obtain b where "b \<in> set (root_dirs e r)" "\<not> pruned ?cutoff (fst b)"
      "entry \<in> set (bucket_entries L r b)"
      unfolding entries_of_dirs_buckets by auto
    then have "\<exists>b \<in> set (root_dirs e r).
        \<not> pruned ?cutoff (fst b) \<and> entry \<in> set (bucket_entries L r b)"
      by (intro bexI [of _ b] conjI)
    with r show ?thesis by blast
  qed
  have d: "\<exists>es. ListEntries L e s t 0 days = Inr es \<and>
                mset es = mset (concat (map (\<lambda>root.
                      concat (map (bucket_entries L root)
                        (filter (\<lambda>b. \<not> pruned ?cutoff (fst b)) (root_dirs e root))))
                    (map fst (select_roots s t))))"
    if "sorts_entries L"
      "\<forall>root \<in> fst ` set (select_roots s t).
         os_Stat e root = Inl ENOENT \<or> (\<exists>ds. os_ReadDir e root = Inr ds)"
  proof -
    from ListEntries_scanned [OF that, of 0 days] assms(1) obtain es where
      "ListEntries L e s t 0 days = Inr es"
      "mset es = mset (concat (map (\<lambda>root. entries_of_dirs L root ?cutoff (root_dirs e root))
                          (map fst (select_roots s t))))"
      by auto
    then show ?thesis
      unfolding entries_of_dirs_buckets by (intro exI [of _ es] conjI)
  qed
  from a a' b c d show ?thesis by blast
qed

lemma sample_cutoff:
  "AddDate sample_env (now sample_env) (- 1) = \<lparr>instant = 63839793600000000000, zone = 0\<rparr>"
  by (simp add: sample_env_def time_now_def AddDays_def ns_per_day_def)

lemma sample_dates:
  "Parse_date ''2023-12-25'' = Some \<lparr>instant = 63839059200000000000, zone = 0\<rparr>"
  "Parse_date ''2024-01-02'' = Some \<lparr>instant = 63839750400000000000, zone = 0\<rparr>"
  "Parse_date ''notes'' = None"
  by (simp_all add: Parse_date_def is_digit_def atoi_def daysIn_def isLeap_def
      days_from_civil_def ns_per_day_def)

lemma sample_pruned:
  "pruned (AddDate sample_env (now sample_env) (- 1)) ''2023-12-25''"
  "\<not> pruned (AddDate sample_env (now sample_env) (- 1)) ''2024-01-02''"
  "pruned (AddDate sample_env (now sample_env) (- 1)) ''notes''"
  by (simp_all add: pruned_def sample_cutoff sample_dates IsZero_def Before_def Truncate_def
      ns_per_day_def)

lemma sample_user_recent:
  "entries_of_dirs ref_libs (userPath sample_store) (AddDate sample_env (now sample_env) (- 1)) user_dirs
     = [entry_a]"
  by (simp add: user_dirs_def sample_store_def parse_samples sample_pruned
      HasSuffix_def suffix_to_prefix path_eval entry_a_def)

lemma sort_one: "SortEntries ref_libs [x] = [x]"
  by (simp add: ref_libs_def ref_SortEntries_def)

lemma sample_list_recent:
  "ListEntries ref_libs sample_env sample_store ''user'' 0 1 = Inr [entry_a]"
  by (simp add: ListEntries_def select_roots_def
      listEntriesInRoot_listed [OF sample_user_listing] sample_user_recent sort_one)

lemma sample_sort_user:
  "SortEntries ref_libs [entry_old, entry_a, entry_n] = [entry_a, entry_n, entry_old]"
  by (simp add: ref_libs_def ref_SortEntries_def entry_old_def entry_a_def entry_n_def
      time_a_def time_old_def)

lemma sample_list_user:
  "ListEntries ref_libs sample_env sample_store ''user'' 0 0
     = Inr [entry_a, entry_n, entry_old]"
  by (simp add: ListEntries_def select_roots_def
      listEntriesInRoot_listed [OF sample_user_listing] sample_user_entries sample_sort_user)

text \<open>The directory \<open>notes\<close> of the sample has no date for a name; its entry is
  listed without a day limit and passed over with one.\<close>

theorem prune_exactly_counterexample:
  "Parse_date ''notes'' = None
   \<and> (''notes'', Dir [(''n.md'', File jfile_n)]) \<in> set (root_dirs sample_env (userPath sample_store))
   \<and> ListEntries ref_libs sample_env sample_store ''user'' 0 0
       = Inr [entry_a, entry_n, entry_old]
   \<and> ListEntries ref_libs sample_env sample_store ''user'' 0 1 = Inr [entry_a]"
  by (simp add: sample_dates sample_list_user sample_list_recent root_dirs_def
      sample_user_listing user_dirs_def)

theorem prune_by_name_witness:
  "(0 :: int) < 1 \<and> \<not> IsZero (AddDate sample_env (now sample_env) (- 1))
   \<and> pruned (AddDate sample_env (now sample_env) (- 1)) ''2023-12-25''
   \<and> \<not> pruned (AddDate sample_env (now sample_env) (- 1)) ''2024-01-02''
   \<and> utc_day (AddDate sample_env (now sample_env) (- 1)) = utc_day (now sample_env) - 1
   \<and> utc_day (now sample_env) - 1 = 738886
   \<and> ListEntries ref_libs sample_env sample_store ''user'' 0 1 = Inr [entry_a]"
proof -
  have h1: "(0 :: int) < 1" by simp
  have h2: "\<not> IsZero (AddDate sample_env (now sample_env) (- 1))"
    by (simp add: sample_cutoff IsZero_def)
  have d: "utc_day (now sample_env) - 1 = 738886"
    by (simp add: utc_day_def sample_env_def time_now_def ns_per_day_def)
  have c: "utc_day (AddDate sample_env (now sample_env) (- 1)) = 738886"
    by (simp add: sample_cutoff utc_day_def ns_per_day_def)
  have i: "instant (AddDate sample_env (now sample_env) (- 1))
           = instant (now sample_env) - 1 * ns_per_day"
    by (simp add: sample_cutoff) (simp add: sample_env_def time_now_def ns_per_day_def)
  note T = prune_by_name [OF h1 h2]
  have "pruned (AddDate sample_env (now sample_env) (- 1)) ''2023-12-25''"
    using T [of "''2023-12-25''", THEN conjunct1]
    by (simp add: sample_dates c) (simp add: utc_day_def ns_per_day_def)
  moreover have "\<not> pruned (AddDate sample_env (now sample_env) (- 1)) ''2024-01-02''"
    using T [of "''2024-01-02''", THEN conjunct1]
    by (simp add: sample_dates c) (simp add: utc_day_def ns_per_day_def)
  moreover have "utc_day (AddDate sample_env (now sample_env) (- 1))
                 = utc_day (now sample_env) - 1"
    using T [THEN conjunct2, THEN conjunct1] i by (rule mp)
  ultimately show ?thesis using h1 h2 d sample_list_recent by simp
qed

section \<open>The path of a record\<close>

lemma Format_date:
  "Format t ''2006-01-02'' = appendInt (Year t) 4 @ ''-'' @ appendInt (Month t) 2 @ ''-'' @ appendInt (Day t) 2"
  by (simp add: Format.simps std_at_def HasPrefix_def)
lemma Format_time:
  "Format t ''15-04-05-000000'' =
     appendInt (Hour t) 2 @ ''-'' @ appendInt (Minute t) 2 @ ''-'' @ appendInt (Second t) 2 @ ''-000000''"
  by (simp add: Format.simps std_at_def HasPrefix_def)

lemma time_a_fields:
  "appendInt (Year time_a) 4 = ''2024''" "appendInt (Month time_a) 2 = ''01''"
  "appendInt (Day time_a) 2 = ''02''" "appendInt (Hour time_a) 2 = ''03''"
  "appendInt (Minute time_a) 2 = ''04''" "appendInt (Second time_a) 2 = ''05''"
  "Nanosecond time_a div 1000 = 123456"
  by code_simp+

lemma sample_paths:
  "Join [Join [''/w/user'', ''2024-01-02''], ''03-04-05-000000-a1b2c3d4.md'']
     = ''/w/user/2024-01-02/03-04-05-000000-a1b2c3d4.md''"
  "Join [Join [Join [''/w/social'', ''posts''], ''2024-01-02''], ''03-04-05-000000-a1b2c3d4.md'']
     = ''/w/social/posts/2024-01-02/03-04-05-000000-a1b2c3d4.md''"
  by (simp_all add: path_eval)

lemma WriteEntry_path:
  assumes "WriteEntry L e s entry = Inr (e', entry')"
  shows "je_FilePath entry' =
           Join [Join [if je_Type entry = ''project'' then projectPath s else userPath s,
                       appendInt (Year (je_CreatedAt entry)) 4 @ ''-'' @
                       appendInt (Month (je_CreatedAt entry)) 2 @ ''-'' @
                       appendInt (Day (je_CreatedAt entry)) 2],
                 appendInt (Hour (je_CreatedAt entry)) 2 @ ''-'' @
                 appendInt (Minute (je_CreatedAt entry)) 2 @ ''-'' @
                 appendInt (Second (je_CreatedAt entry)) 2 @ ''-000000-'' @
                 take 8 (uuid_String (je_ID entry)) @ ''.md'']"
  using assms
  by (auto simp: WriteEntry_def Let_def Format_date Format_time
      simp del: Join.simps split: option.splits sum.splits)

text \<open>
  Claim C5 (the code does not do it).  The claim has the file name carry the
  microseconds of the timestamp.  The layout of both stores is \<open>15-04-05-000000\<close>, and
  \<^verbatim>\<open>Format\<close> reads zeros as a fraction of a second only after a point or a comma, so
  the six zeros are copied as they are: an entry, and a post, created at
  03:04:05.123456789 on January 2, 2024, whose microseconds are 123456, is written
  to \<open>2024-01-02/03-04-05-000000-a1b2c3d4.md\<close> below its root.  The rest of the path
  is as the claim has it.
\<close>

theorem path_time_field_is_literal:
  "Nanosecond (je_CreatedAt entry_w) div 1000 = 123456
   \<and> Nanosecond (sp_CreatedAt post_w) div 1000 = 123456
   \<and> map_sum id (\<lambda>r. je_FilePath (snd r)) (WriteEntry ref_libs empty_env sample_store entry_w)
       = Inr ''/w/user/2024-01-02/03-04-05-000000-a1b2c3d4.md''
   \<and> map_sum id (\<lambda>e'. map fst (filter (\<lambda>v. \<not> IsDir (snd v)) (walk ''/'' (fs e'))))
         (CreatePost ref_libs empty_env sample_social post_w)
       = Inr [''/w/social/posts/2024-01-02/03-04-05-000000-a1b2c3d4.md'']"
proof -
  have "map_sum id (\<lambda>r. je_FilePath (snd r))
          (WriteEntry ref_libs empty_env sample_store entry_w)
        = Inr ''/w/user/2024-01-02/03-04-05-000000-a1b2c3d4.md''"
    by (simp add: WriteEntry_def Let_def entry_w_def sample_store_def Format_date Format_time
        time_a_fields uuid_String_samples sample_paths ref_libs_def ref_RenderJournal_def
        AtomicWrite_def empty_env_def path_eval)
  moreover have "map_sum id (\<lambda>e'. map fst (filter (\<lambda>v. \<not> IsDir (snd v)) (walk ''/'' (fs e'))))
          (CreatePost ref_libs empty_env sample_social post_w)
        = Inr [''/w/social/posts/2024-01-02/03-04-05-000000-a1b2c3d4.md'']"
    by (simp add: CreatePost_def Let_def post_w_def sample_social_def Format_date Format_time
        time_a_fields uuid_String_samples sample_paths ref_libs_def ref_RenderSocial_def
        AtomicWrite_def empty_env_def path_eval)
  ultimately show ?thesis
    by (simp add: entry_w_def post_w_def time_a_fields)
qed


section \<open>Journal: reading inside the roots\<close>

lemma Split_not_Nil: "Split c xs \<noteq> []"
  by (induction xs) (auto split: list.splits)

lemma Split_pieces: "s \<in> set (Split c xs) \<Longrightarrow> c \<notin> set s"
  by (induction xs arbitrary: s) (auto split: list.splits if_splits)

lemma Split_no_sep: "c \<notin> set s \<Longrightarrow> Split c s = [s]"
  by (induction s) auto

lemma Split_append_sep: "c \<notin> set s \<Longrightarrow> Split c (s @ c # rest) = s # Split c rest"
  by (induction s) auto

lemma clean_step_ok:
  "list_all elem_ok out \<Longrightarrow> CHR ''/'' \<notin> set seg \<Longrightarrow> list_all elem_ok (clean_step r out seg)"
  by (auto simp: clean_step_def elem_ok_def split: list.splits)

lemma foldl_clean_ok:
  "list_all elem_ok out \<Longrightarrow> \<forall>seg \<in> set segs. CHR ''/'' \<notin> set seg \<Longrightarrow>
     list_all elem_ok (foldl (clean_step r) out segs)"
  by (induction segs arbitrary: out) (auto simp: clean_step_ok)

lemma clean_elems_ok: "list_all elem_ok (clean_elems p)"
  unfolding clean_elems_def
  by (simp add: foldl_clean_ok Split_pieces)

lemma JoinStrings_Cons:
  "es \<noteq> [] \<Longrightarrow> JoinStrings (e # es) sep = e @ sep @ JoinStrings es sep"
  by (cases es) auto

lemma Split_JoinStrings:
  "list_all elem_ok es \<Longrightarrow> es \<noteq> [] \<Longrightarrow> Split (CHR ''/'') (JoinStrings es ''/'') = es"
proof (induction es)
  case Nil
  then show ?case by simp
next
  case (Cons e es)
  then have e: "CHR ''/'' \<notin> set e" by (simp add: elem_ok_def)
  show ?case
  proof (cases "es = []")
    case True
    with e show ?thesis by (simp add: Split_no_sep)
  next
    case False
    with Cons e show ?thesis
      using Split_append_sep [of "CHR ''/''" e "JoinStrings es ''/''"]
      by (simp add: JoinStrings_Cons)
  qed
qed

lemma path_elems_rooted: "list_all elem_ok es \<Longrightarrow> path_elems (rooted es) = es"
proof (cases "es = []")
  case True
  then show ?thesis by (simp add: path_elems_def rooted_def)
next
  case False
  assume ok: "list_all elem_ok es"
  then have "filter (\<lambda>s. s \<noteq> []) es = es"
    by (induction es) (auto simp: elem_ok_def)
  with ok False show ?thesis
    by (simp add: path_elems_def rooted_def Split_JoinStrings)
qed

lemma prefix_elem:
  assumes "CHR ''/'' \<notin> set r" and "CHR ''/'' \<notin> set s" and "Y = [] \<or> hd Y = CHR ''/''"
  shows "prefix (r @ CHR ''/'' # X) (s @ Y) \<longleftrightarrow> r = s \<and> prefix (CHR ''/'' # X) Y"
  using assms
proof (induction r arbitrary: s)
  case Nil
  then show ?case by (cases s) auto
next
  case (Cons a r)
  show ?case
  proof (cases s)
    case Nil
    with Cons.prems show ?thesis by (cases Y) auto
  next
    case (Cons b s')
    with Cons.prems Cons.IH [of s'] show ?thesis by auto
  qed
qed

lemma rooted_slashed: "es \<noteq> [] \<Longrightarrow> rooted es = slashed es"
proof (induction es)
  case Nil
  then show ?case by simp
next
  case (Cons e es)
  then show ?case
    by (cases "es = []") (auto simp: rooted_def slashed_def JoinStrings_Cons)
qed

lemma slashed_front: "slashed es = [] \<or> hd (slashed es) = CHR ''/''"
  by (cases es) (auto simp: slashed_def)

lemma prefix_slashed:
  "list_all elem_ok rs \<Longrightarrow> list_all elem_ok ps \<Longrightarrow>
     prefix (slashed rs @ ''/'') (slashed ps) \<longleftrightarrow> (\<exists>q. q \<noteq> [] \<and> ps = rs @ q)"
proof (induction rs arbitrary: ps)
  case Nil
  then show ?case by (cases ps) (auto simp: slashed_def)
next
  case (Cons r rs)
  show ?case
  proof (cases ps)
    case Nil
    then show ?thesis by (simp add: slashed_def)
  next
    case (Cons s ps')
    from Cons.prems \<open>ps = s # ps'\<close>
    have "elem_ok r" and "elem_ok s"
      and rs: "list_all elem_ok rs" and ps': "list_all elem_ok ps'"
      by simp_all
    then have r: "CHR ''/'' \<notin> set r" and s: "CHR ''/'' \<notin> set s"
      by (simp_all add: elem_ok_def)
    obtain X where X: "slashed rs @ ''/'' = CHR ''/'' # X"
      by (cases rs) (auto simp: slashed_def)
    have "prefix (slashed (r # rs) @ ''/'') (slashed ps)
            \<longleftrightarrow> prefix (r @ CHR ''/'' # X) (s @ slashed ps')"
      using X by (simp add: slashed_def \<open>ps = s # ps'\<close>)
    also have "\<dots> \<longleftrightarrow> r = s \<and> prefix (CHR ''/'' # X) (slashed ps')"
      using r s slashed_front [of ps'] by (rule prefix_elem)
    also have "\<dots> \<longleftrightarrow> r = s \<and> (\<exists>q. q \<noteq> [] \<and> ps' = rs @ q)"
      using Cons.IH [OF rs ps'] X by simp
    also have "\<dots> \<longleftrightarrow> (\<exists>q. q \<noteq> [] \<and> ps = (r # rs) @ q)"
      by (auto simp: \<open>ps = s # ps'\<close>)
    finally show ?thesis .
  qed
qed

lemma prefix_rooted:
  assumes "list_all elem_ok rs" and "list_all elem_ok ps"
  shows "prefix (rooted rs @ ''/'') (rooted ps) \<longleftrightarrow> rs \<noteq> [] \<and> strict_prefix rs ps"
proof (cases "rs = []")
  case True
  show ?thesis
  proof (cases ps)
    case Nil
    with True show ?thesis by (simp add: rooted_def)
  next
    case (Cons s ps')
    with assms(2) obtain c s' where "s = c # s'" "c \<noteq> CHR ''/''"
      by (cases s) (auto simp: elem_ok_def)
    with True Cons show ?thesis
      by (cases ps') (auto simp: rooted_def)
  qed
next
  case False
  show ?thesis
  proof (cases "ps = []")
    case True
    obtain r rs' where "rs = r # rs'" using False by (cases rs) auto
    with assms(1) obtain c r' where "r = c # r'" by (cases r) (auto simp: elem_ok_def)
    with \<open>rs = r # rs'\<close> True False show ?thesis
      by (simp add: rooted_slashed) (simp add: rooted_def slashed_def)
  next
    case ps: False
    have "prefix (rooted rs @ ''/'') (rooted ps) \<longleftrightarrow> (\<exists>q. q \<noteq> [] \<and> ps = rs @ q)"
      using False ps prefix_slashed [OF assms] by (simp add: rooted_slashed)
    also have "\<dots> \<longleftrightarrow> strict_prefix rs ps"
      by (auto simp: strict_prefix_def prefix_def)
    finally show ?thesis using False by simp
  qed
qed

lemma Clean_abs: "IsAbs p \<Longrightarrow> Clean p = rooted (clean_elems p)"
  by (simp add: Clean_def rooted_def)

lemma Abs_rooted:
  assumes "wd = Some w" and "IsAbs w"
  shows "\<exists>es. Abs wd p = Some (rooted es) \<and> list_all elem_ok es"
proof (cases "IsAbs p")
  case True
  then show ?thesis by (auto simp: Abs_def Clean_abs clean_elems_ok)
next
  case False
  from assms(2) have w: "w \<noteq> []" and "IsAbs (w @ ''/'' @ p)"
    by (auto simp: IsAbs_def HasPrefix_def)
  then have "Join [w, p] = rooted (clean_elems (w @ ''/'' @ p))"
    by (simp add: Clean_abs)
  with False assms(1) show ?thesis by (auto simp: Abs_def clean_elems_ok)
qed

lemma Abs_resolution:
  assumes "cwd e = Some w" and "IsAbs w"
  shows "\<exists>es. Abs (cwd e) p = Some (rooted es) \<and> resolution e p = Some es \<and> list_all elem_ok es"
proof -
  from Abs_rooted [OF assms] obtain es where
    "Abs (cwd e) p = Some (rooted es)" "list_all elem_ok es" by blast
  then show ?thesis by (simp add: resolution_def path_elems_rooted)
qed

lemma ReadEntry_resolved:
  assumes "cwd e = Some w" and "IsAbs w"
    and "resolution e (projectPath s) \<noteq> Some []" and "resolution e (userPath s) \<noteq> Some []"
  shows "\<exists>absPath. Abs (cwd e) path = Some absPath \<and>
           ReadEntry L e s path =
             (if strictly_inside e (projectPath s) path \<or> strictly_inside e (userPath s) path
              then (case os_ReadFile e absPath of
                      Inl err \<Rightarrow> Inl (ReadFailed err)
                    | Inr data \<Rightarrow> parseJournalEntry L absPath data)
              else Inl OutsideRoots)"
proof -
  from Abs_resolution [OF assms(1,2)] obtain qs where
    q: "Abs (cwd e) path = Some (rooted qs)" "resolution e path = Some qs" "list_all elem_ok qs"
    by blast
  from Abs_resolution [OF assms(1,2)] obtain ps where
    p: "Abs (cwd e) (projectPath s) = Some (rooted ps)"
      "resolution e (projectPath s) = Some ps" "list_all elem_ok ps"
    by blast
  from Abs_resolution [OF assms(1,2)] obtain us where
    u: "Abs (cwd e) (userPath s) = Some (rooted us)"
      "resolution e (userPath s) = Some us" "list_all elem_ok us"
    by blast
  have pp: "HasPrefix (rooted qs) (rooted ps @ ''/'') \<longleftrightarrow> strictly_inside e (projectPath s) path"
    using prefix_rooted [OF p(3) q(3)] assms(3) p(2) q(2)
    by (simp add: HasPrefix_def strictly_inside_def)
  have uu: "HasPrefix (rooted qs) (rooted us @ ''/'') \<longleftrightarrow> strictly_inside e (userPath s) path"
    using prefix_rooted [OF u(3) q(3)] assms(4) u(2) q(2)
    by (simp add: HasPrefix_def strictly_inside_def)
  have "ReadEntry L e s path =
          (if strictly_inside e (projectPath s) path \<or> strictly_inside e (userPath s) path
           then (case os_ReadFile e (rooted qs) of
                   Inl err \<Rightarrow> Inl (ReadFailed err)
                 | Inr data \<Rightarrow> parseJournalEntry L (rooted qs) data)
           else Inl OutsideRoots)"
    using pp uu by (simp add: ReadEntry_def q(1) p(1) u(1) Let_def)
  with q(1) show ?thesis by blast
qed

text \<open>
  Claim C1, amended.  A path has no absolute form exactly when it is relative and
  the working directory is unknown, and then \<open>ReadEntry\<close> fails with \<open>InvalidPath\<close>.
  When the working directory is known and neither root resolves to the root of the
  file system, \<open>ReadEntry\<close> resolves the path and reads the file exactly when the
  resolved path lies strictly inside the resolved project root or the resolved user
  root; every other path is refused with \<open>OutsideRoots\<close>, before the file system is
  touched.
\<close>

theorem ReadEntry_contained:
  "(resolution e path = None \<longleftrightarrow> \<not> IsAbs path \<and> cwd e = None)
   \<and> (resolution e path = None \<longrightarrow> ReadEntry L e s path = Inl InvalidPath)
   \<and> (cwd e = Some w \<and> IsAbs w \<and>
       resolution e (projectPath s) \<noteq> Some [] \<and> resolution e (userPath s) \<noteq> Some [] \<longrightarrow>
       (\<exists>absPath. Abs (cwd e) path = Some absPath \<and>
          ReadEntry L e s path =
            (if strictly_inside e (projectPath s) path \<or> strictly_inside e (userPath s) path
             then (case os_ReadFile e absPath of
                     Inl err \<Rightarrow> Inl (ReadFailed err)
                   | Inr data \<Rightarrow> parseJournalEntry L absPath data)
             else Inl OutsideRoots)))"
proof (intro conjI impI)
  show "resolution e path = None \<longleftrightarrow> \<not> IsAbs path \<and> cwd e = None"
    by (auto simp: resolution_def Abs_def simp del: Join.simps split: option.splits)
next
  assume "resolution e path = None"
  then show "ReadEntry L e s path = Inl InvalidPath"
    by (simp add: resolution_def ReadEntry_def)
next
  assume "cwd e = Some w \<and> IsAbs w \<and>
       resolution e (projectPath s) \<noteq> Some [] \<and> resolution e (userPath s) \<noteq> Some []"
  then have "cwd e = Some w" "IsAbs w" "resolution e (projectPath s) \<noteq> Some []"
    "resolution e (userPath s) \<noteq> Some []"
    by simp_all
  then show "\<exists>absPath. Abs (cwd e) path = Some absPath \<and>
          ReadEntry L e s path =
            (if strictly_inside e (projectPath s) path \<or> strictly_inside e (userPath s) path
             then (case os_ReadFile e absPath of
                     Inl err \<Rightarrow> Inl (ReadFailed err)
                   | Inr data \<Rightarrow> parseJournalEntry L absPath data)
             else Inl OutsideRoots)"
    by (rule ReadEntry_resolved)
qed

lemma sample_resolutions:
  "resolution sample_env (projectPath sample_store) = Some [''w'', ''proj'']"
  "resolution sample_env (userPath sample_store) = Some [''w'', ''user'']"
  "resolution sample_env ''user/2024-01-01/../2024-01-02/03-04-05-000000-a1b2c3d4.md''
     = Some [''w'', ''user'', ''2024-01-02'', ''03-04-05-000000-a1b2c3d4.md'']"
  "resolution sample_env ''/w/user/../secret.txt'' = Some [''w'', ''secret.txt'']"
  "resolution sample_env ''/'' = Some []"
  "resolution sample_env path_a
     = Some [''w'', ''user'', ''2024-01-02'', ''03-04-05-000000-a1b2c3d4.md'']"
  by (simp_all add: resolution_def sample_env_def sample_store_def path_a_def path_eval)

lemma sample_abs:
  "Abs (cwd sample_env) ''user/2024-01-01/../2024-01-02/03-04-05-000000-a1b2c3d4.md''
     = Some path_a"
  "Abs (cwd sample_env) ''/w/user/../secret.txt'' = Some ''/w/secret.txt''"
  "Abs (cwd sample_env) path_a = Some path_a"
  by (simp_all add: sample_env_def path_a_def path_eval)

lemma sample_read_a: "os_ReadFile sample_env path_a = Inr jfile_a"
  by (simp add: os_ReadFile_def os_Stat_def sample_env_def path_a_def path_eval
      sample_user_root_def user_dirs_def)

lemma sample_read_a_nowd: "os_ReadFile env_nowd path_a = Inr jfile_a"
  by (simp add: os_ReadFile_def os_Stat_def env_nowd_def sample_env_def path_a_def path_eval
      sample_user_root_def user_dirs_def)

lemma entry_a_path: "entry_a\<lparr>je_FilePath := path_a\<rparr> = entry_a"
  by (simp add: entry_a_def path_a_def)

theorem ReadEntry_contained_witness:
  "cwd sample_env = Some ''/w'' \<and> IsAbs ''/w''
   \<and> resolution sample_env (projectPath sample_store) = Some [''w'', ''proj'']
   \<and> resolution sample_env (userPath sample_store) = Some [''w'', ''user'']
   \<and> ReadEntry ref_libs sample_env sample_store
        ''user/2024-01-01/../2024-01-02/03-04-05-000000-a1b2c3d4.md'' = Inr entry_a
   \<and> ReadEntry ref_libs sample_env sample_store ''/w/user/../secret.txt'' = Inl OutsideRoots
   \<and> resolution env_nowd ''user/x.md'' = None
   \<and> ReadEntry ref_libs env_nowd sample_store ''user/x.md'' = Inl InvalidPath"
proof -
  have h1: "cwd sample_env = Some ''/w''" by (simp add: sample_env_def)
  have h2: "IsAbs ''/w''" by (simp add: IsAbs_def HasPrefix_def)
  have h3: "resolution sample_env (projectPath sample_store) \<noteq> Some []"
    and h4: "resolution sample_env (userPath sample_store) \<noteq> Some []"
    by (simp_all add: sample_resolutions)
  have h: "cwd sample_env = Some ''/w'' \<and> IsAbs ''/w'' \<and>
       resolution sample_env (projectPath sample_store) \<noteq> Some [] \<and>
       resolution sample_env (userPath sample_store) \<noteq> Some []"
    using h1 h2 h3 h4 by (intro conjI)
  note T = ReadEntry_contained [where e = sample_env and w = "''/w''" and s = sample_store
      and L = ref_libs, THEN conjunct2, THEN conjunct2, THEN mp, OF h]
  have a: "ReadEntry ref_libs sample_env sample_store
             ''user/2024-01-01/../2024-01-02/03-04-05-000000-a1b2c3d4.md'' = Inr entry_a"
    using T [of "''user/2024-01-01/../2024-01-02/03-04-05-000000-a1b2c3d4.md''"]
    by (auto simp: sample_abs strictly_inside_def sample_resolutions sample_read_a
        parse_jfile_a entry_a_path)
  have b: "ReadEntry ref_libs sample_env sample_store ''/w/user/../secret.txt''
             = Inl OutsideRoots"
    using T [of "''/w/user/../secret.txt''"]
    by (auto simp: sample_abs strictly_inside_def sample_resolutions)
  note N = ReadEntry_contained [where e = env_nowd and path = "''user/x.md''"
      and s = sample_store and L = ref_libs]
  have "\<not> IsAbs ''user/x.md'' \<and> cwd env_nowd = None"
    by (simp add: IsAbs_def HasPrefix_def env_nowd_def)
  with N [THEN conjunct1] have c: "resolution env_nowd ''user/x.md'' = None" by (rule iffD2)
  with N [THEN conjunct2, THEN conjunct1]
  have d: "ReadEntry ref_libs env_nowd sample_store ''user/x.md'' = Inl InvalidPath"
    by (rule mp)
  from h1 h2 a b c d show ?thesis by (simp add: sample_resolutions)
qed

text \<open>Three reads that the unamended sentence gets wrong: a relative path without a
  working directory is refused as invalid, not as outside the roots; under a root that is
  the root of the file system every path is refused; and with relative roots and no working
  directory an absolute path outside the roots is read.\<close>

theorem ReadEntry_containment_counterexample:
  "resolution env_nowd ''x.md'' = None
   \<and> ReadEntry ref_libs env_nowd sample_store ''x.md'' = Inl InvalidPath
   \<and> strictly_inside sample_env (projectPath root_store) path_a
   \<and> ReadEntry ref_libs sample_env root_store path_a = Inl OutsideRoots
   \<and> \<not> strictly_inside env_nowd (projectPath rel_store) path_a
   \<and> \<not> strictly_inside env_nowd (userPath rel_store) path_a
   \<and> ReadEntry ref_libs env_nowd rel_store path_a = Inr entry_a"
proof -
  have a: "resolution env_nowd ''x.md'' = None
           \<and> ReadEntry ref_libs env_nowd sample_store ''x.md'' = Inl InvalidPath"
    by (simp add: resolution_def ReadEntry_def env_nowd_def Abs_def IsAbs_def HasPrefix_def)
  have b: "strictly_inside sample_env (projectPath root_store) path_a
           \<and> ReadEntry ref_libs sample_env root_store path_a = Inl OutsideRoots"
    by (simp add: strictly_inside_def root_store_def sample_resolutions ReadEntry_def
        sample_abs)
       (simp add: sample_env_def path_a_def path_eval)
  have abs: "Abs (cwd env_nowd) path_a = Some path_a"
    "Abs (cwd env_nowd) ''journal'' = None" "Abs (cwd env_nowd) ''notes'' = None"
    by (simp_all add: env_nowd_def path_a_def path_eval)
  have pre: "HasPrefix path_a ''/''"
    by (simp add: HasPrefix_def path_a_def)
  have c: "\<not> strictly_inside env_nowd (projectPath rel_store) path_a
           \<and> \<not> strictly_inside env_nowd (userPath rel_store) path_a
           \<and> ReadEntry ref_libs env_nowd rel_store path_a = Inr entry_a"
    by (simp add: strictly_inside_def resolution_def rel_store_def ReadEntry_def abs pre
        sample_read_a_nowd parse_jfile_a entry_a_path)
  from a b c show ?thesis by blast
qed


section \<open>Paths under the working directory\<close>

lemma proper_elem_ok: "proper s \<Longrightarrow> elem_ok s"
  by (simp add: proper_def elem_ok_def)

lemma propers_elem_ok: "list_all proper es \<Longrightarrow> list_all elem_ok es"
  by (induction es) (auto simp: proper_elem_ok)

lemma Split_append: "Split c (xs @ c # ys) = Split c xs @ Split c ys"
  by (induction xs) (auto split: list.splits simp: Split_not_Nil)

lemma clean_step_proper:
  "list_all proper out \<Longrightarrow> CHR ''/'' \<notin> set seg \<Longrightarrow> list_all proper (clean_step True out seg)"
  by (auto simp: clean_step_def proper_def split: list.splits)

lemma foldl_clean_proper:
  "list_all proper out \<Longrightarrow> \<forall>seg \<in> set segs. CHR ''/'' \<notin> set seg \<Longrightarrow>
     list_all proper (foldl (clean_step True) out segs)"
  by (induction segs arbitrary: out) (auto simp: clean_step_proper)

lemma clean_step_push: "proper y \<Longrightarrow> clean_step r out y = y # out"
  by (simp add: clean_step_def proper_def)

lemma foldl_clean_propers:
  "list_all proper es \<Longrightarrow> foldl (clean_step r) out es = rev es @ out"
  by (induction es arbitrary: out) (auto simp: clean_step_push)

lemma abs_elems_proper: "list_all proper (abs_elems w p)"
  unfolding abs_elems_def
  by (auto intro!: foldl_clean_proper dest: Split_pieces)

lemma Abs_elems:
  assumes "IsAbs w"
  shows "Abs (Some w) p = Some (rooted (abs_elems w p))"
proof (cases "IsAbs p")
  case True
  then show ?thesis by (simp add: Abs_def Clean_abs clean_elems_def abs_elems_def)
next
  case False
  from assms have w: "w \<noteq> []" and a: "IsAbs (w @ ''/'' @ p)"
    by (auto simp: IsAbs_def HasPrefix_def)
  from w have "Join [w, p] = Clean (w @ ''/'' @ p)" by simp
  also have "\<dots> = rooted (clean_elems (w @ ''/'' @ p))" using a by (rule Clean_abs)
  also have "clean_elems (w @ ''/'' @ p) = abs_elems w p"
    using a False by (simp add: clean_elems_def abs_elems_def Split_append)
  finally show ?thesis using False by (simp add: Abs_def del: Join.simps)
qed

lemma resolution_elems:
  assumes "cwd e = Some w" and "IsAbs w"
  shows "resolution e p = Some (abs_elems w p)"
  using Abs_elems [OF assms(2), of p] assms(1)
  by (simp add: resolution_def path_elems_rooted propers_elem_ok abs_elems_proper)

text \<open>A relative path and its cleaned form act alike on the elements before them.\<close>

lemma clean_step_rel:
  assumes "\<forall>s \<in> set acc. s \<noteq> [] \<and> s \<noteq> ''.''"
  shows "foldl (clean_step True) out (rev (clean_step False acc seg))
         = clean_step True (foldl (clean_step True) out (rev acc)) seg"
proof (cases "seg = [] \<or> seg = ''.''")
  case True
  then show ?thesis by (auto simp: clean_step_def)
next
  case False
  show ?thesis
  proof (cases "seg = ''..''")
    case dots: True
    show ?thesis
    proof (cases acc)
      case Nil
      with dots show ?thesis by (simp add: clean_step_def)
    next
      case (Cons s rest)
      show ?thesis
      proof (cases "s = ''..''")
        case True
        with Cons dots show ?thesis by (simp add: clean_step_def)
      next
        case ns: False
        from assms Cons have "s \<noteq> []" "s \<noteq> ''.''" by auto
        with ns have "clean_step True (foldl (clean_step True) out (rev rest)) s
                      = s # foldl (clean_step True) out (rev rest)"
          by (simp add: clean_step_def)
        with Cons dots ns show ?thesis by (simp add: clean_step_def)
      qed
    qed
  next
    case nd: False
    with False show ?thesis by (simp add: clean_step_def)
  qed
qed

lemma clean_step_rel_inv:
  "\<forall>s \<in> set acc. s \<noteq> [] \<and> s \<noteq> ''.'' \<Longrightarrow>
   \<forall>s \<in> set (clean_step False acc seg). s \<noteq> [] \<and> s \<noteq> ''.''"
  by (auto simp: clean_step_def split: list.splits if_splits)

lemma foldl_clean_rel:
  "\<forall>s \<in> set acc. s \<noteq> [] \<and> s \<noteq> ''.'' \<Longrightarrow>
   foldl (clean_step True) out (rev (foldl (clean_step False) acc segs))
   = foldl (clean_step True) (foldl (clean_step True) out (rev acc)) segs"
proof (induction segs arbitrary: acc)
  case Nil
  then show ?case by simp
next
  case (Cons seg segs)
  from Cons.prems have "\<forall>s \<in> set (clean_step False acc seg). s \<noteq> [] \<and> s \<noteq> ''.''"
    by (rule clean_step_rel_inv)
  from Cons.IH [OF this] show ?case
    by (simp add: clean_step_rel [OF Cons.prems])
qed

lemma JoinStrings_not_abs:
  "list_all elem_ok es \<Longrightarrow> \<not> IsAbs (JoinStrings es ''/'')"
proof (cases es)
  case Nil
  then show ?thesis by (simp add: IsAbs_def HasPrefix_def)
next
  case (Cons e rest)
  assume "list_all elem_ok es"
  with Cons have "e \<noteq> []" "CHR ''/'' \<notin> set e" by (auto simp: elem_ok_def)
  then have "hd e \<noteq> CHR ''/''" by (cases e) auto
  with \<open>e \<noteq> []\<close> Cons show ?thesis
    by (cases e; cases rest) (auto simp: IsAbs_def HasPrefix_def)
qed

lemma Clean_rel:
  assumes "\<not> IsAbs q"
  shows "\<not> IsAbs (Clean q)"
    and "foldl (clean_step True) out (Split (CHR ''/'') (Clean q))
         = foldl (clean_step True) out (Split (CHR ''/'') q)"
proof -
  show "\<not> IsAbs (Clean q)"
    using assms JoinStrings_not_abs [OF clean_elems_ok, of q]
    by (simp add: Clean_def IsAbs_def HasPrefix_def)
  have "foldl (clean_step True) out (Split (CHR ''/'') (Clean q))
        = foldl (clean_step True) out (clean_elems q)"
  proof (cases "clean_elems q = []")
    case True
    with assms show ?thesis by (simp add: Clean_def clean_step_def)
  next
    case False
    with assms show ?thesis by (simp add: Clean_def Split_JoinStrings clean_elems_ok)
  qed
  also have "\<dots> = foldl (clean_step True) out (Split (CHR ''/'') q)"
    using assms foldl_clean_rel [of "[]" out "Split (CHR ''/'') q"]
    by (simp add: clean_elems_def)
  finally show "foldl (clean_step True) out (Split (CHR ''/'') (Clean q))
         = foldl (clean_step True) out (Split (CHR ''/'') q)" .
qed

lemma Split_rooted:
  "list_all proper es \<Longrightarrow>
     foldl (clean_step True) [] (Split (CHR ''/'') (rooted es)) = rev es"
proof (cases "es = []")
  case True
  then show ?thesis by (simp add: rooted_def clean_step_def)
next
  case False
  assume p: "list_all proper es"
  with False have "Split (CHR ''/'') (rooted es) = [] # es"
    by (simp add: rooted_def Split_JoinStrings propers_elem_ok)
  with p show ?thesis by (simp add: foldl_clean_propers) (simp add: clean_step_def)
qed

lemma rooted_abs: "IsAbs (rooted es)"
  by (simp add: rooted_def IsAbs_def HasPrefix_def)

lemma abs_elems_rooted: "list_all proper es \<Longrightarrow> abs_elems w (rooted es) = es"
  by (simp add: abs_elems_def rooted_abs Split_rooted)

lemma abs_elems_Clean: "abs_elems w (Clean q) = abs_elems w q"
proof (cases "IsAbs q")
  case True
  have "list_all proper (clean_elems q)"
    using True abs_elems_proper [of w q] by (simp add: abs_elems_def clean_elems_def)
  then have "abs_elems w (rooted (clean_elems q)) = clean_elems q"
    by (rule abs_elems_rooted)
  with True show ?thesis by (simp add: Clean_abs) (simp add: abs_elems_def clean_elems_def)
next
  case False
  from Clean_rel [OF False] False show ?thesis by (simp add: abs_elems_def)
qed

lemma proper_not_abs: "proper y \<Longrightarrow> \<not> IsAbs y"
  by (cases y) (auto simp: proper_def IsAbs_def HasPrefix_def)

lemma abs_elems_Join:
  assumes "proper y"
  shows "abs_elems w (Join [x, y]) = abs_elems w x @ [y]"
proof (cases "x = []")
  case True
  from assms have s: "Split (CHR ''/'') y = [y]" by (simp add: Split_no_sep proper_def)
  have "abs_elems w (Join [x, y]) = abs_elems w y" using True by (simp add: abs_elems_Clean)
  also have "\<dots> = abs_elems w x @ [y]"
    using True assms s proper_not_abs [OF assms]
    by (simp add: abs_elems_def clean_step_push IsAbs_def HasPrefix_def)
       (simp add: clean_step_def)
  finally show ?thesis .
next
  case False
  from assms have s: "Split (CHR ''/'') (x @ CHR ''/'' # y) = Split (CHR ''/'') x @ [y]"
    by (simp add: Split_append Split_no_sep proper_def)
  from False have a: "IsAbs (x @ CHR ''/'' # y) = IsAbs x"
    by (cases x) (auto simp: IsAbs_def HasPrefix_def)
  have "abs_elems w (Join [x, y]) = abs_elems w (x @ CHR ''/'' # y)"
    using False by (simp add: abs_elems_Clean)
  also have "\<dots> = abs_elems w x @ [y]"
    using assms by (simp add: abs_elems_def s a clean_step_push)
  finally show ?thesis .
qed

text \<open>The system and the text agree on a rooted path of proper elements.\<close>

lemma lookup_append:
  "lookup n (ps @ qs) = (case lookup n ps of Inl err \<Rightarrow> Inl err | Inr m \<Rightarrow> lookup m qs)"
  by (induction n ps rule: lookup.induct) (auto split: option.splits)

lemma search_lookup: "search n = Some err \<Longrightarrow> lookup n (c # cs) = Inl err"
  by (cases n) auto

lemma search_Dir: "search n = None \<Longrightarrow> \<exists>es. n = Dir es"
  by (cases n) auto

lemma lookup_name:
  "lookup (Dir es) (c # cs) =
     (case lookup (Dir es) [c] of Inl err \<Rightarrow> Inl err | Inr m \<Rightarrow> lookup m cs)"
  by (auto split: option.splits)

lemma resolve_propers:
  "list_all proper cs \<Longrightarrow>
     (case resolve root pos cs of Inl err \<Rightarrow> Inl err | Inr q \<Rightarrow> lookup root q)
     = lookup root (pos @ cs)"
proof (induction cs arbitrary: pos)
  case Nil
  then show ?case by simp
next
  case (Cons c cs)
  then have pc: "proper c" and cs: "list_all proper cs" by simp_all
  from pc have c: "c \<noteq> []" "c \<noteq> ''.''" "c \<noteq> ''..''"
    by (simp_all add: proper_def)
  show ?case
  proof (cases "lookup root pos")
    case (Inl err)
    then show ?thesis by (simp add: lookup_append)
  next
    case (Inr n)
    show ?thesis
    proof (cases "search n")
      case (Some err)
      with Inr c show ?thesis by (simp add: lookup_append search_lookup)
    next
      case None
      then obtain es where n: "n = Dir es" by (auto dest: search_Dir)
      show ?thesis
      proof (cases "lookup (Dir es) [c]")
        case (Inl err)
        with Inr None c n show ?thesis
          by (simp add: lookup_append split: option.splits)
      next
        case m: (Inr m)
        have "lookup root ((pos @ [c]) @ cs) = lookup m cs"
          using Inr n m by (simp add: lookup_append del: append_assoc lookup.simps)
        moreover have "lookup root (pos @ c # cs) = lookup m cs"
          using Inr n m lookup_name [of es c cs] by (simp add: lookup_append del: lookup.simps)
        moreover have "lookup root (pos @ [c]) = Inr m"
          using Inr n m by (simp add: lookup_append del: lookup.simps)
        ultimately show ?thesis
          using Inr None c Cons.IH [OF cs, of "pos @ [c]"] by simp
      qed
    qed
  qed
qed

lemma os_Stat_rooted:
  assumes "list_all proper es" and "es \<noteq> []"
  shows "os_Stat e (rooted es) = lookup (fs e) es"
proof -
  have sp: "Split (CHR ''/'') (rooted es) = [] # es"
    using assms by (simp add: rooted_def Split_JoinStrings propers_elem_ok)
  have r: "(case resolve (fs e) [] es of Inl err \<Rightarrow> Inl err | Inr q \<Rightarrow> lookup (fs e) q)
           = lookup (fs e) es"
    using resolve_propers [OF assms(1), of "fs e" "[]"] by simp
  obtain c cs where es: "es = c # cs" using assms(2) by (cases es) auto
  have "\<not> IsDir (fs e) \<Longrightarrow> lookup (fs e) es = Inl ENOTDIR"
    by (cases "fs e") (simp_all add: es)
  with r show ?thesis
    by (simp add: os_Stat_def rooted_abs sp) (simp add: rooted_def)
qed

text \<open>Reading below a root.\<close>

lemma ReadEntry_below:
  assumes "cwd e = Some w" and "IsAbs w"
    and "root = projectPath s \<or> root = userPath s"
    and "abs_elems w root \<noteq> []"
    and "strict_prefix (abs_elems w root) (abs_elems w path)"
  shows "ReadEntry L e s path =
           (case os_ReadFile e (rooted (abs_elems w path)) of
              Inl err \<Rightarrow> Inl (ReadFailed err)
            | Inr data \<Rightarrow> parseJournalEntry L (rooted (abs_elems w path)) data)"
proof -
  have pre: "HasPrefix (rooted (abs_elems w path)) (rooted (abs_elems w root) @ ''/'')"
    using prefix_rooted [of "abs_elems w root" "abs_elems w path"] assms(4,5)
    by (simp add: HasPrefix_def propers_elem_ok abs_elems_proper)
  from assms(3) show ?thesis
  proof
    assume "root = projectPath s"
    with pre show ?thesis
      by (simp add: ReadEntry_def assms(1) Abs_elems [OF assms(2)] Let_def)
  next
    assume "root = userPath s"
    with pre show ?thesis
      by (simp add: ReadEntry_def assms(1) Abs_elems [OF assms(2)] Let_def)
  qed
qed

text \<open>Writing, then reading.\<close>

lemma lookup_fresh: "lookup (fresh ss d) ss = Inr (File d)"
  by (induction ss) auto

lemma put_lookup: "put n p d = Inr n' \<Longrightarrow> lookup n' p = Inr (File d)"
proof (induction n p d arbitrary: n' rule: put.induct)
  case (5 es s ss data)
  then show ?case
    by (auto simp: update_conv' lookup_fresh split: option.splits sum.splits)
qed auto

lemma AtomicWrite_read:
  assumes "AtomicWrite e path content = Inr e'" and "cwd e = Some w" and "IsAbs w"
    and "abs_elems w path \<noteq> []"
  shows "cwd e' = Some w"
    and "os_ReadFile e' (rooted (abs_elems w path)) = Inr content"
proof -
  from assms obtain n where
    n: "put (fs e) (abs_elems w path) content = Inr n" "e' = e\<lparr>fs := n\<rparr>"
    by (auto simp: AtomicWrite_def Abs_elems path_elems_rooted propers_elem_ok abs_elems_proper
        split: sum.splits)
  with assms(2) show "cwd e' = Some w" by simp
  from n assms(2) put_lookup [OF n(1)]
  show "os_ReadFile e' (rooted (abs_elems w path)) = Inr content"
    by (simp add: os_ReadFile_def os_Stat_rooted [OF abs_elems_proper assms(4)])
qed

section \<open>Journal: the sections of a body\<close>

lemma TrimLeft_suffix: "suffix (TrimLeft s) s"
proof (induction s rule: TrimLeft.induct)
  case (1 s)
  show ?case
  proof (cases "space_front s = 0")
    case True
    then show ?thesis using TrimLeft.simps [of s] by simp
  next
    case False
    with 1 have "suffix (TrimLeft (drop (space_front s) s)) (drop (space_front s) s)" by simp
    then have "suffix (TrimLeft (drop (space_front s) s)) s"
      using suffix_drop suffix_order.trans by blast
    with False show ?thesis using TrimLeft.simps [of s] by simp
  qed
qed

lemma TrimRight_prefix: "prefix (TrimRight s) s"
proof (induction s rule: TrimRight.induct)
  case (1 s)
  show ?case
  proof (cases "space_back s = 0")
    case True
    then show ?thesis using TrimRight.simps [of s] by simp
  next
    case False
    with 1 have "prefix (TrimRight (take (length s - space_back s) s))
                   (take (length s - space_back s) s)" by simp
    then have "prefix (TrimRight (take (length s - space_back s) s)) s"
      using take_is_prefix prefix_order.trans by blast
    with False show ?thesis using TrimRight.simps [of s] by simp
  qed
qed

lemma TrimSpace_fixed:
  assumes "TrimSpace v = v"
  shows "TrimLeft v = v" and "TrimRight v = v"
proof -
  have a: "length (TrimLeft v) \<le> length v"
    using TrimLeft_suffix [of v] by (rule suffix_length_le)
  have "length (TrimRight (TrimLeft v)) \<le> length (TrimLeft v)"
    using TrimRight_prefix [of "TrimLeft v"] by (rule prefix_length_le)
  with assms a have "length (TrimLeft v) = length v" by (simp add: TrimSpace_def)
  moreover obtain zs where "v = zs @ TrimLeft v"
    using TrimLeft_suffix [of v] by (auto simp: suffix_def)
  moreover from this have "length v = length zs + length (TrimLeft v)"
    by (metis length_append)
  ultimately show "TrimLeft v = v" by simp
  with assms show "TrimRight v = v" by (simp add: TrimSpace_def)
qed

lemma space_front_0: "space_front s = 0 \<longleftrightarrow> (\<forall>e \<in> set space_runes. \<not> prefix e s)"
  by (auto simp: space_front_def find_None_iff find_Some_iff space_runes_nonempty
      split: option.splits)

lemma TrimLeft_fixed_front:
  assumes "TrimLeft v = v"
  shows "space_front v = 0"
proof (rule ccontr)
  assume n: "space_front v \<noteq> 0"
  then have "TrimLeft v = TrimLeft (drop (space_front v) v)"
    using TrimLeft.simps [of v] by simp
  moreover have "length (TrimLeft (drop (space_front v) v)) \<le> length (drop (space_front v) v)"
    using TrimLeft_suffix by (rule suffix_length_le)
  moreover have "v \<noteq> []" using n by (rule space_front_pos)
  ultimately show False using assms n by (cases v) auto
qed

lemma space_runes_NL: "e \<in> set space_runes \<Longrightarrow> NL \<notin> set (tl e)"
  by (auto simp: space_runes_def)

lemma space_front_NL:
  assumes "space_front v = 0" and "v \<noteq> []"
  shows "space_front (v @ [NL, NL]) = 0"
proof -
  have "\<not> prefix e (v @ [NL, NL])" if e: "e \<in> set space_runes" for e
  proof
    assume "prefix e (v @ [NL, NL])"
    then have "prefix e v \<or> (\<exists>us. e = v @ us \<and> prefix us [NL, NL])"
      by (simp add: prefix_append)
    then show False
    proof (elim disjE exE conjE)
      assume "prefix e v"
      with assms(1) e show False by (simp add: space_front_0)
    next
      fix us
      assume us: "e = v @ us" "prefix us [NL, NL]"
      show False
      proof (cases "us = []")
        case True
        with us assms(1) e show False by (auto simp: space_front_0)
      next
        case False
        with us(2) have "hd us = NL" by (cases us) auto
        with False us(1) assms(2) have "NL \<in> set (tl e)" by (cases v; cases us) auto
        with e show False by (simp add: space_runes_NL)
      qed
    qed
  qed
  then show ?thesis by (simp add: space_front_0)
qed

lemma space_back_NL: "space_back (s @ [NL]) = 1"
  by (simp add: space_back_def space_runes_def suffix_def)

lemma TrimRight_NL: "TrimRight (s @ [NL]) = TrimRight s"
  using TrimRight.simps [of "s @ [NL]"] by (simp add: space_back_NL)

lemma TrimSpace_lines:
  assumes "TrimSpace v = v" and "v \<noteq> []"
  shows "TrimSpace (v @ [NL, NL]) = v"
proof -
  from TrimSpace_fixed [OF assms(1)] have l: "TrimLeft v = v" and r: "TrimRight v = v" .
  from l have "space_front v = 0" by (rule TrimLeft_fixed_front)
  then have "space_front (v @ [NL, NL]) = 0" using assms(2) by (rule space_front_NL)
  then have "TrimLeft (v @ [NL, NL]) = v @ [NL, NL]"
    using TrimLeft.simps [of "v @ [NL, NL]"] by simp
  moreover have "TrimRight (v @ [NL, NL]) = TrimRight v"
    using TrimRight_NL [of "v @ [NL]"] TrimRight_NL [of v] by simp
  ultimately show ?thesis using r by (simp add: TrimSpace_def)
qed

lemma section_names:
  "list_all (\<lambda>n. SectionKey L (SectionTitle n) = n \<and> n \<noteq> [] \<and> NL \<notin> set (SectionTitle n))
     ValidSections"
  by code_simp

lemma section_name:
  assumes "n \<in> set ValidSections"
  shows "SectionKey L (SectionTitle n) = n" and "n \<noteq> []" and "NL \<notin> set (SectionTitle n)"
  using assms section_names by (auto simp: list_all_iff)

lemma concat_lines: "concat (map (\<lambda>l. l @ [NL]) (Split NL v)) = v @ [NL]"
  by (induction v) (auto split: list.splits simp: Split_not_Nil)

lemma parse_content:
  "cur \<noteq> [] \<Longrightarrow> list_all (\<lambda>l. \<not> HasPrefix l ''## '') ls \<Longrightarrow>
     parse_lines L (ls @ rest) (S, cur, c)
     = parse_lines L rest (S, cur, c @ concat (map (\<lambda>l. l @ [NL]) ls))"
  by (induction ls arbitrary: c) auto

lemma render_parse:
  assumes "set ns \<subseteq> set ValidSections" and "\<forall>n v. m n = Some v \<longrightarrow> plain v"
  shows "finish (parse_lines L (Split NL (render_names m ns)) (S, cur, c))
         = finish (S, cur, c @ [NL]) ++ (m |` set ns)"
  using assms(1)
proof (induction ns arbitrary: S cur c)
  case Nil
  show ?case by (auto simp: finish_def HasPrefix_def fun_eq_iff map_add_def restrict_map_def)
next
  case (Cons n ns)
  then have n: "n \<in> set ValidSections" and ns: "set ns \<subseteq> set ValidSections" by auto
  show ?case
  proof (cases "m n")
    case None
    then have "m |` set (n # ns) = m |` set ns"
      by (auto simp: restrict_map_def fun_eq_iff)
    with None Cons.IH [OF ns] show ?thesis by simp
  next
    case (Some v)
    with assms(2) have pv: "plain v" by simp
    then have v: "v \<noteq> []" "TrimSpace v = v"
      "list_all (\<lambda>l. \<not> HasPrefix l ''## '') (Split NL v)"
      by (simp_all add: plain_def)
    let ?T = "SectionTitle n"
    let ?R = "render_names m ns"
    let ?S = "finish (S, cur, c @ [NL])"
    have "NL \<notin> set (''## '' @ ?T)" using section_name(3) [OF n] by simp
    then have sp: "Split NL (render_names m (n # ns))
                   = [] # (''## '' @ ?T) # (Split NL v @ Split NL ?R)"
      using Some v(1) Split_append_sep [of NL "''## '' @ ?T" "v @ NL # ?R"]
      by (simp add: Split_append)
    have "parse_lines L (Split NL (render_names m (n # ns))) (S, cur, c)
          = parse_lines L ((''## '' @ ?T) # (Split NL v @ Split NL ?R))
              (S, cur, if cur \<noteq> [] then c @ [NL] else c)"
      unfolding sp by (simp add: HasPrefix_def)
    also have "\<dots> = parse_lines L (Split NL v @ Split NL ?R) (?S, n, [])"
      by (simp add: HasPrefix_def TrimPrefix_def section_name(1) [OF n] finish_def)
    also have "\<dots> = parse_lines L (Split NL ?R) (?S, n, v @ [NL])"
      using parse_content [OF section_name(2) [OF n] v(3)] by (simp add: concat_lines)
    finally have "finish (parse_lines L (Split NL (render_names m (n # ns))) (S, cur, c))
                  = finish (?S, n, (v @ [NL]) @ [NL]) ++ (m |` set ns)"
      using Cons.IH [OF ns, of ?S n "v @ [NL]"] by (simp del: render_names.simps)
    also have "finish (?S, n, (v @ [NL]) @ [NL]) = ?S(n \<mapsto> v)"
      using section_name(2) [OF n] TrimSpace_lines [OF v(2,1)] by (simp add: finish_def)
    also have "?S(n \<mapsto> v) ++ (m |` set ns) = ?S ++ (m |` set (n # ns))"
      using Some by (auto simp: map_add_def restrict_map_def fun_eq_iff split: option.splits)
    finally show ?thesis .
  qed
qed

lemma parseSections_finish:
  "parseSections L body = finish (parse_lines L (Split NL body) (Map.empty, [], []))"
  by (simp add: parseSections_def finish_def split: prod.splits)

lemma sections_roundtrip:
  assumes "dom m \<subseteq> set ValidSections" and "\<forall>n v. m n = Some v \<longrightarrow> plain v"
  shows "parseSections L (renderSections m) = m"
proof -
  have "parseSections L (renderSections m) = m |` set ValidSections"
    using render_parse [OF subset_refl assms(2), where S = Map.empty and cur = "[]"
        and c = "[]" and L = L]
    by (simp add: parseSections_finish renderSections_def finish_def)
  also have "\<dots> = m"
  proof
    fix x
    have "m x = None" if "x \<notin> set ValidSections"
      using assms(1) that by (cases "m x") auto
    then show "(m |` set ValidSections) x = m x" by (auto simp: restrict_map_def)
  qed
  finally show ?thesis .
qed


section \<open>Journal: writing an entry, then reading it\<close>

lemma digit_char: "digit n \<in> set ''0123456789''"
  unfolding digit_def by (rule nth_mem) simp

lemma dec_chars: "set (dec n) \<subseteq> set ''0123456789''"
proof (induction n rule: dec.induct)
  case (1 n)
  show ?case
  proof (cases "n < 10")
    case True
    then have "dec n = [digit n]" using dec.simps [of n] by simp
    with digit_char [of n] show ?thesis by simp
  next
    case False
    then have "dec n = dec (n div 10) @ [digit n]" using dec.simps [of n] by simp
    with 1 False digit_char [of n] show ?thesis by simp
  qed
qed

lemma appendInt_no_sep: "CHR ''/'' \<notin> set (appendInt x k)"
  using dec_chars [of "nat \<bar>x\<bar>"] by (auto simp: appendInt_def Let_def)

lemma hex_digit_char: "hex_digit n \<in> set ''0123456789abcdef''"
  unfolding hex_digit_def by (rule nth_mem) simp

lemma uuid_hex_chars: "set (uuid_hex u) \<subseteq> set ''0123456789abcdef''"
  using hex_digit_char by (auto simp: uuid_hex_def)

lemma uuid_String_no_sep: "CHR ''/'' \<notin> set (uuid_String u)"
proof -
  have "set (uuid_String u) \<subseteq> set (uuid_hex u) \<union> {CHR ''-''}"
    by (auto simp: uuid_String_def Let_def dest: in_set_takeD in_set_dropD)
  with uuid_hex_chars [of u] show ?thesis by auto
qed

lemma proper_dash: "CHR ''-'' \<in> set s \<Longrightarrow> CHR ''/'' \<notin> set s \<Longrightarrow> proper s"
  by (auto simp: proper_def)

lemma date_dir_proper:
  "proper (appendInt y 4 @ ''-'' @ appendInt m 2 @ ''-'' @ appendInt d 2)"
  by (rule proper_dash) (simp_all add: appendInt_no_sep)

lemma file_name_proper:
  "proper (appendInt h 2 @ ''-'' @ appendInt m 2 @ ''-'' @ appendInt x 2 @ ''-000000-'' @
           take 8 (uuid_String u) @ ''.md'')"
proof (rule proper_dash)
  have "CHR ''/'' \<notin> set (take 8 (uuid_String u))"
    using uuid_String_no_sep [of u] by (auto dest: in_set_takeD)
  then show "CHR ''/'' \<notin> set (appendInt h 2 @ ''-'' @ appendInt m 2 @ ''-'' @ appendInt x 2 @
                 ''-000000-'' @ take 8 (uuid_String u) @ ''.md'')"
    by (simp add: appendInt_no_sep)
qed simp

lemma WriteEntry_written:
  assumes "WriteEntry L e s entry = Inr (e', entry')"
  shows "\<exists>content.
           RenderJournal L \<lparr>jfm_ID = uuid_String (je_ID entry),
                            jfm_Date = FormatTime L (je_CreatedAt entry),
                            jfm_Type = je_Type entry\<rparr>
             (renderSections (je_Sections entry)) = Some content
           \<and> AtomicWrite e (je_FilePath entry') content = Inr e'"
  using assms
  by (auto simp: WriteEntry_def Let_def simp del: Join.simps split: option.splits sum.splits)

lemma parse_rendered:
  assumes "frontmatter_of L content = Some (fm, body)"
    and "uuid_Parse L (jfm_ID fm) = Some i" and "ParseTime L (jfm_Date fm) = Some t"
  shows "parseJournalEntry L path content =
           Inr \<lparr>je_ID = i, je_Sections = parseSections L body, je_CreatedAt = t,
                je_FilePath = path, je_Type = jfm_Type fm\<rparr>"
  using assms
  by (auto simp: parseJournalEntry_def frontmatter_of_def split: prod.splits if_splits)

lemma written_entry_read:
  assumes wd: "cwd e = Some w" "IsAbs w"
    and root: "resolution e (if je_Type entry = ''project'' then projectPath s else userPath s)
               \<noteq> Some []"
    and codec: "codec_agrees L entry"
    and names: "dom (je_Sections entry) \<subseteq> set ValidSections"
    and texts: "\<forall>n v. je_Sections entry n = Some v \<longrightarrow> plain v"
    and wrote: "WriteEntry L e s entry = Inr (e', entry')"
  shows "ReadEntry L e' s (je_FilePath entry')
         = Inr (entry\<lparr>je_FilePath := rooted (abs_elems w (je_FilePath entry'))\<rparr>)"
proof -
  let ?root = "if je_Type entry = ''project'' then projectPath s else userPath s"
  let ?fm = "\<lparr>jfm_ID = uuid_String (je_ID entry),
              jfm_Date = FormatTime L (je_CreatedAt entry),
              jfm_Type = je_Type entry\<rparr>"
  let ?body = "renderSections (je_Sections entry)"
  let ?path = "je_FilePath entry'"
  from WriteEntry_written [OF wrote] obtain content where
    render: "RenderJournal L ?fm ?body = Some content"
    and written: "AtomicWrite e ?path content = Inr e'"
    by blast
  define d where "d = appendInt (Year (je_CreatedAt entry)) 4 @ ''-'' @
       appendInt (Month (je_CreatedAt entry)) 2 @ ''-'' @
       appendInt (Day (je_CreatedAt entry)) 2"
  define f where "f = appendInt (Hour (je_CreatedAt entry)) 2 @ ''-'' @
       appendInt (Minute (je_CreatedAt entry)) 2 @ ''-'' @
       appendInt (Second (je_CreatedAt entry)) 2 @ ''-000000-'' @
       take 8 (uuid_String (je_ID entry)) @ ''.md''"
  have pd: "proper d" unfolding d_def by (rule date_dir_proper)
  have pf: "proper f" unfolding f_def by (rule file_name_proper)
  have "?path = Join [Join [?root, d], f]"
    unfolding d_def f_def by (rule WriteEntry_path [OF wrote])
  then have elems: "abs_elems w ?path = abs_elems w ?root @ [d, f]"
    by (simp add: abs_elems_Join pd pf del: Join.simps)
  have r: "abs_elems w ?root \<noteq> []"
    using root resolution_elems [OF wd, of ?root] by simp
  have inside: "strict_prefix (abs_elems w ?root) (abs_elems w ?path)"
    unfolding elems by (simp add: strict_prefix_def)
  have "abs_elems w ?path \<noteq> []" unfolding elems by simp
  from AtomicWrite_read [OF written wd this] have
    wd': "cwd e' = Some w"
    and stored: "os_ReadFile e' (rooted (abs_elems w ?path)) = Inr content"
    by simp_all
  have "?root = projectPath s \<or> ?root = userPath s" by simp
  from ReadEntry_below [OF wd' wd(2) this r inside, of L] stored
  have "ReadEntry L e' s ?path = parseJournalEntry L (rooted (abs_elems w ?path)) content"
    by simp
  also from codec render have
    "frontmatter_of L content = Some (?fm, ?body)"
    "uuid_Parse L (jfm_ID ?fm) = Some (je_ID entry)"
    "ParseTime L (jfm_Date ?fm) = Some (je_CreatedAt entry)"
    by (simp_all add: codec_agrees_def Let_def)
  then have "parseJournalEntry L (rooted (abs_elems w ?path)) content
      = Inr \<lparr>je_ID = je_ID entry, je_Sections = parseSections L ?body,
             je_CreatedAt = je_CreatedAt entry,
             je_FilePath = rooted (abs_elems w ?path), je_Type = jfm_Type ?fm\<rparr>"
    by (rule parse_rendered)
  also have "parseSections L ?body = je_Sections entry"
    using names texts by (rule sections_roundtrip)
  finally show ?thesis by simp
qed

text \<open>
  Claim C2, amended.  Let the working directory be known, let the root of the entry's
  type not resolve to the root of the file system, let the packages outside the
  repository agree on this entry (\<open>codec_agrees\<close>), and let every section of the entry
  have a canonical name and a text that is not empty, has no white space at its ends
  and no line beginning with \<open>## \<close>.  Then, when \<open>WriteEntry\<close> succeeds, \<open>ReadEntry\<close> of the
  path it has set returns an entry with the same identifier, type, creation time and
  section map.
\<close>

theorem ReadEntry_after_WriteEntry:
  assumes "cwd e = Some w" and "IsAbs w"
    and "resolution e (if je_Type entry = ''project'' then projectPath s else userPath s)
         \<noteq> Some []"
    and "codec_agrees L entry"
    and "dom (je_Sections entry) \<subseteq> set ValidSections"
    and "\<forall>n v. je_Sections entry n = Some v \<longrightarrow> plain v"
    and "WriteEntry L e s entry = Inr (e', entry')"
  shows "\<exists>r. ReadEntry L e' s (je_FilePath entry') = Inr r \<and>
             je_ID r = je_ID entry \<and> je_Type r = je_Type entry \<and>
             je_CreatedAt r = je_CreatedAt entry \<and> je_Sections r = je_Sections entry"
  using written_entry_read [OF assms] by simp


lemma dec_small: "n < 10 \<Longrightarrow> dec n = [digit n]"
  using dec.simps [of n] by simp

lemma dec_large: "10 \<le> n \<Longrightarrow> dec n = dec (n div 10) @ [digit n]"
  using dec.simps [of n] by simp

lemma FormatTime_a: "ref_FormatTime time_a = ''63839761445123456789 0''"
  by (simp add: ref_FormatTime_def appendInt_def time_a_def dec_small dec_large digit_def)

lemma SectionTitle_feelings: "SectionTitle ''feelings'' = ''Feelings''"
  by code_simp

lemma render_feelings:
  "v \<noteq> [] \<Longrightarrow> renderSections [''feelings'' \<mapsto> v] = NL # ''## Feelings'' @ NL # v @ [NL]"
  by (simp add: renderSections_def ValidSections_def SectionTitle_feelings)

lemma sample_write:
  assumes "v \<noteq> []"
  shows "WriteEntry ref_libs empty_env sample_store (entry_w\<lparr>je_Sections := [''feelings'' \<mapsto> v]\<rparr>)
     = Inr (empty_env\<lparr>fs := fresh [''w'', ''user'', ''2024-01-02'', ''03-04-05-000000-a1b2c3d4.md'']
                (journal_file ''a1b2c3d4-0000-0000-0000-000000000001''
                   ''63839761445123456789 0'' ''user'' v)\<rparr>,
            entry_w\<lparr>je_Sections := [''feelings'' \<mapsto> v], je_FilePath := path_a\<rparr>)"
  using assms
  by (simp add: WriteEntry_def Let_def entry_w_def sample_store_def Format_date Format_time
      time_a_fields uuid_String_samples sample_paths ref_libs_def ref_RenderJournal_def
      AtomicWrite_def empty_env_def path_eval render_feelings FormatTime_a journal_file_def
      unlines_def path_a_def)

lemma sample_written:
  "WriteEntry ref_libs empty_env sample_store entry_w
     = Inr (written_env, entry_w\<lparr>je_FilePath := path_a\<rparr>)"
  using sample_write [of "''fine''"]
  by (simp add: entry_w_def written_env_def jfile_a_def)

lemma sample_read_back:
  "ReadEntry ref_libs
     (empty_env\<lparr>fs := fresh [''w'', ''user'', ''2024-01-02'', ''03-04-05-000000-a1b2c3d4.md'']
                       data\<rparr>) sample_store path_a
   = parseJournalEntry ref_libs path_a data"
  by (simp add: ReadEntry_def empty_env_def sample_store_def path_a_def os_ReadFile_def
      os_Stat_def path_eval)

lemma sample_write_then_read:
  assumes "v \<noteq> []"
  shows "write_then_read ref_libs empty_env sample_store
           (entry_w\<lparr>je_Sections := [''feelings'' \<mapsto> v]\<rparr>)
         = parseJournalEntry ref_libs path_a
             (journal_file ''a1b2c3d4-0000-0000-0000-000000000001''
                ''63839761445123456789 0'' ''user'' v)"
  by (simp add: write_then_read_def sample_write [OF assms] sample_read_back del: fresh.simps)

lemma plain_fine: "plain ''fine''"
  by code_simp

lemma uuid_Parse_a: "ref_uuid_Parse ''a1b2c3d4-0000-0000-0000-000000000001'' = Some id_a"
  by (simp add: ref_uuid_Parse_def hex_value_def id_a_def)

lemma ParseTime_a: "ref_ParseTime ''63839761445123456789 0'' = Some time_a"
  by (simp add: ref_ParseTime_def read_int_def is_digit_def atoi_def time_a_def)

lemma frontmatter_of_sample:
  "frontmatter_of ref_libs
     (journal_file ''a1b2c3d4-0000-0000-0000-000000000001'' ''63839761445123456789 0''
        ''user'' ''fine'')
   = Some (\<lparr>jfm_ID = ''a1b2c3d4-0000-0000-0000-000000000001'',
             jfm_Date = ''63839761445123456789 0'', jfm_Type = ''user''\<rparr>,
           NL # ''## Feelings'' @ NL # ''fine'' @ [NL])"
  by (simp add: frontmatter_of_def journal_file_def ref_libs_def ref_ParseFrontmatter_def
      ref_UnmarshalJournal_def yaml_lines_def yaml_field_def HasPrefix_def unlines_def)

lemma codec_agrees_sample: "codec_agrees ref_libs entry_w"
proof -
  have "RenderJournal ref_libs
          \<lparr>jfm_ID = ''a1b2c3d4-0000-0000-0000-000000000001'',
             jfm_Date = ''63839761445123456789 0'', jfm_Type = ''user''\<rparr>
          (NL # ''## Feelings'' @ NL # ''fine'' @ [NL])
        = Some (journal_file ''a1b2c3d4-0000-0000-0000-000000000001''
                  ''63839761445123456789 0'' ''user'' ''fine'')"
    by (simp add: ref_libs_def ref_RenderJournal_def journal_file_def unlines_def)
  moreover have "uuid_Parse ref_libs = ref_uuid_Parse" "ParseTime ref_libs = ref_ParseTime"
    "FormatTime ref_libs = ref_FormatTime"
    by (simp_all add: ref_libs_def)
  ultimately show ?thesis
    by (simp add: codec_agrees_def Let_def entry_w_def render_feelings uuid_String_samples
        FormatTime_a frontmatter_of_sample uuid_Parse_a ParseTime_a)
qed

theorem ReadEntry_after_WriteEntry_witness:
  "WriteEntry ref_libs empty_env sample_store entry_w
     = Inr (written_env, entry_w\<lparr>je_FilePath := path_a\<rparr>)
   \<and> (\<exists>r. ReadEntry ref_libs written_env sample_store path_a = Inr r \<and>
            je_ID r = id_a \<and> je_Type r = ''user'' \<and> je_CreatedAt r = time_a \<and>
            je_Sections r = [''feelings'' \<mapsto> ''fine''])"
proof -
  have h1: "cwd empty_env = Some ''/w''" by (simp add: empty_env_def)
  have h2: "IsAbs ''/w''" by (simp add: IsAbs_def HasPrefix_def)
  have h3: "resolution empty_env
              (if je_Type entry_w = ''project'' then projectPath sample_store
               else userPath sample_store) \<noteq> Some []"
    by (simp add: resolution_def entry_w_def sample_store_def empty_env_def path_eval)
  have h5: "dom (je_Sections entry_w) \<subseteq> set ValidSections"
    by (simp add: entry_w_def ValidSections_def)
  have h6: "\<forall>n v. je_Sections entry_w n = Some v \<longrightarrow> plain v"
    using plain_fine by (simp add: entry_w_def)
  have fields: "je_ID entry_w = id_a" "je_Type entry_w = ''user''"
    "je_CreatedAt entry_w = time_a" "je_Sections entry_w = [''feelings'' \<mapsto> ''fine'']"
    by (simp_all add: entry_w_def)
  from ReadEntry_after_WriteEntry [OF h1 h2 h3 codec_agrees_sample h5 h6 sample_written]
  obtain r where r: "ReadEntry ref_libs written_env sample_store
                       (je_FilePath (entry_w\<lparr>je_FilePath := path_a\<rparr>)) = Inr r"
    "je_ID r = je_ID entry_w" "je_Type r = je_Type entry_w"
    "je_CreatedAt r = je_CreatedAt entry_w" "je_Sections r = je_Sections entry_w"
    by blast
  from r(1) have "ReadEntry ref_libs written_env sample_store path_a = Inr r" by simp
  moreover note r(2-5) [unfolded fields]
  ultimately have "\<exists>r. ReadEntry ref_libs written_env sample_store path_a = Inr r \<and>
            je_ID r = id_a \<and> je_Type r = ''user'' \<and> je_CreatedAt r = time_a \<and>
            je_Sections r = [''feelings'' \<mapsto> ''fine'']"
    by blast
  with sample_written show ?thesis by (rule_tac conjI)
qed

lemma TrimSpace_more:
  "TrimSpace ('' fine'' @ [NL, NL]) = ''fine''"
  "TrimSpace (''a'' @ [NL]) = ''a''"
  "TrimSpace (''c'' @ [NL, NL]) = ''c''"
  by code_simp+

lemma SectionKey_b: "SectionKey L ''b'' = ''b''"
  by code_simp

text \<open>
  An entry whose only section begins with a space comes back without the space; one
  whose section has a line \<open>## b\<close> comes back with a second section \<open>b\<close>; and an entry
  written below a root that is the root of the file system is refused when it is read.
\<close>

theorem roundtrip_counterexample:
  "je_Sections entry_sp ''feelings'' = Some '' fine''
   \<and> map_sum id (\<lambda>r. je_Sections r ''feelings'')
        (write_then_read ref_libs empty_env sample_store entry_sp) = Inr (Some ''fine'')
   \<and> je_Sections entry_hd ''b'' = None
   \<and> map_sum id (\<lambda>r. (je_Sections r ''feelings'', je_Sections r ''b''))
        (write_then_read ref_libs empty_env sample_store entry_hd)
       = Inr (Some ''a'', Some ''c'')
   \<and> write_then_read ref_libs empty_env root_store entry_w = Inl OutsideRoots"
proof -
  have a: "map_sum id (\<lambda>r. je_Sections r ''feelings'')
        (write_then_read ref_libs empty_env sample_store entry_sp) = Inr (Some ''fine'')"
    using TrimSpace_more
    by (simp add: entry_sp_def sample_write_then_read)
       (simp add: journal_eval)
  have b: "map_sum id (\<lambda>r. (je_Sections r ''feelings'', je_Sections r ''b''))
        (write_then_read ref_libs empty_env sample_store entry_hd)
       = Inr (Some ''a'', Some ''c'')"
    using TrimSpace_more
    by (simp add: entry_hd_def sample_write_then_read)
       (simp add: journal_eval SectionKey_b)
  have p: "Join [Join [''/'', ''2024-01-02''], ''03-04-05-000000-a1b2c3d4.md'']
           = ''/2024-01-02/03-04-05-000000-a1b2c3d4.md''"
    by (simp add: path_eval)
  have w: "WriteEntry ref_libs empty_env root_store entry_w
           = Inr (empty_env\<lparr>fs := fresh [''2024-01-02'', ''03-04-05-000000-a1b2c3d4.md''] jfile_a\<rparr>,
                  entry_w\<lparr>je_FilePath := ''/2024-01-02/03-04-05-000000-a1b2c3d4.md''\<rparr>)"
    by (simp add: WriteEntry_def Let_def entry_w_def root_store_def Format_date Format_time
        time_a_fields uuid_String_samples p ref_libs_def ref_RenderJournal_def
        AtomicWrite_def empty_env_def path_eval render_feelings FormatTime_a jfile_a_def
        journal_file_def unlines_def)
  have c: "write_then_read ref_libs empty_env root_store entry_w = Inl OutsideRoots"
    by (simp add: write_then_read_def w del: fresh.simps)
       (simp add: ReadEntry_def root_store_def empty_env_def path_eval)
  have d: "je_Sections entry_sp ''feelings'' = Some '' fine''"
    by (simp add: entry_sp_def)
  have e: "je_Sections entry_hd ''b'' = None"
    by (simp add: entry_hd_def)
  from d a e b c show ?thesis by (intro conjI)
qed


section \<open>Social posts: marking a post as synced\<close>








lemma map_of_member: "map_of es k = Some v \<Longrightarrow> (k, v) \<in> set es"
  by (rule map_of_SomeD)


















































end
